(* ===== verification/Prelude.thy ===== *)
theory Prelude
  imports Complex_Main "HOL-Library.Word" "HOL-Library.Sublist" "HOL-Library.Char_ord"
    "HOL-Library.List_Lexorder" "HOL-Library.Code_Target_Nat"
begin

text \<open>
  Shared vocabulary of the development: the machine types of the Rust sources, the part of
  Rust's standard string and byte API that the sources call, the named theorem collections,
  and the generic lemmas on lists that several components use.

  A Rust \<open>String\<close> is the list of its UTF-8 bytes, written as Isabelle's \<open>string\<close>
  (a list of 8-bit characters); \<open>length\<close> is then Rust's \<open>str::len\<close>. A byte buffer that
  the source treats bitwise is a \<open>byte list\<close>. The two are converted by \<open>bytes_of\<close> and
  \<open>string_of\<close>, which are mutually inverse.
\<close>

named_theorems host_simps \<open>normalisation and host matching\<close>
named_theorems evidence_mono \<open>which operations only ever add evidence\<close>
named_theorems layer_defs \<open>the evaluation functions of the policy layers\<close>

type_synonym byte = "8 word"
type_synonym u16 = "16 word"
type_synonym u32 = "32 word"
type_synonym u64 = "64 word"

section \<open>Bytes and characters\<close>

definition bytes_of :: "string \<Rightarrow> byte list" where
  "bytes_of s = map (\<lambda>c. word_of_nat (of_char c)) s"

definition string_of :: "byte list \<Rightarrow> string" where
  "string_of bs = map (\<lambda>b. char_of (unat b)) bs"

lemma byte_lt_256 [simp]: "unat (b :: byte) < 256"
  using unsigned_less [of b, where 'a = nat] by simp

lemma unat_byte_mod [simp]: "unat (b :: byte) mod 256 = unat b"
  by simp

lemma string_of_bytes_of [simp]: "string_of (bytes_of s) = s"
proof -
  have "char_of (unat (word_of_nat (of_char c) :: byte)) = c" for c :: char
  proof -
    have "of_char c < (256 :: nat)"
      by (metis of_char_mod_256 mod_less_divisor zero_less_numeral)
    then have "unat (word_of_nat (of_char c) :: byte) = of_char c"
      by (simp add: unsigned_of_nat take_bit_eq_mod)
    then show ?thesis
      by simp
  qed
  then show ?thesis
    by (induction s) (simp_all add: string_of_def bytes_of_def)
qed

lemma bytes_of_string_of [simp]: "bytes_of (string_of bs) = bs"
proof -
  have "word_of_nat (of_char (char_of (unat b) :: char)) = b" for b :: byte
  proof -
    have "unat b < 256"
      using unsigned_less [of b] by simp
    then show ?thesis
      by (simp add: of_char_of)
  qed
  then show ?thesis
    by (induction bs) (simp_all add: string_of_def bytes_of_def)
qed

lemma length_bytes_of [simp]: "length (bytes_of s) = length s"
  by (simp add: bytes_of_def)

lemma length_string_of [simp]: "length (string_of bs) = length bs"
  by (simp add: string_of_def)

lemma bytes_of_inject [simp]: "bytes_of s = bytes_of t \<longleftrightarrow> s = t"
  by (metis string_of_bytes_of)

definition is_ascii_digit :: "char \<Rightarrow> bool" where
  "is_ascii_digit c \<longleftrightarrow> CHR ''0'' \<le> c \<and> c \<le> CHR ''9''"

definition is_ascii_upper :: "char \<Rightarrow> bool" where
  "is_ascii_upper c \<longleftrightarrow> CHR ''A'' \<le> c \<and> c \<le> CHR ''Z''"

definition is_ascii_lower :: "char \<Rightarrow> bool" where
  "is_ascii_lower c \<longleftrightarrow> CHR ''a'' \<le> c \<and> c \<le> CHR ''z''"

definition ascii_char :: "char \<Rightarrow> bool" where
  "ascii_char c \<longleftrightarrow> of_char c < (128 :: nat)"

definition lower_char :: "char \<Rightarrow> char" where
  "lower_char c = (if is_ascii_upper c then char_of (of_char c + 32 :: nat) else c)"

definition upper_char :: "char \<Rightarrow> char" where
  "upper_char c = (if is_ascii_lower c then char_of (of_char c - 32 :: nat) else c)"

text \<open>\<open>str::to_ascii_lowercase\<close>, \<open>to_ascii_uppercase\<close>, \<open>eq_ignore_ascii_case\<close>.\<close>

definition to_ascii_lowercase :: "string \<Rightarrow> string" where
  "to_ascii_lowercase s = map lower_char s"

definition to_ascii_uppercase :: "string \<Rightarrow> string" where
  "to_ascii_uppercase s = map upper_char s"

definition eq_ignore_ascii_case :: "string \<Rightarrow> string \<Rightarrow> bool" where
  "eq_ignore_ascii_case s t \<longleftrightarrow> to_ascii_lowercase s = to_ascii_lowercase t"

lemma of_char_upper_bounds:
  "is_ascii_upper c \<longleftrightarrow> 65 \<le> (of_char c :: nat) \<and> (of_char c :: nat) \<le> 90"
  by (simp add: is_ascii_upper_def less_eq_char_def)

lemma lower_char_idem [simp]: "lower_char (lower_char c) = lower_char c"
proof (cases "is_ascii_upper c")
  case True
  then have b: "65 \<le> (of_char c :: nat)" "(of_char c :: nat) \<le> 90"
    by (simp_all add: of_char_upper_bounds)
  then have "of_char (char_of (of_char c + 32 :: nat) :: char) = (of_char c + 32 :: nat)"
    by (simp add: of_char_of)
  with b have "\<not> is_ascii_upper (char_of (of_char c + 32 :: nat))"
    by (simp add: of_char_upper_bounds)
  with True show ?thesis
    by (simp add: lower_char_def)
next
  case False
  then show ?thesis
    by (simp add: lower_char_def)
qed

lemma lower_idem [simp]: "to_ascii_lowercase (to_ascii_lowercase s) = to_ascii_lowercase s"
  by (simp add: to_ascii_lowercase_def)

lemma length_lower [simp]: "length (to_ascii_lowercase s) = length s"
  by (simp add: to_ascii_lowercase_def)

lemma lower_append [simp]:
  "to_ascii_lowercase (s @ t) = to_ascii_lowercase s @ to_ascii_lowercase t"
  by (simp add: to_ascii_lowercase_def)

lemma lower_Nil_iff [simp]: "to_ascii_lowercase s = [] \<longleftrightarrow> s = []"
  by (simp add: to_ascii_lowercase_def)

lemma rev_lower: "rev (to_ascii_lowercase s) = to_ascii_lowercase (rev s)"
  by (simp add: to_ascii_lowercase_def rev_map)


text \<open>A byte that is no letter of the alphabet has itself as its only preimage.\<close>

lemma lower_char_eq_nonletter:
  assumes "\<not> is_ascii_lower d"
  shows "lower_char c = d \<longleftrightarrow> c = d \<and> \<not> is_ascii_upper d"
proof (cases "is_ascii_upper c")
  case True
  then have b: "65 \<le> (of_char c :: nat)" "(of_char c :: nat) \<le> 90"
    by (simp_all add: of_char_upper_bounds)
  then have "of_char (char_of (of_char c + 32 :: nat) :: char) = (of_char c + 32 :: nat)"
    by (simp add: of_char_of)
  with b have "is_ascii_lower (char_of (of_char c + 32 :: nat))"
    by (simp add: is_ascii_lower_def less_eq_char_def)
  with assms True show ?thesis
    by (auto simp add: lower_char_def)
next
  case False
  then show ?thesis
    by (auto simp add: lower_char_def)
qed

text \<open>\<open>char::to_digit\<close>.\<close>

definition digit_val :: "nat \<Rightarrow> char \<Rightarrow> nat option" where
  "digit_val radix c =
    (let n = (of_char c :: nat);
         d = (if 48 \<le> n \<and> n \<le> 57 then n - 48
              else if 97 \<le> n \<and> n \<le> 122 then n - 87
              else if 65 \<le> n \<and> n \<le> 90 then n - 55
              else 36)
     in if d < radix then Some d else None)"

section \<open>Substrings\<close>

text \<open>\<open>str::contains\<close> for a string pattern.\<close>

fun contains :: "string \<Rightarrow> string \<Rightarrow> bool" where
  "contains s p = (prefix p s \<or> (case s of [] \<Rightarrow> False | c # t \<Rightarrow> contains t p))"

declare contains.simps [simp del]

lemma contains_iff_sublist: "contains s p \<longleftrightarrow> sublist p s"
proof (induction s)
  case Nil
  then show ?case
    by (subst contains.simps) simp
next
  case (Cons c t)
  then show ?case
    by (subst contains.simps) (simp add: sublist_Cons_right)
qed

text \<open>
  \<open>str::replace\<close> for a non-empty pattern: the matches are found from left to right and
  do not overlap.
\<close>

function replace_all :: "string \<Rightarrow> string \<Rightarrow> string \<Rightarrow> string" where
  "replace_all v r [] = []"
| "replace_all v r (c # t) =
     (if v \<noteq> [] \<and> prefix v (c # t) then r @ replace_all v r (drop (length v) (c # t))
      else c # replace_all v r t)"
  by pat_completeness auto
termination
  by (relation "measure (\<lambda>(v, r, s). length s)") (auto simp: neq_Nil_conv)

text \<open>\<open>str::strip_prefix\<close> and \<open>strip_suffix\<close>.\<close>

definition strip_prefix :: "'a list \<Rightarrow> 'a list \<Rightarrow> 'a list option" where
  "strip_prefix p s = (if prefix p s then Some (drop (length p) s) else None)"

definition strip_suffix :: "'a list \<Rightarrow> 'a list \<Rightarrow> 'a list option" where
  "strip_suffix p s = (if suffix p s then Some (take (length s - length p) s) else None)"

lemma strip_prefix_Some_iff: "strip_prefix p s = Some r \<longleftrightarrow> s = p @ r"
  by (auto simp: strip_prefix_def prefix_def)

lemma strip_prefix_None_iff: "strip_prefix p s = None \<longleftrightarrow> \<not> prefix p s"
  by (simp add: strip_prefix_def)

lemma strip_suffix_Some_iff: "strip_suffix p s = Some r \<longleftrightarrow> s = r @ p"
  by (auto simp: strip_suffix_def suffix_def)

text \<open>\<open>str::split\<close> on one character: always at least one piece.\<close>

fun split_on :: "'a \<Rightarrow> 'a list \<Rightarrow> 'a list list" where
  "split_on d [] = [[]]"
| "split_on d (c # t) =
     (if c = d then [] # split_on d t
      else (case split_on d t of [] \<Rightarrow> [[c]] | w # ws \<Rightarrow> (c # w) # ws))"

lemma split_on_ne [simp]: "split_on d s \<noteq> []"
  by (induction s) (auto split: list.splits)

lemma split_on_no_sep: "w \<in> set (split_on d s) \<Longrightarrow> d \<notin> set w"
proof (induction s arbitrary: w)
  case (Cons c t)
  then show ?case
    by (auto split: if_splits list.splits)
qed simp

lemma split_on_single: "d \<notin> set s \<Longrightarrow> split_on d s = [s]"
  by (induction s) auto

text \<open>\<open>str::split_inclusive\<close> on one character: each piece keeps its separator.\<close>

fun split_inclusive :: "'a \<Rightarrow> 'a list \<Rightarrow> 'a list list" where
  "split_inclusive d [] = []"
| "split_inclusive d (c # t) =
     (if c = d then [c] # split_inclusive d t
      else (case split_inclusive d t of [] \<Rightarrow> [[c]] | w # ws \<Rightarrow> (c # w) # ws))"

lemma concat_split_inclusive [simp]: "concat (split_inclusive d s) = s"
  by (induction s) (auto split: list.splits)

text \<open>\<open>str::split_once\<close> and \<open>rsplit_once\<close> on one character, and \<open>str::find\<close>.\<close>

fun split_once :: "'a \<Rightarrow> 'a list \<Rightarrow> ('a list \<times> 'a list) option" where
  "split_once d [] = None"
| "split_once d (c # t) =
     (if c = d then Some ([], t) else map_option (\<lambda>(a, b). (c # a, b)) (split_once d t))"

definition rsplit_once :: "'a \<Rightarrow> 'a list \<Rightarrow> ('a list \<times> 'a list) option" where
  "rsplit_once d s = map_option (\<lambda>(a, b). (rev b, rev a)) (split_once d (rev s))"

lemma split_once_Some: "split_once d s = Some (a, b) \<longleftrightarrow> s = a @ d # b \<and> d \<notin> set a"
proof (induction s arbitrary: a b)
  case Nil
  then show ?case
    by simp
next
  case (Cons c t)
  show ?case
    by (cases a) (auto simp: Cons.IH)
qed

lemma split_once_None: "split_once d s = None \<longleftrightarrow> d \<notin> set s"
  by (induction s) auto

lemma rsplit_once_Some: "rsplit_once d s = Some (a, b) \<longleftrightarrow> s = a @ d # b \<and> d \<notin> set b"
proof -
  have "rsplit_once d s = Some (a, b) \<longleftrightarrow> split_once d (rev s) = Some (rev b, rev a)"
    by (auto simp: rsplit_once_def)
  also have "\<dots> \<longleftrightarrow> s = a @ d # b \<and> d \<notin> set b"
    unfolding split_once_Some by (metis append.assoc append_Cons append_Nil rev.simps(2) rev_append rev_rev_ident set_rev)
  finally show ?thesis .
qed

lemma rsplit_once_None: "rsplit_once d s = None \<longleftrightarrow> d \<notin> set s"
  by (simp add: rsplit_once_def split_once_None)

text \<open>\<open>str::split\<close> and \<open>split_once\<close> on a non-empty string separator.\<close>

fun split_once_str :: "string \<Rightarrow> string \<Rightarrow> (string \<times> string) option" where
  "split_once_str p [] = (if p = [] then Some ([], []) else None)"
| "split_once_str p (c # t) =
     (if prefix p (c # t) then Some ([], drop (length p) (c # t))
      else map_option (\<lambda>(a, b). (c # a, b)) (split_once_str p t))"

lemma split_once_str_Some: "split_once_str p s = Some (a, b) \<Longrightarrow> s = a @ p @ b"
  by (induction s arbitrary: a b) (auto split: if_splits simp: prefix_def)

lemma split_once_str_length:
  "split_once_str p s = Some (a, b) \<Longrightarrow> p \<noteq> [] \<Longrightarrow> length b < length s"
  by (auto dest!: split_once_str_Some)

function split_str :: "string \<Rightarrow> string \<Rightarrow> string list" where
  "split_str p s =
     (case (if p = [] then None else split_once_str p s) of
        None \<Rightarrow> [s]
      | Some (a, b) \<Rightarrow> a # split_str p b)"
  by pat_completeness auto
termination
  by (relation "measure (\<lambda>(p, s). length s)")
    (auto split: if_splits dest: split_once_str_length)

declare split_str.simps [simp del]

text \<open>\<open>[String]::join\<close>.\<close>

fun join :: "string \<Rightarrow> string list \<Rightarrow> string" where
  "join sep [] = []"
| "join sep [w] = w"
| "join sep (w # v # ws) = w @ sep @ join sep (v # ws)"

text \<open>\<open>str::parse\<close> at an unsigned integer type whose largest value is \<open>limit\<close>.\<close>

fun dec_value :: "nat \<Rightarrow> string \<Rightarrow> nat option" where
  "dec_value acc [] = Some acc"
| "dec_value acc (c # t) =
     (if is_ascii_digit c then dec_value (10 * acc + (of_char c - 48)) t else None)"

definition parse_uint :: "nat \<Rightarrow> string \<Rightarrow> nat option" where
  "parse_uint limit s =
    (let digits = (case s of [] \<Rightarrow> [] | c # t \<Rightarrow> if c = CHR ''+'' then t else s) in
     if digits = [] then None
     else case dec_value 0 digits of
       None \<Rightarrow> None
     | Some n \<Rightarrow> if n \<le> limit then Some n else None)"

section \<open>Trimming\<close>

text \<open>The UTF-8 encodings of the characters with the Unicode property \<open>White_Space\<close>.\<close>

definition white_space :: "string list" where
  "white_space =
    [[CHR 0x20], [CHR 0x09], [CHR 0x0A], [CHR 0x0B], [CHR 0x0C], [CHR 0x0D],
     [CHR 0xC2, CHR 0x85], [CHR 0xC2, CHR 0xA0], [CHR 0xE1, CHR 0x9A, CHR 0x80]]
    @ map (\<lambda>c. [CHR 0xE2, CHR 0x80, c])
        [CHR 0x80, CHR 0x81, CHR 0x82, CHR 0x83, CHR 0x84, CHR 0x85, CHR 0x86, CHR 0x87,
         CHR 0x88, CHR 0x89, CHR 0x8A, CHR 0xA8, CHR 0xA9, CHR 0xAF]
    @ [[CHR 0xE2, CHR 0x81, CHR 0x9F], [CHR 0xE3, CHR 0x80, CHR 0x80]]"

function strip_any :: "string list \<Rightarrow> string \<Rightarrow> string" where
  "strip_any ws s =
     (case find (\<lambda>w. w \<noteq> [] \<and> prefix w s) ws of
        None \<Rightarrow> s
      | Some w \<Rightarrow> strip_any ws (drop (length w) s))"
  by pat_completeness auto
termination
  by (relation "measure (\<lambda>(ws, s). length s)")
    (auto simp: find_Some_iff prefix_def)

declare strip_any.simps [simp del]

definition trim_start :: "string \<Rightarrow> string" where
  "trim_start s = strip_any white_space s"

definition trim_end :: "string \<Rightarrow> string" where
  "trim_end s = rev (strip_any (map rev white_space) (rev s))"

definition trim :: "string \<Rightarrow> string" where
  "trim s = trim_end (trim_start s)"

text \<open>\<open>str::trim_end_matches\<close> and \<open>trim_start_matches\<close> for one character.\<close>

definition trim_end_matches :: "char \<Rightarrow> string \<Rightarrow> string" where
  "trim_end_matches c s = rev (dropWhile (\<lambda>d. d = c) (rev s))"

definition trim_end_any :: "char list \<Rightarrow> string \<Rightarrow> string" where
  "trim_end_any cs s = rev (dropWhile (\<lambda>d. d \<in> set cs) (rev s))"

lemma trim_end_matches_snoc [simp]: "trim_end_matches c (s @ [c]) = trim_end_matches c s"
  by (simp add: trim_end_matches_def)

lemma trim_end_matches_last: "s = [] \<or> last s \<noteq> c \<Longrightarrow> trim_end_matches c s = s"
  by (cases s rule: rev_cases) (simp_all add: trim_end_matches_def)

lemma last_trim_end_matches:
  "trim_end_matches c s = [] \<or> last (trim_end_matches c s) \<noteq> c"
proof (cases "dropWhile (\<lambda>d. d = c) (rev s)")
  case (Cons x xs)
  then have "x \<noteq> c"
    by (simp add: dropWhile_eq_Cons_conv)
  with Cons show ?thesis
    by (simp add: trim_end_matches_def)
qed (simp add: trim_end_matches_def)

lemma find_cong_set: "(\<And>x. x \<in> set xs \<Longrightarrow> P x = Q x) \<Longrightarrow> find P xs = find Q xs"
  by (induction xs) auto

lemma find_Some_in: "find P xs = Some x \<Longrightarrow> x \<in> set xs \<and> P x"
  by (induction xs) (auto split: if_splits)

lemma find_ne_None: "find P xs \<noteq> None \<longleftrightarrow> (\<exists>x \<in> set xs. P x)"
  by (induction xs) auto

lemma ex_split_Cons:
  "(\<exists>pre x post. a # xs = pre @ x # post \<and> P x \<and> (\<forall>y \<in> set pre. Q y)) \<longleftrightarrow>
     P a \<or> (Q a \<and> (\<exists>pre x post. xs = pre @ x # post \<and> P x \<and> (\<forall>y \<in> set pre. Q y)))"
  (is "?l \<longleftrightarrow> ?r")
proof
  assume ?l
  then obtain pre x post where h: "a # xs = pre @ x # post" "P x" "\<forall>y \<in> set pre. Q y"
    by blast
  then show ?r
    by (cases pre) auto
next
  assume ?r
  then show ?l
  proof
    assume "P a"
    then show ?l
      by (intro exI [of _ "[]"]) simp
  next
    assume "Q a \<and> (\<exists>pre x post. xs = pre @ x # post \<and> P x \<and> (\<forall>y \<in> set pre. Q y))"
    then obtain pre x post where "Q a" "xs = pre @ x # post" "P x" "\<forall>y \<in> set pre. Q y"
      by blast
    then show ?l
      by (intro exI [of _ "a # pre"] exI [of _ x] exI [of _ post]) simp
  qed
qed

definition case_free :: "string list \<Rightarrow> bool" where
  "case_free ws \<longleftrightarrow> (\<forall>w \<in> set ws. \<forall>c \<in> set w. \<not> is_ascii_lower c \<and> \<not> is_ascii_upper c)"

lemma prefix_lower_case_free:
  "(\<And>c. c \<in> set w \<Longrightarrow> \<not> is_ascii_lower c \<and> \<not> is_ascii_upper c) \<Longrightarrow>
     prefix w (to_ascii_lowercase s) \<longleftrightarrow> prefix w s"
proof (induction w arbitrary: s)
  case (Cons d w)
  then have d: "\<not> is_ascii_lower d" "\<not> is_ascii_upper d"
    and IH: "\<And>s. prefix w (to_ascii_lowercase s) \<longleftrightarrow> prefix w s"
    by simp_all
  show ?case
  proof (cases s)
    case (Cons c t)
    have "d = lower_char c \<longleftrightarrow> d = c"
      using lower_char_eq_nonletter [OF d(1), of c] d(2) by metis
    with Cons IH [of t] show ?thesis
      by (simp add: to_ascii_lowercase_def)
  qed (simp add: to_ascii_lowercase_def)
qed simp

lemma strip_any_lower:
  assumes "case_free ws"
  shows "strip_any ws (to_ascii_lowercase s) = to_ascii_lowercase (strip_any ws s)"
proof (induction "length s" arbitrary: s rule: less_induct)
  case less
  have f: "find (\<lambda>w. w \<noteq> [] \<and> prefix w (to_ascii_lowercase s)) ws =
      find (\<lambda>w. w \<noteq> [] \<and> prefix w s) ws"
    using assms by (intro find_cong_set) (auto simp: case_free_def prefix_lower_case_free)
  show ?case
  proof (cases "find (\<lambda>w. w \<noteq> [] \<and> prefix w s) ws")
    case None
    with f show ?thesis
      by (simp add: strip_any.simps [of ws s] strip_any.simps [of ws "to_ascii_lowercase s"])
  next
    case (Some w)
    then have "length (drop (length w) s) < length s"
      by (auto simp: find_Some_iff prefix_def)
    then have "strip_any ws (to_ascii_lowercase (drop (length w) s)) =
        to_ascii_lowercase (strip_any ws (drop (length w) s))"
      by (rule less)
    moreover have "strip_any ws (to_ascii_lowercase s) =
        strip_any ws (to_ascii_lowercase (drop (length w) s))"
      using Some f by (subst strip_any.simps) (simp add: to_ascii_lowercase_def drop_map)
    moreover have "strip_any ws s = strip_any ws (drop (length w) s)"
      using Some by (subst strip_any.simps) simp
    ultimately show ?thesis
      by simp
  qed
qed

lemma case_free_white_space: "case_free white_space" "case_free (map rev white_space)"
  by (simp_all add: case_free_def white_space_def is_ascii_lower_def is_ascii_upper_def
      less_eq_char_def)

lemma trim_lower: "trim (to_ascii_lowercase s) = to_ascii_lowercase (trim s)"
  by (simp add: trim_def trim_start_def trim_end_def rev_lower strip_any_lower
      case_free_white_space)

lemma trim_end_matches_lower:
  assumes "\<not> is_ascii_lower c" "\<not> is_ascii_upper c"
  shows "trim_end_matches c (to_ascii_lowercase s) = to_ascii_lowercase (trim_end_matches c s)"
proof -
  have "dropWhile (\<lambda>d. d = c) (to_ascii_lowercase t) =
      to_ascii_lowercase (dropWhile (\<lambda>d. d = c) t)" for t
    by (induction t) (auto simp: to_ascii_lowercase_def lower_char_eq_nonletter assms)
  then show ?thesis
    by (simp add: trim_end_matches_def rev_lower)
qed

section \<open>UTF-8 validation\<close>

text \<open>
  \<open>std::str::from_utf8\<close>: the width of a well-formed leading character, and the number of
  bytes before the first ill-formed one (\<open>Utf8Error::valid_up_to\<close>).
\<close>

definition utf8_cont :: "byte \<Rightarrow> bool" where
  "utf8_cont b \<longleftrightarrow> 0x80 \<le> b \<and> b \<le> 0xBF"

definition utf8_width :: "byte list \<Rightarrow> nat option" where
  "utf8_width bs =
    (case bs of
       [] \<Rightarrow> None
     | a # r \<Rightarrow>
         if a < 0x80 then Some 1
         else (case r of
            [] \<Rightarrow> None
          | b # r2 \<Rightarrow>
              if 0xC2 \<le> a \<and> a \<le> 0xDF then (if utf8_cont b then Some 2 else None)
              else (case r2 of
                 [] \<Rightarrow> None
               | c # r3 \<Rightarrow>
                   if (a = 0xE0 \<and> 0xA0 \<le> b \<and> b \<le> 0xBF)
                     \<or> (0xE1 \<le> a \<and> a \<le> 0xEC \<and> utf8_cont b)
                     \<or> (a = 0xED \<and> 0x80 \<le> b \<and> b \<le> 0x9F)
                     \<or> (0xEE \<le> a \<and> a \<le> 0xEF \<and> utf8_cont b)
                   then (if utf8_cont c then Some 3 else None)
                   else (case r3 of
                      [] \<Rightarrow> None
                    | d # _ \<Rightarrow>
                        if ((a = 0xF0 \<and> 0x90 \<le> b \<and> b \<le> 0xBF)
                          \<or> (0xF1 \<le> a \<and> a \<le> 0xF3 \<and> utf8_cont b)
                          \<or> (a = 0xF4 \<and> 0x80 \<le> b \<and> b \<le> 0x8F))
                          \<and> utf8_cont c \<and> utf8_cont d
                        then Some 4 else None))))"

lemma utf8_width_bounds: "utf8_width bs = Some w \<Longrightarrow> 0 < w \<and> w \<le> length bs"
  by (auto simp: utf8_width_def split: list.splits if_splits)

lemma utf8_width_extend:
  assumes "utf8_width bs = Some w"
  shows "utf8_width (take w bs @ t) = Some w"
proof -
  consider (w1) a r where "bs = a # r" "w = 1" "a < 0x80"
    | (w2) a b r where "bs = a # b # r" "w = 2" "\<not> a < 0x80" "0xC2 \<le> a \<and> a \<le> 0xDF"
        "utf8_cont b"
    | (w3) a b c r where "bs = a # b # c # r" "w = 3" "\<not> a < 0x80"
        "\<not> (0xC2 \<le> a \<and> a \<le> 0xDF)"
    | (w4) a b c d r where "bs = a # b # c # d # r" "w = 4" "\<not> a < 0x80"
        "\<not> (0xC2 \<le> a \<and> a \<le> 0xDF)"
    using assms unfolding utf8_width_def by (auto split: list.splits if_splits)
  then show ?thesis
  proof cases
    case w1
    then show ?thesis
      by (simp add: utf8_width_def)
  next
    case w2
    then show ?thesis
      by (simp add: utf8_width_def numeral_2_eq_2)
  next
    case w3
    then have "take w bs @ t = a # b # c # t"
      by (simp add: numeral_3_eq_3)
    with w3 assms show ?thesis
      by (simp only: utf8_width_def list.case split: if_split_asm)
        (auto split: list.split_asm if_split_asm)
  next
    case w4
    then have "take w bs @ t = a # b # c # d # t"
      by (simp add: numeral_eq_Suc)
    with w4 assms show ?thesis
      by (simp only: utf8_width_def list.case)
  qed
qed

lemma utf8_width_take: "utf8_width bs = Some w \<Longrightarrow> utf8_width (take (w + n) bs) = Some w"
  using utf8_width_extend [of bs w "take n (drop w bs)"] by (simp add: take_add)

lemma utf8_width_append: "utf8_width bs = Some w \<Longrightarrow> utf8_width (bs @ t) = Some w"
  by (metis append.assoc append_take_drop_id utf8_width_extend)

function utf8_valid_up_to :: "byte list \<Rightarrow> nat" where
  "utf8_valid_up_to bs =
     (case utf8_width bs of None \<Rightarrow> 0 | Some w \<Rightarrow> w + utf8_valid_up_to (drop w bs))"
  by pat_completeness auto
termination
  by (relation "measure length") (auto dest: utf8_width_bounds)

declare utf8_valid_up_to.simps [simp del]

definition utf8_ok :: "byte list \<Rightarrow> bool" where
  "utf8_ok bs \<longleftrightarrow> utf8_valid_up_to bs = length bs"

lemma utf8_valid_up_to_le: "utf8_valid_up_to bs \<le> length bs"
proof (induction bs rule: utf8_valid_up_to.induct)
  case (1 bs)
  show ?case
  proof (cases "utf8_width bs")
    case None
    then show ?thesis
      by (simp add: utf8_valid_up_to.simps [of bs])
  next
    case (Some w)
    with 1 utf8_width_bounds [OF Some] show ?thesis
      by (force simp add: utf8_valid_up_to.simps [of bs])
  qed
qed

lemma utf8_valid_up_to_append:
  "utf8_ok a \<Longrightarrow> utf8_valid_up_to (a @ b) = length a + utf8_valid_up_to b"
proof (induction a rule: utf8_valid_up_to.induct)
  case (1 a)
  show ?case
  proof (cases "utf8_width a")
    case None
    with "1.prems" have "a = []"
      by (simp add: utf8_valid_up_to.simps [of a] utf8_ok_def)
    then show ?thesis
      by simp
  next
    case (Some w)
    note w = utf8_width_bounds [OF Some]
    with "1.prems" Some have "utf8_ok (drop w a)"
      by (simp add: utf8_valid_up_to.simps [of a] utf8_ok_def)
    with 1 Some have "utf8_valid_up_to (drop w a @ b) = length (drop w a) + utf8_valid_up_to b"
      by simp
    with Some utf8_width_append [OF Some, of b] w show ?thesis
      by (simp add: utf8_valid_up_to.simps [of "a @ b"])
  qed
qed

lemma utf8_ok_append: "utf8_ok a \<Longrightarrow> utf8_ok b \<Longrightarrow> utf8_ok (a @ b)"
  by (simp add: utf8_ok_def utf8_valid_up_to_append)

lemma utf8_ok_Nil [simp]: "utf8_ok []"
  by (simp add: utf8_ok_def utf8_valid_up_to.simps [of "[]"] utf8_width_def)

lemma utf8_valid_up_to_take: "utf8_valid_up_to (take (utf8_valid_up_to bs) bs) = utf8_valid_up_to bs"
proof (induction bs rule: utf8_valid_up_to.induct)
  case (1 bs)
  show ?case
  proof (cases "utf8_width bs")
    case None
    then have "utf8_valid_up_to bs = 0"
      by (subst utf8_valid_up_to.simps) simp
    then show ?thesis
      by (simp add: utf8_valid_up_to.simps [of "[]"] utf8_width_def)
  next
    case (Some w)
    let ?n = "utf8_valid_up_to (drop w bs)"
    have n: "utf8_valid_up_to bs = w + ?n"
      using Some by (subst utf8_valid_up_to.simps) simp
    have "utf8_width (take (w + ?n) bs) = Some w"
      using utf8_width_take [OF Some] by simp
    then have "utf8_valid_up_to (take (w + ?n) bs) = w + utf8_valid_up_to (take ?n (drop w bs))"
      by (subst utf8_valid_up_to.simps) (simp add: drop_take)
    with 1 [OF Some] n show ?thesis
      by simp
  qed
qed

lemma utf8_ok_valid_prefix: "utf8_ok (take (utf8_valid_up_to bs) bs)"
  using utf8_valid_up_to_le [of bs] by (simp add: utf8_ok_def utf8_valid_up_to_take)

text \<open>\<open>String::from_utf8\<close>.\<close>

definition from_utf8 :: "byte list \<Rightarrow> string option" where
  "from_utf8 bs = (if utf8_ok bs then Some (string_of bs) else None)"

text \<open>
  \<open>String::from_utf8_lossy\<close>: each maximal ill-formed part becomes U+FFFD. \<open>utf8_bad_len\<close> is
  the length of the part at the front of an input that has no well-formed leading character.
\<close>

definition utf8_bad_len :: "byte list \<Rightarrow> nat" where
  "utf8_bad_len bs =
    (let a = bs ! 0;
         b = (if 1 < length bs then bs ! 1 else 0);
         c = (if 2 < length bs then bs ! 2 else 0)
     in if (a = 0xE0 \<and> 0xA0 \<le> b \<and> b \<le> 0xBF)
          \<or> (0xE1 \<le> a \<and> a \<le> 0xEC \<and> utf8_cont b)
          \<or> (a = 0xED \<and> 0x80 \<le> b \<and> b \<le> 0x9F)
          \<or> (0xEE \<le> a \<and> a \<le> 0xEF \<and> utf8_cont b)
        then 2
        else if (a = 0xF0 \<and> 0x90 \<le> b \<and> b \<le> 0xBF)
          \<or> (0xF1 \<le> a \<and> a \<le> 0xF3 \<and> utf8_cont b)
          \<or> (a = 0xF4 \<and> 0x80 \<le> b \<and> b \<le> 0x8F)
        then (if utf8_cont c then 3 else 2)
        else 1)"

function utf8_lossy :: "byte list \<Rightarrow> byte list" where
  "utf8_lossy bs =
     (case utf8_width bs of
        Some w \<Rightarrow> take w bs @ utf8_lossy (drop w bs)
      | None \<Rightarrow>
          if bs = [] then [] else [0xEF, 0xBF, 0xBD] @ utf8_lossy (drop (utf8_bad_len bs) bs))"
  by pat_completeness auto
termination
  by (relation "measure length") (auto dest: utf8_width_bounds simp: utf8_bad_len_def Let_def)

declare utf8_lossy.simps [simp del]

definition from_utf8_lossy :: "byte list \<Rightarrow> string" where
  "from_utf8_lossy bs = string_of (utf8_lossy bs)"

lemma utf8_lossy_ok: "utf8_ok bs \<Longrightarrow> utf8_lossy bs = bs"
proof (induction bs rule: utf8_lossy.induct)
  case (1 bs)
  show ?case
  proof (cases "utf8_width bs")
    case None
    with "1.prems" have "bs = []"
      by (simp add: utf8_valid_up_to.simps [of bs] utf8_ok_def)
    with None show ?thesis
      by (subst utf8_lossy.simps) simp
  next
    case (Some w)
    with "1.prems" utf8_width_bounds [OF Some] have "utf8_ok (drop w bs)"
      by (simp add: utf8_valid_up_to.simps [of bs] utf8_ok_def)
    with Some 1 show ?thesis
      by (simp add: utf8_lossy.simps [of bs])
  qed
qed

lemma from_utf8_lossy_string: "utf8_ok (bytes_of s) \<Longrightarrow> from_utf8_lossy (bytes_of s) = s"
  by (simp add: from_utf8_lossy_def utf8_lossy_ok)

section \<open>Lines and words\<close>

text \<open>\<open>str::lines\<close>.\<close>

definition line_of :: "string \<Rightarrow> string" where
  "line_of l = (case strip_suffix [CHR 0x0A] l of
     None \<Rightarrow> l
   | Some l' \<Rightarrow> (case strip_suffix [CHR 0x0D] l' of None \<Rightarrow> l' | Some l'' \<Rightarrow> l''))"

definition str_lines :: "string \<Rightarrow> string list" where
  "str_lines s = map line_of (split_inclusive (CHR 0x0A) s)"

text \<open>\<open>str::split_whitespace\<close>; a white space character may be several bytes long.\<close>

definition flush_word :: "string \<Rightarrow> string list" where
  "flush_word w = (if w = [] then [] else [w])"

fun split_ws :: "nat \<Rightarrow> string \<Rightarrow> string \<Rightarrow> string list" where
  "split_ws k w [] = flush_word w"
| "split_ws (Suc k) w (c # t) = split_ws k w t"
| "split_ws 0 w (c # t) =
     (case find (\<lambda>x. prefix x (c # t)) white_space of
        Some x \<Rightarrow> flush_word w @ split_ws (length x - 1) [] t
      | None \<Rightarrow> split_ws 0 (w @ [c]) t)"

definition split_whitespace :: "string \<Rightarrow> string list" where
  "split_whitespace s = split_ws 0 [] s"

section \<open>Fallible maps\<close>

text \<open>\<open>collect\<close> of an iterator of results: the first error wins.\<close>

fun traverse :: "('a \<Rightarrow> 'e + 'b) \<Rightarrow> 'a list \<Rightarrow> 'e + 'b list" where
  "traverse f [] = Inr []"
| "traverse f (x # xs) =
    (case f x of
       Inl e \<Rightarrow> Inl e
     | Inr y \<Rightarrow> (case traverse f xs of Inl e \<Rightarrow> Inl e | Inr ys \<Rightarrow> Inr (y # ys)))"

lemma traverse_Inr:
  "traverse f xs = Inr ys \<longleftrightarrow> list_all2 (\<lambda>x y. f x = Inr y) xs ys"
proof (induction xs arbitrary: ys)
  case (Cons x xs)
  show ?case
  proof (cases ys)
    case (Cons y zs)
    with Cons.IH [of zs] show ?thesis
      by (auto split: sum.splits)
  qed (auto split: sum.splits)
qed auto

end
