(* ===== verification/Encoding.thy ===== *)
theory Encoding
  imports Prelude
begin

unbundle bit_operations_syntax

text \<open>
  \<open>crates/marshal-core/src/encoding.rs\<close>: base64 in the standard and the URL-safe alphabet,
  the URL-safe decoder, percent-encoding and form encoding. The bit manipulation is kept at
  its width: input bytes are \<open>u8\<close>, the decoder's accumulator is a \<open>u32\<close> whose left shift
  drops the high bits.
\<close>

section \<open>Base64\<close>

definition STANDARD :: string where
  "STANDARD = ''ABCDEFGHIJKLMNOPQRSTUVWXYZabcdefghijklmnopqrstuvwxyz0123456789+/''"

definition URL_SAFE :: string where
  "URL_SAFE = ''ABCDEFGHIJKLMNOPQRSTUVWXYZabcdefghijklmnopqrstuvwxyz0123456789-_''"

text \<open>The body of the loop of \<open>encode_with\<close>, for one chunk of one to three bytes.\<close>

definition encode_chunk :: "string \<Rightarrow> byte list \<Rightarrow> bool \<Rightarrow> string" where
  "encode_chunk alphabet chunk pad =
    (let b0 = chunk ! 0;
         b1 = (if 1 < length chunk then chunk ! 1 else 0);
         b2 = (if 2 < length chunk then chunk ! 2 else 0)
     in [alphabet ! unat (drop_bit 2 b0)]
        @ [alphabet ! unat (push_bit 4 (b0 AND 0x03) OR drop_bit 4 b1)]
        @ (if 1 < length chunk
           then [alphabet ! unat (push_bit 2 (b1 AND 0x0F) OR drop_bit 6 b2)]
           else if pad then ''='' else [])
        @ (if 2 < length chunk then [alphabet ! unat (b2 AND 0x3F)]
           else if pad then ''='' else []))"

fun encode_with :: "string \<Rightarrow> byte list \<Rightarrow> bool \<Rightarrow> string" where
  "encode_with alphabet [] pad = []"
| "encode_with alphabet (b0 # b1 # b2 # rest) pad =
     encode_chunk alphabet [b0, b1, b2] pad @ encode_with alphabet rest pad"
| "encode_with alphabet chunk pad = encode_chunk alphabet chunk pad"

definition base64_encode :: "byte list \<Rightarrow> string" where
  "base64_encode input = encode_with STANDARD input True"

definition base64url_encode :: "byte list \<Rightarrow> string" where
  "base64url_encode input = encode_with URL_SAFE input False"

datatype b64_error = InvalidBase64url char

datatype b64_sym = Sextet u32 | Padding | Invalid

definition b64_symbol :: "char \<Rightarrow> b64_sym" where
  "b64_symbol c =
    (let n = (of_char c :: nat) in
     if is_ascii_upper c then Sextet (word_of_nat (n - 65))
     else if is_ascii_lower c then Sextet (word_of_nat (n - 97 + 26))
     else if is_ascii_digit c then Sextet (word_of_nat (n - 48 + 52))
     else if c = CHR ''-'' then Sextet 62
     else if c = CHR ''_'' then Sextet 63
     else if c = CHR ''='' then Padding
     else Invalid)"

text \<open>The loop of \<open>base64url_decode\<close>, with its accumulator, bit count and output.\<close>

fun decode_loop :: "u32 \<Rightarrow> nat \<Rightarrow> byte list \<Rightarrow> string \<Rightarrow> b64_error + byte list" where
  "decode_loop acc bits out [] = Inr out"
| "decode_loop acc bits out (c # cs) =
     (case b64_symbol c of
        Padding \<Rightarrow> decode_loop acc bits out cs
      | Invalid \<Rightarrow> Inl (InvalidBase64url c)
      | Sextet v \<Rightarrow>
          (let acc = push_bit 6 acc OR v; bits = bits + 6 in
           if 8 \<le> bits
           then decode_loop acc (bits - 8) (out @ [ucast (drop_bit (bits - 8) acc)]) cs
           else decode_loop acc bits out cs))"

definition base64url_decode :: "string \<Rightarrow> b64_error + byte list" where
  "base64url_decode input = decode_loop 0 0 [] input"

section \<open>Percent and form encoding\<close>

definition unreserved :: "byte \<Rightarrow> bool" where
  "unreserved b \<longleftrightarrow>
     (0x41 \<le> b \<and> b \<le> 0x5A) \<or> (0x61 \<le> b \<and> b \<le> 0x7A) \<or> (0x30 \<le> b \<and> b \<le> 0x39)
     \<or> b = 0x2D \<or> b = 0x5F \<or> b = 0x2E \<or> b = 0x7E"

definition hex_upper :: "byte \<Rightarrow> char" where
  "hex_upper n = (if n < 10 then char_of (48 + unat n) else char_of (55 + unat n))"

definition percent_byte :: "byte \<Rightarrow> string" where
  "percent_byte b =
     (if unreserved b then [char_of (unat b)]
      else [CHR ''%'', hex_upper (drop_bit 4 b), hex_upper (b AND 0x0F)])"

definition percent_encode :: "byte list \<Rightarrow> string" where
  "percent_encode input = concat (map percent_byte input)"

fun form_urlencode_loop :: "string \<Rightarrow> (string \<times> string) list \<Rightarrow> string" where
  "form_urlencode_loop out [] = out"
| "form_urlencode_loop out ((name, value) # pairs) =
     form_urlencode_loop
       (out @ (if out \<noteq> [] then ''&'' else []) @ percent_encode (bytes_of name) @ ''=''
          @ percent_encode (bytes_of value)) pairs"

definition form_urlencode :: "(string \<times> string) list \<Rightarrow> string" where
  "form_urlencode pairs = form_urlencode_loop [] pairs"

section \<open>Comparison without a shortcut\<close>

lemma xor_word_zero: "(x XOR y = 0) = (x = (y :: 'a::len word))"
proof
  assume "x XOR y = 0"
  then have "(x XOR y) XOR y = y"
    by simp
  then show "x = y"
    by (simp add: xor.assoc)
qed simp

lemma fold_differences:
  "foldl (\<lambda>acc (x, y). acc OR (x XOR y)) (a :: byte) ps = 0 \<longleftrightarrow> a = 0 \<and> (\<forall>(x, y) \<in> set ps. x = y)"
  by (induction ps arbitrary: a) (auto simp: or_eq_0_iff xor_word_zero)

lemma fold_differences_zip:
  "length a = length b \<Longrightarrow> foldl (\<lambda>acc (x, y). acc OR (x XOR y)) (0 :: byte) (zip a b) = 0 \<longleftrightarrow> a = b"
  by (induction a b rule: list_induct2) (auto simp: fold_differences xor_word_zero)

section \<open>Decoding undoes encoding\<close>

lemma b64_symbol_alphabet:
  assumes "n < 64"
  shows "b64_symbol (URL_SAFE ! n) = Sextet (word_of_nat n)"
proof -
  have "map b64_symbol URL_SAFE = map (\<lambda>n. Sextet (word_of_nat n)) [0..<64]"
    by (simp add: URL_SAFE_def b64_symbol_def is_ascii_upper_def is_ascii_lower_def is_ascii_digit_def upt_rec)
  then have "map b64_symbol URL_SAFE ! n = map (\<lambda>n. Sextet (word_of_nat n)) [0..<64] ! n"
    by simp
  moreover have "length URL_SAFE = 64"
    by (simp add: URL_SAFE_def)
  ultimately show ?thesis
    using assms by simp
qed

text \<open>The four sextets of a chunk, and the accumulator after one more sextet.\<close>

definition sx0 :: "byte \<Rightarrow> byte" where
  "sx0 a = drop_bit 2 a"

definition sx1 :: "byte \<Rightarrow> byte \<Rightarrow> byte" where
  "sx1 a b = push_bit 4 (a AND 0x03) OR drop_bit 4 b"

definition sx2 :: "byte \<Rightarrow> byte \<Rightarrow> byte" where
  "sx2 b c = push_bit 2 (b AND 0x0F) OR drop_bit 6 c"

definition sx3 :: "byte \<Rightarrow> byte" where
  "sx3 c = c AND 0x3F"

definition shift_in :: "u32 \<Rightarrow> u32 \<Rightarrow> u32" where
  "shift_in acc v = push_bit 6 acc OR v"

lemmas sx_defs = sx0_def sx1_def sx2_def sx3_def

lemma encode_chunk_sextets:
  "encode_chunk al [a, b, c] pad =
     [al ! unat (sx0 a), al ! unat (sx1 a b), al ! unat (sx2 b c), al ! unat (sx3 c)]"
  "encode_chunk al [a, b] pad =
     [al ! unat (sx0 a), al ! unat (sx1 a b), al ! unat (sx2 b 0)] @ (if pad then ''='' else [])"
  "encode_chunk al [a] pad =
     [al ! unat (sx0 a), al ! unat (sx1 a 0)] @ (if pad then ''=='' else [])"
  by (simp_all add: encode_chunk_def sx_defs)

lemma mask_and:
  "x AND 0x03 = take_bit 2 x" "x AND 0x0F = take_bit 4 x" "x AND 0x3F = take_bit 6 x"
  for x :: byte
  by (simp_all add: take_bit_eq_mask mask_eq_exp_minus_1)

lemma byte_bit_lt: "bit (b :: byte) n \<Longrightarrow> n < 8"
  using bit_imp_le_length [of b n] by simp

lemma bit_byte_out [simp]: "8 \<le> n \<Longrightarrow> \<not> bit (b :: byte) n"
  using byte_bit_lt by fastforce

lemma less_64_iff: "x < (64 :: byte) \<longleftrightarrow> take_bit 6 x = x"
proof -
  have "x < 64 \<longleftrightarrow> unat x < 64"
    by (simp add: word_less_nat_alt)
  also have "\<dots> \<longleftrightarrow> take_bit 6 (unat x) = unat x"
    by (simp add: take_bit_nat_eq_self_iff)
  also have "\<dots> \<longleftrightarrow> take_bit 6 x = x"
    by (metis unsigned_take_bit_eq word_unat_eq_iff)
  finally show ?thesis .
qed

lemma sextet_bounds: "sx0 a < 64" "sx1 a b < 64" "sx2 a b < 64" "sx3 a < 64"
  unfolding less_64_iff sx_defs mask_and
  by (rule bit_word_eqI; auto simp: bit_simps dest: byte_bit_lt)+

lemma Suc_minus:
  "Suc (Suc 0) \<le> n \<Longrightarrow> Suc (Suc (n - Suc (Suc 0))) = n"
  "2 \<le> n \<Longrightarrow> Suc (Suc (n - Suc (Suc 0))) = n"
  "4 \<le> n \<Longrightarrow> Suc (Suc (n - Suc (Suc 0))) = n"
  "4 \<le> n \<Longrightarrow> n - 4 + 4 = n"
  "6 \<le> n \<Longrightarrow> n - 6 + 6 = n"
  by simp_all

lemma decoded_bytes:
  shows "ucast (drop_bit 4 (shift_in (shift_in acc (ucast (sx0 a))) (ucast (sx1 a b)))) = a"
    and "ucast (drop_bit 2 (shift_in (shift_in acc (ucast (sx1 a b))) (ucast (sx2 b c)))) = b"
    and "ucast (shift_in (shift_in acc (ucast (sx2 b c))) (ucast (sx3 c))) = c"
  unfolding sx_defs shift_in_def mask_and
  by (rule bit_word_eqI,
      auto simp: bit_simps Suc_minus not_le not_less add.commute dest: byte_bit_lt)+

lemma b64_symbol_url_safe:
  assumes "x < (64 :: byte)"
  shows "b64_symbol (URL_SAFE ! unat x) = Sextet (ucast x)"
proof -
  have "unat x < 64"
    using assms by (simp add: word_less_nat_alt)
  then show ?thesis
    by (simp add: b64_symbol_alphabet)
qed

lemma decode_step:
  assumes "x < (64 :: byte)"
  shows "decode_loop acc 0 out (URL_SAFE ! unat x # cs) =
      decode_loop (shift_in acc (ucast x)) 6 out cs"
    and "decode_loop acc 6 out (URL_SAFE ! unat x # cs) =
      decode_loop (shift_in acc (ucast x)) 4
        (out @ [ucast (drop_bit 4 (shift_in acc (ucast x)))]) cs"
    and "decode_loop acc 4 out (URL_SAFE ! unat x # cs) =
      decode_loop (shift_in acc (ucast x)) 2
        (out @ [ucast (drop_bit 2 (shift_in acc (ucast x)))]) cs"
    and "decode_loop acc 2 out (URL_SAFE ! unat x # cs) =
      decode_loop (shift_in acc (ucast x)) 0 (out @ [ucast (shift_in acc (ucast x))]) cs"
  by (simp_all add: decode_loop.simps b64_symbol_url_safe [OF assms] shift_in_def [symmetric] Let_def)

declare decode_loop.simps(2) [simp del]

lemma decode_loop_encode:
  "decode_loop acc 0 out (encode_with URL_SAFE bs False) = Inr (out @ bs)"
  by (induction URL_SAFE bs False arbitrary: acc out rule: encode_with.induct)
    (simp_all add: encode_chunk_sextets decode_step sextet_bounds decoded_bytes)

text \<open>
  C16 (round trip). The URL-safe decoder undoes the URL-safe encoder on every byte string, of
  every length modulo three: the unpadded tail and the bits the accumulator keeps from earlier
  characters do not matter.
\<close>

lemma base64url_roundtrip: "base64url_decode (base64url_encode bs) = Inr bs"
  by (simp add: base64url_decode_def base64url_encode_def decode_loop_encode)

section \<open>Shape of the encoded text\<close>

lemma length_encode_chunk_pad: "length (encode_chunk al ch True) = 4"
  by (simp add: encode_chunk_def Let_def)

lemma base64_length: "length (base64_encode bs) = 4 * ((length bs + 2) div 3)"
proof -
  have "length (encode_with STANDARD bs True) = 4 * ((length bs + 2) div 3)"
  proof (induction STANDARD bs True rule: encode_with.induct)
    case (2 b0 b1 b2 rest)
    have "(length (b0 # b1 # b2 # rest) + 2) div 3 = Suc ((length rest + 2) div 3)"
      by simp
    with 2 show ?case
      by (simp add: length_encode_chunk_pad del: div_Suc)
  qed (simp_all add: length_encode_chunk_pad)
  then show ?thesis
    by (simp add: base64_encode_def)
qed

definition url_safe_char :: "char \<Rightarrow> bool" where
  "url_safe_char c \<longleftrightarrow> c \<in> set URL_SAFE"

lemma nth_url_safe: "x < (64 :: byte) \<Longrightarrow> url_safe_char (URL_SAFE ! unat x)"
proof -
  assume "x < 64"
  moreover have "length URL_SAFE = 64"
    by (simp add: URL_SAFE_def)
  ultimately have "unat x < length URL_SAFE"
    by (simp add: word_less_nat_alt)
  then show ?thesis
    by (simp add: url_safe_char_def)
qed

lemma base64url_chars: "\<forall>c \<in> set (base64url_encode bs). url_safe_char c"
proof -
  have "\<forall>c \<in> set (encode_with URL_SAFE bs False). url_safe_char c"
    by (induction URL_SAFE bs False rule: encode_with.induct)
      (auto simp: encode_chunk_sextets nth_url_safe sextet_bounds)
  then show ?thesis
    by (simp add: base64url_encode_def)
qed

lemma base64url_length: "length (base64url_encode bs) = (4 * length bs + 2) div 3"
proof -
  have "length (encode_with URL_SAFE bs False) = (4 * length bs + 2) div 3"
    by (induction URL_SAFE bs False rule: encode_with.induct)
      (simp_all add: encode_chunk_def Let_def)
  then show ?thesis
    by (simp add: base64url_encode_def)
qed

section \<open>Form encoding is injection-free\<close>

lemma hex_upper_props:
  assumes "x < (16 :: byte)"
  shows "digit_val 16 (hex_upper x) = Some (unat x)"
    and "hex_upper x \<notin> {CHR ''&'', CHR ''='', CHR ''+'', CHR ''%''}"
proof -
  have "list_all (\<lambda>n. digit_val 16 (hex_upper (word_of_nat n)) = Some n) [0..<16]"
    by (simp add: upt_rec hex_upper_def digit_val_def)
  moreover have "unat x \<in> set [0..<16]" "word_of_nat (unat x) = x"
    using assms by (simp_all add: word_less_nat_alt)
  ultimately show digit: "digit_val 16 (hex_upper x) = Some (unat x)"
    unfolding list_all_iff by metis
  have "digit_val 16 c = None" if "c \<in> {CHR ''&'', CHR ''='', CHR ''+'', CHR ''%''}" for c
    using that by (auto simp: digit_val_def)
  with digit show "hex_upper x \<notin> {CHR ''&'', CHR ''='', CHR ''+'', CHR ''%''}"
    by (metis option.distinct(1))
qed

lemma unat_nibbles:
  "unat (drop_bit 4 b :: byte) = unat b div 16" "unat (b AND 0x0F :: byte) = unat b mod 16"
  unfolding mask_and
   apply (subst unsigned_drop_bit_eq)
   apply (simp add: drop_bit_eq_div take_bit_eq_mod)
  apply (subst unsigned_take_bit_eq)
  apply (simp add: take_bit_eq_mod)
  done

lemma nibble_bounds: "drop_bit 4 b < (16 :: byte)" "b AND 0x0F < (16 :: byte)"
  using byte_lt_256 [of b] unfolding word_less_nat_alt unat_nibbles
  by (simp_all add: div_less_iff_less_mult del: byte_lt_256)

lemma nibbles_join: "16 * unat (drop_bit 4 b) + unat (b AND 0x0F) = unat (b :: byte)"
  unfolding unat_nibbles by simp

lemma char_of_unat_eq: "char_of (unat b) = c \<longleftrightarrow> (b :: byte) = word_of_nat (of_char c)"
proof -
  have "char_of (unat b) = c \<longleftrightarrow> string_of [b] = [c]"
    by (simp add: string_of_def)
  also have "\<dots> \<longleftrightarrow> [b] = bytes_of [c]"
    by (metis bytes_of_string_of string_of_bytes_of)
  finally show ?thesis
    by (simp add: bytes_of_def)
qed

lemma unreserved_chars:
  "unreserved b \<Longrightarrow> char_of (unat b) \<notin> {CHR ''&'', CHR ''='', CHR ''+'', CHR ''%''}"
  by (auto simp: char_of_unat_eq unreserved_def)

lemma percent_byte_chars:
  "c \<in> set (percent_byte b) \<Longrightarrow> c \<noteq> CHR ''&'' \<and> c \<noteq> CHR ''='' \<and> c \<noteq> CHR ''+''"
  using hex_upper_props(2) [OF nibble_bounds(1) [of b]] hex_upper_props(2) [OF nibble_bounds(2) [of b]]
    unreserved_chars [of b]
  by (auto simp: percent_byte_def split: if_splits)

lemma percent_encode_chars:
  "CHR ''&'' \<notin> set (percent_encode bs)" "CHR ''='' \<notin> set (percent_encode bs)"
  by (auto simp: percent_encode_def dest: percent_byte_chars)

definition form_pair :: "string \<times> string \<Rightarrow> string" where
  "form_pair nv = percent_encode (bytes_of (fst nv)) @ ''='' @ percent_encode (bytes_of (snd nv))"

lemma form_pair_no_amp: "CHR ''&'' \<notin> set (form_pair nv)"
  by (auto simp: form_pair_def percent_encode_chars)

lemma form_urlencode_loop_ne:
  "out \<noteq> [] \<Longrightarrow>
     form_urlencode_loop out pairs = out @ concat (map (\<lambda>nv. ''&'' @ form_pair nv) pairs)"
  by (induction pairs arbitrary: out) (auto simp: form_pair_def split: prod.splits)

lemma form_urlencode_Cons:
  "form_urlencode (nv # pairs) = form_pair nv @ concat (map (\<lambda>nv. ''&'' @ form_pair nv) pairs)"
  by (cases nv) (simp add: form_urlencode_def form_urlencode_loop_ne form_pair_def)

lemma split_on_append_sep:
  "d \<notin> set w \<Longrightarrow> split_on d (w @ d # s) = w # split_on d s"
  by (induction w) auto

lemma split_form_tail:
  "CHR ''&'' \<notin> set w \<Longrightarrow>
     split_on (CHR ''&'') (w @ concat (map (\<lambda>nv. CHR ''&'' # form_pair nv) pairs))
       = w # map form_pair pairs"
proof (induction pairs arbitrary: w)
  case Nil
  then show ?case
    by (simp add: split_on_single)
next
  case (Cons nv pairs)
  then show ?case
    by (simp add: split_on_append_sep form_pair_no_amp)
qed

lemma split_form_urlencode:
  "pairs \<noteq> [] \<Longrightarrow> split_on (CHR ''&'') (form_urlencode pairs) = map form_pair pairs"
  by (cases pairs) (simp_all add: form_urlencode_Cons split_form_tail form_pair_no_amp)

end
