(* ===== verification/Json.thy ===== *)
theory Json
  imports Prelude
begin

text \<open>
  \<open>serde_json::Value\<close> as data. The crate's constructors are public and documented; an object
  is its \<open>Map\<close>, a \<open>BTreeMap\<close> in this build, so a list of entries in strictly increasing
  key order (\<open>json_wf\<close>). Reading and printing JSON text are not modelled: where the sources
  call them they are parameters of the definitions that do.
\<close>

text \<open>A number is a \<open>u64\<close>, a negative \<open>i64\<close> or a finite \<open>f64\<close>, given by its value.\<close>

datatype jnumber = PosInt nat | NegInt int | Float rat

datatype json =
    JNull
  | JBool bool
  | JNum jnumber
  | JStr string
  | JArr "json list"
  | JObj "(string \<times> json) list"

type_synonym jmap = "(string \<times> json) list"

text \<open>
  \<open>serde_json::from_slice\<close> (or the text of its error) and \<open>to_string\<close>.
\<close>

record json_lib =
  jl_parse :: "byte list \<Rightarrow> json option"
  jl_error :: "byte list \<Rightarrow> string"
  jl_show :: "json \<Rightarrow> string"

fun map_insert :: "'k::linorder \<Rightarrow> 'v \<Rightarrow> ('k \<times> 'v) list \<Rightarrow> ('k \<times> 'v) list" where
  "map_insert k v [] = [(k, v)]"
| "map_insert k v ((k', v') # m) =
     (if k = k' then (k, v) # m
      else if k < k' then (k, v) # (k', v') # m
      else (k', v') # map_insert k v m)"

lemma map_of_map_insert [simp]: "map_of (map_insert k v m) = (map_of m)(k \<mapsto> v)"
  by (induction m rule: map_insert.induct) (auto simp: fun_eq_iff)

lemma keys_map_insert [simp]: "fst ` set (map_insert k v m) = insert k (fst ` set m)"
  by (induction m rule: map_insert.induct) auto

abbreviation sorted_keys :: "('k::linorder \<times> 'v) list \<Rightarrow> bool" where
  "sorted_keys m \<equiv> sorted_wrt (<) (map fst m)"

lemma sorted_map_insert: "sorted_keys m \<Longrightarrow> sorted_keys (map_insert k v m)"
proof (induction m rule: map_insert.induct)
  case (2 k v k' v' m)
  then have "\<forall>x \<in> fst ` set (map_insert k v m). x = k \<or> k' < x"
    by auto
  with 2 show ?case
    by (auto simp: neq_iff)
qed simp

lemma set_map_insert: "set (map_insert k v m) \<subseteq> insert (k, v) (set m)"
  by (induction m rule: map_insert.induct) auto

definition jobj :: "(string \<times> json) list \<Rightarrow> json" where
  "jobj kvs = JObj (foldl (\<lambda>m (k, v). map_insert k v m) [] kvs)"

fun json_wf :: "json \<Rightarrow> bool" where
  "json_wf (JArr xs) = (\<forall>x \<in> set xs. json_wf x)"
| "json_wf (JObj m) = (sorted_keys m \<and> (\<forall>kv \<in> set m. json_wf (snd kv)))"
| "json_wf _ = True"

text \<open>\<open>Value::get\<close> with a string key, the \<open>as_*\<close> views and the \<open>is_*\<close> tests.\<close>

fun jget :: "json \<Rightarrow> string \<Rightarrow> json option" where
  "jget (JObj m) k = map_of m k"
| "jget _ k = None"

fun as_str :: "json \<Rightarrow> string option" where
  "as_str (JStr s) = Some s"
| "as_str _ = None"

fun as_bool :: "json \<Rightarrow> bool option" where
  "as_bool (JBool b) = Some b"
| "as_bool _ = None"

fun as_array :: "json \<Rightarrow> json list option" where
  "as_array (JArr xs) = Some xs"
| "as_array _ = None"

fun as_object :: "json \<Rightarrow> jmap option" where
  "as_object (JObj m) = Some m"
| "as_object _ = None"

fun as_u64 :: "json \<Rightarrow> nat option" where
  "as_u64 (JNum (PosInt n)) = Some n"
| "as_u64 _ = None"

fun as_i64 :: "json \<Rightarrow> int option" where
  "as_i64 (JNum (PosInt n)) = (if n < 2 ^ 63 then Some (int n) else None)"
| "as_i64 (JNum (NegInt i)) = Some i"
| "as_i64 _ = None"

fun is_string :: "json \<Rightarrow> bool" where
  "is_string (JStr _) = True"
| "is_string _ = False"

fun is_object :: "json \<Rightarrow> bool" where
  "is_object (JObj _) = True"
| "is_object _ = False"

fun is_array :: "json \<Rightarrow> bool" where
  "is_array (JArr _) = True"
| "is_array _ = False"

abbreviation get_str :: "json \<Rightarrow> string \<Rightarrow> string option" where
  "get_str v k \<equiv> Option.bind (jget v k) as_str"

abbreviation get_array :: "json \<Rightarrow> string \<Rightarrow> json list option" where
  "get_array v k \<equiv> Option.bind (jget v k) as_array"

abbreviation unwrap_or :: "'a \<Rightarrow> 'a option \<Rightarrow> 'a" where
  "unwrap_or d x \<equiv> case_option d id x"

text \<open>
  \<open>Value::pointer\<close>, with the pointer given as its list of tokens. A token indexes an array
  when it is a decimal number with no sign and no leading zero.
\<close>

definition array_index :: "string \<Rightarrow> nat option" where
  "array_index s =
    (if s = [] \<or> (take 1 s = ''0'' \<and> length s \<noteq> 1) then None else dec_value 0 s)"

fun jstep :: "json \<Rightarrow> string \<Rightarrow> json option" where
  "jstep (JObj m) k = map_of m k"
| "jstep (JArr xs) k =
     (case array_index k of
        None \<Rightarrow> None
      | Some i \<Rightarrow> if i < length xs then Some (xs ! i) else None)"
| "jstep _ k = None"

fun pointer :: "json \<Rightarrow> string list \<Rightarrow> json option" where
  "pointer v [] = Some v"
| "pointer v (k # ks) = Option.bind (jstep v k) (\<lambda>w. pointer w ks)"

abbreviation pointer_str :: "json \<Rightarrow> string list \<Rightarrow> string option" where
  "pointer_str v ks \<equiv> Option.bind (pointer v ks) as_str"

lemma jget_jobj_single [simp]: "jget (jobj [(k, v)]) k = Some v"
  by (simp add: jobj_def)

lemma map_of_foldl_insert:
  "map_of (foldl (\<lambda>m (k, v). map_insert k v m) m0 kvs) = map_of m0 ++ map_of (rev kvs)"
proof (induction kvs arbitrary: m0)
  case (Cons kv kvs)
  obtain k v where "kv = (k, v)"
    by fastforce
  then show ?case
    by (simp add: Cons map_add_upd_left map_add_def fun_eq_iff split: option.splits)
qed simp

lemma jget_jobj: "jget (jobj kvs) k = map_of (rev kvs) k"
  by (simp add: jobj_def map_of_foldl_insert)

lemma json_wf_map_insert:
  "json_wf (JObj m) \<Longrightarrow> json_wf v \<Longrightarrow> json_wf (JObj (map_insert k v m))"
  using set_map_insert [of k v m] by (auto simp: sorted_map_insert)

lemma json_wf_jobj: "\<forall>kv \<in> set kvs. json_wf (snd kv) \<Longrightarrow> json_wf (jobj kvs)"
proof -
  assume wf: "\<forall>kv \<in> set kvs. json_wf (snd kv)"
  have "json_wf (JObj m0) \<Longrightarrow> json_wf (JObj (foldl (\<lambda>m (k, v). map_insert k v m) m0 kvs))" for m0
    using wf
  proof (induction kvs arbitrary: m0)
    case (Cons kv kvs)
    obtain k v where [simp]: "kv = (k, v)"
      by fastforce
    from Cons.prems have "json_wf (JObj (map_insert k v m0))"
      by (intro json_wf_map_insert) auto
    with Cons show ?case
      by simp
  qed simp
  from this [of "[]"] show ?thesis
    by (simp add: jobj_def)
qed

end
