(* ===== verification/StdNet.thy ===== *)
theory StdNet
  imports Prelude "HOL-Library.Monad_Syntax"
begin

text \<open>
  The part of Rust's \<open>std::net\<close> the sources use: IP addresses, their classification, their
  parser (\<open>str::parse::<IpAddr>\<close>) and their textual form. The parser follows the library's
  one-character-lookahead reader: a sub-parser either consumes its text or leaves the input
  untouched, and the whole input must be consumed.

  The CIDR type \<open>IpNet\<close> comes from the crate \<open>ipnet\<close>, which is not part of the sources; it
  is a parameter, the record \<open>ipnet\<close> of its three operations the sources call.
\<close>

unbundle bit_operations_syntax

datatype ip_addr =
    V4 byte byte byte byte
  | V6 u16 u16 u16 u16 u16 u16 u16 u16

record socket_addr =
  sa_ip :: ip_addr
  sa_port :: u16

fun is_ipv4 :: "ip_addr \<Rightarrow> bool" where
  "is_ipv4 (V4 _ _ _ _) = True"
| "is_ipv4 (V6 _ _ _ _ _ _ _ _) = False"

record 'net ipnet =
  net_parse :: "string \<Rightarrow> 'net option"
  net_contains :: "'net \<Rightarrow> ip_addr \<Rightarrow> bool"
  net_show :: "'net \<Rightarrow> string"

section \<open>Parsing\<close>

fun read_digits :: "nat \<Rightarrow> nat \<Rightarrow> nat \<Rightarrow> nat \<Rightarrow> string \<Rightarrow> (nat \<times> nat \<times> string) option" where
  "read_digits radix mx cnt acc [] = Some (acc, cnt, [])"
| "read_digits radix mx cnt acc (c # t) =
     (case digit_val radix c of
        None \<Rightarrow> Some (acc, cnt, c # t)
      | Some d \<Rightarrow>
          if mx < Suc cnt then None
          else read_digits radix mx (Suc cnt) (acc * radix + d) t)"

definition read_number :: "nat \<Rightarrow> nat \<Rightarrow> nat \<Rightarrow> bool \<Rightarrow> string \<Rightarrow> (nat \<times> string) option" where
  "read_number radix mx limit allow_zero_prefix s =
    (case read_digits radix mx 0 0 s of
       None \<Rightarrow> None
     | Some (v, n, r) \<Rightarrow>
         if n = 0 then None
         else if \<not> allow_zero_prefix \<and> take 1 s = ''0'' \<and> 1 < n then None
         else if v < limit then Some (v, r) else None)"

definition read_char :: "char \<Rightarrow> string \<Rightarrow> string option" where
  "read_char c s = (case s of [] \<Rightarrow> None | d # t \<Rightarrow> if c = d then Some t else None)"

definition read_octet :: "string \<Rightarrow> (byte \<times> string) option" where
  "read_octet s = map_option (\<lambda>(v, r). (word_of_nat v, r)) (read_number 10 3 256 False s)"

definition read_group :: "string \<Rightarrow> (u16 \<times> string) option" where
  "read_group s = map_option (\<lambda>(v, r). (word_of_nat v, r)) (read_number 16 4 65536 True s)"

definition read_v4 :: "string \<Rightarrow> ((byte \<times> byte \<times> byte \<times> byte) \<times> string) option" where
  "read_v4 s = do {
     (a, s) \<leftarrow> read_octet s;
     s \<leftarrow> read_char (CHR ''.'') s;
     (b, s) \<leftarrow> read_octet s;
     s \<leftarrow> read_char (CHR ''.'') s;
     (c, s) \<leftarrow> read_octet s;
     s \<leftarrow> read_char (CHR ''.'') s;
     (d, s) \<leftarrow> read_octet s;
     Some ((a, b, c, d), s) }"

definition read_sep :: "nat \<Rightarrow> (string \<Rightarrow> ('a \<times> string) option) \<Rightarrow> string \<Rightarrow> ('a \<times> string) option" where
  "read_sep i p s =
    (if i = 0 then p s else case read_char (CHR '':'') s of None \<Rightarrow> None | Some t \<Rightarrow> p t)"

definition be16 :: "byte \<Rightarrow> byte \<Rightarrow> u16" where
  "be16 a b = push_bit 8 (ucast a) OR ucast b"

text \<open>
  \<open>read_groups\<close> with \<open>n\<close> slots left of \<open>limit\<close> (slot number \<open>i\<close>): the groups read, whether a
  trailing embedded IPv4 address was, and the rest of the input.
\<close>

fun read_groups :: "nat \<Rightarrow> nat \<Rightarrow> string \<Rightarrow> u16 list \<times> bool \<times> string" where
  "read_groups 0 i s = ([], False, s)"
| "read_groups (Suc n) i s =
     (case (if 0 < n then read_sep i read_v4 s else None) of
        Some ((a, b, c, d), r) \<Rightarrow> ([be16 a b, be16 c d], True, r)
      | None \<Rightarrow>
          (case read_sep i read_group s of
             None \<Rightarrow> ([], False, s)
           | Some (g, r) \<Rightarrow>
               (case read_groups n (Suc i) r of (gs, v4, r') \<Rightarrow> (g # gs, v4, r'))))"

definition v6_of :: "u16 list \<Rightarrow> ip_addr" where
  "v6_of gs = V6 (gs ! 0) (gs ! 1) (gs ! 2) (gs ! 3) (gs ! 4) (gs ! 5) (gs ! 6) (gs ! 7)"

definition read_v6 :: "string \<Rightarrow> (ip_addr \<times> string) option" where
  "read_v6 s =
    (case read_groups 8 0 s of (hd_groups, hd_v4, r) \<Rightarrow>
       if length hd_groups = 8 then Some (v6_of hd_groups, r)
       else if hd_v4 then None
       else do {
         r \<leftarrow> read_char (CHR '':'') r;
         r \<leftarrow> read_char (CHR '':'') r;
         (case read_groups (8 - (length hd_groups + 1)) 0 r of (tl_groups, _, r) \<Rightarrow>
            Some (v6_of (hd_groups
                    @ replicate (8 - length hd_groups - length tl_groups) 0
                    @ tl_groups), r)) })"

definition parse_ip :: "string \<Rightarrow> ip_addr option" where
  "parse_ip s =
    (case (case read_v4 s of
             Some ((a, b, c, d), r) \<Rightarrow> Some (V4 a b c d, r)
           | None \<Rightarrow> read_v6 s) of
       Some (ip, []) \<Rightarrow> Some ip
     | _ \<Rightarrow> None)"

section \<open>Classification\<close>

fun v4_is_private :: "byte \<Rightarrow> byte \<Rightarrow> bool" where
  "v4_is_private a b \<longleftrightarrow>
     a = 10 \<or> (a = 172 \<and> 16 \<le> b \<and> b \<le> 31) \<or> (a = 192 \<and> b = 168)"

fun v4_is_documentation :: "byte \<Rightarrow> byte \<Rightarrow> byte \<Rightarrow> bool" where
  "v4_is_documentation a b c \<longleftrightarrow>
     (a = 192 \<and> b = 0 \<and> c = 2) \<or> (a = 198 \<and> b = 51 \<and> c = 100) \<or> (a = 203 \<and> b = 0 \<and> c = 113)"

text \<open>\<open>Ipv6Addr::to_ipv4_mapped\<close>: only \<open>::ffff:a.b.c.d\<close>.\<close>

fun to_ipv4_mapped :: "ip_addr \<Rightarrow> ip_addr option" where
  "to_ipv4_mapped (V6 s0 s1 s2 s3 s4 s5 s6 s7) =
     (if s0 = 0 \<and> s1 = 0 \<and> s2 = 0 \<and> s3 = 0 \<and> s4 = 0 \<and> s5 = 0xFFFF
      then Some (V4 (ucast (drop_bit 8 s6)) (ucast s6) (ucast (drop_bit 8 s7)) (ucast s7))
      else None)"
| "to_ipv4_mapped (V4 _ _ _ _) = None"

section \<open>Printing\<close>

fun show_nat :: "nat \<Rightarrow> string" where
  "show_nat n =
     (if n < 10 then [char_of (48 + n)] else show_nat (n div 10) @ [char_of (48 + n mod 10)])"

declare show_nat.simps [simp del]

lemma dec_value_append:
  "dec_value acc (s @ t) = Option.bind (dec_value acc s) (\<lambda>n. dec_value n t)"
  by (induction acc s rule: dec_value.induct) simp_all

lemma of_char_digit: "n < 10 \<Longrightarrow> of_char (char_of (48 + n :: nat)) = 48 + n"
  by simp

lemma digit_char: "n < 10 \<Longrightarrow> is_ascii_digit (char_of (48 + n :: nat))"
  by (simp add: is_ascii_digit_def less_eq_char_def)

lemma dec_value_show_nat: "dec_value 0 (show_nat n) = Some n"
proof (induction n rule: show_nat.induct)
  case (1 n)
  show ?case
  proof (cases "n < 10")
    case True
    then show ?thesis
      by (simp add: show_nat.simps [of n] digit_char)
  next
    case False
    with 1 have "dec_value 0 (show_nat (n div 10)) = Some (n div 10)"
      by simp
    with False show ?thesis
      by (simp add: show_nat.simps [of n] dec_value_append digit_char)
  qed
qed

lemma show_nat_ne [simp]: "show_nat n \<noteq> []"
  by (simp add: show_nat.simps [of n])

lemma show_nat_digits: "c \<in> set (show_nat n) \<Longrightarrow> is_ascii_digit c"
proof (induction n rule: show_nat.induct)
  case (1 n)
  then show ?case
    by (cases "n < 10") (auto simp: show_nat.simps [of n] digit_char)
qed

lemma parse_uint_show: "n \<le> limit \<Longrightarrow> parse_uint limit (show_nat n) = Some n"
proof -
  have "is_ascii_digit (CHR ''+'') = False"
    by code_simp
  then have "\<And>t. show_nat n \<noteq> CHR ''+'' # t"
    using show_nat_digits [of "CHR ''+''" n] by auto
  then have "(case show_nat n of [] \<Rightarrow> [] | c # t \<Rightarrow> if c = CHR ''+'' then t else show_nat n) = show_nat n"
    by (auto split: list.split)
  moreover assume "n \<le> limit"
  ultimately show ?thesis
    by (simp only: parse_uint_def Let_def dec_value_show_nat) simp
qed

definition hex_digit :: "nat \<Rightarrow> char" where
  "hex_digit n = (if n < 10 then char_of (48 + n) else char_of (87 + n))"

fun show_hex :: "nat \<Rightarrow> string" where
  "show_hex n = (if n < 16 then [hex_digit n] else show_hex (n div 16) @ [hex_digit (n mod 16)])"

declare show_hex.simps [simp del]

definition show_v4 :: "byte \<Rightarrow> byte \<Rightarrow> byte \<Rightarrow> byte \<Rightarrow> string" where
  "show_v4 a b c d = join ''.'' (map (\<lambda>x. show_nat (unat x)) [a, b, c, d])"

text \<open>
  \<open>Display for Ipv6Addr\<close>: a v4-mapped address in dotted form, otherwise the first longest
  run of at least two zero groups is written \<open>::\<close>.
\<close>

fun zero_run :: "u16 list \<Rightarrow> nat" where
  "zero_run [] = 0"
| "zero_run (g # gs) = (if g = 0 then Suc (zero_run gs) else 0)"

fun best_run :: "nat \<Rightarrow> u16 list \<Rightarrow> nat \<times> nat \<Rightarrow> nat \<times> nat" where
  "best_run i [] best = best"
| "best_run i (g # gs) (start, len) =
     best_run (Suc i) gs
       (if len < zero_run (g # gs) then (i, zero_run (g # gs)) else (start, len))"

definition show_groups :: "u16 list \<Rightarrow> string" where
  "show_groups gs = join '':'' (map (\<lambda>g. show_hex (unat g)) gs)"

fun show_ip :: "ip_addr \<Rightarrow> string" where
  "show_ip (V4 a b c d) = show_v4 a b c d"
| "show_ip (V6 s0 s1 s2 s3 s4 s5 s6 s7) =
     (case to_ipv4_mapped (V6 s0 s1 s2 s3 s4 s5 s6 s7) of
        Some (V4 a b c d) \<Rightarrow> ''::ffff:'' @ show_v4 a b c d
      | _ \<Rightarrow>
          (let gs = [s0, s1, s2, s3, s4, s5, s6, s7] in
           case best_run 0 gs (0, 0) of (start, len) \<Rightarrow>
             if 1 < len
             then show_groups (take start gs) @ ''::'' @ show_groups (drop (start + len) gs)
             else show_groups gs))"

fun show_socket_addr :: "socket_addr \<Rightarrow> string" where
  "show_socket_addr a =
    (case sa_ip a of
       V4 _ _ _ _ \<Rightarrow> show_ip (sa_ip a) @ '':'' @ show_nat (unat (sa_port a))
     | V6 _ _ _ _ _ _ _ _ \<Rightarrow> ''['' @ show_ip (sa_ip a) @ '']:'' @ show_nat (unat (sa_port a)))"

lemma parse_ip_examples:
  "parse_ip ''10.1.2.3'' = Some (V4 10 1 2 3)"
  "parse_ip ''10.01.2.3'' = None"
  "parse_ip ''256.1.2.3'' = None"
  "parse_ip ''example.com'' = None"
  "parse_ip ''::1'' = Some (V6 0 0 0 0 0 0 0 1)"
  "parse_ip ''fd00::1'' = Some (V6 0xFD00 0 0 0 0 0 0 1)"
  "parse_ip ''::ffff:10.1.2.3'' = Some (V6 0 0 0 0 0 0xFFFF 0x0A01 0x0203)"
  by code_simp+

end
