(* ===== verification/Form.thy ===== *)
theory Form
  imports Encoding Json StdNet
begin

text \<open>
  \<open>crates/marshal-secrets/src/oauth/form.rs\<close>: reading query strings and token request
  bodies. The percent decoder walks the bytes with the source's index arithmetic (a \<open>%\<close> in
  the last two positions is an ordinary byte) and its use of \<open>u8::from_str_radix\<close>, which
  also accepts a leading plus sign. JSON bodies are read by \<open>serde_json\<close>: its parser and its
  number printer are parameters.
\<close>

definition u8_from_hex :: "byte \<Rightarrow> byte \<Rightarrow> byte option" where
  "u8_from_hex x y =
    (let hex = (\<lambda>b :: byte. digit_val 16 (char_of (unat b))) in
     if x = 0x2B then map_option word_of_nat (hex y)
     else case (hex x, hex y) of
       (Some h, Some l) \<Rightarrow> Some (word_of_nat (16 * h + l))
     | _ \<Rightarrow> None)"

fun percent_decode_bytes :: "byte list \<Rightarrow> byte list" where
  "percent_decode_bytes [] = []"
| "percent_decode_bytes (b # rest) =
     (if b = 0x25 \<and> 2 \<le> length rest
      then (case u8_from_hex (rest ! 0) (rest ! 1) of
              Some v \<Rightarrow> v # percent_decode_bytes (drop 2 rest)
            | None \<Rightarrow> b # percent_decode_bytes rest)
      else if b = 0x2B then 0x20 # percent_decode_bytes rest
      else b # percent_decode_bytes rest)"

definition percent_decode :: "string \<Rightarrow> string" where
  "percent_decode input = from_utf8_lossy (percent_decode_bytes (bytes_of input))"

definition parse_pairs :: "string \<Rightarrow> (string \<times> string) list" where
  "parse_pairs input =
     map (\<lambda>pair. case split_once (CHR ''='') pair of
                   Some (k, v) \<Rightarrow> (percent_decode k, percent_decode v)
                 | None \<Rightarrow> (percent_decode pair, []))
       (filter (\<lambda>p. p \<noteq> []) (split_on (CHR ''&'') input))"

definition find_pair :: "(string \<times> string) list \<Rightarrow> string \<Rightarrow> string option" where
  "find_pair pairs name = map_option snd (find (\<lambda>(k, _). k = name) pairs)"

fun scalar_text :: "(jnumber \<Rightarrow> string) \<Rightarrow> json \<Rightarrow> string option" where
  "scalar_text show_num (JStr s) = Some s"
| "scalar_text show_num (JNum n) = Some (show_num n)"
| "scalar_text show_num (JBool b) = Some (if b then ''true'' else ''false'')"
| "scalar_text show_num _ = None"

definition parse_body ::
  "(byte list \<Rightarrow> json option) \<Rightarrow> (jnumber \<Rightarrow> string) \<Rightarrow> string option \<Rightarrow> byte list
     \<Rightarrow> (string \<times> string) list" where
  "parse_body from_slice show_num content_type body =
    (let is_json = (case content_type of
         None \<Rightarrow> False
       | Some ct \<Rightarrow>
           eq_ignore_ascii_case (trim (hd (split_on (CHR '';'') ct))) ''application/json'')
     in if is_json
        then (case from_slice body of
                Some (JObj m) \<Rightarrow>
                  List.map_filter (\<lambda>(k, v). map_option (Pair k) (scalar_text show_num v)) m
              | _ \<Rightarrow> [])
        else parse_pairs (from_utf8_lossy body))"

section \<open>Reading undoes writing\<close>

lemma bytes_of_Cons: "bytes_of (c # s) = word_of_nat (of_char c) # bytes_of s"
  by (simp add: bytes_of_def)

lemma bytes_of_Nil [simp]: "bytes_of [] = []"
  by (simp add: bytes_of_def)

lemma byte_of_char_of [simp]: "word_of_nat (of_char (char_of (unat b))) = (b :: byte)"
  using char_of_unat_eq [of b "char_of (unat b)"] by simp

lemma char_of_byte [simp]: "char_of (unat (word_of_nat (of_char c) :: byte)) = c"
  by (simp add: char_of_unat_eq)

lemma byte_of_char_eq: "(word_of_nat (of_char c) :: byte) = b \<longleftrightarrow> c = char_of (unat b)"
  by (metis byte_of_char_of char_of_byte)

lemma u8_from_hex_nibbles:
  "u8_from_hex (word_of_nat (of_char (hex_upper (drop_bit 4 b))))
     (word_of_nat (of_char (hex_upper (b AND 0x0F)))) = Some b"
proof -
  have "hex_upper (drop_bit 4 b) \<noteq> CHR ''+''"
    using hex_upper_props(2) [OF nibble_bounds(1) [of b]] by blast
  moreover have "(0x2B :: byte) = word_of_nat (of_char (CHR ''+''))"
    by simp
  ultimately have "(word_of_nat (of_char (hex_upper (drop_bit 4 b))) :: byte) \<noteq> 0x2B"
    by (metis char_of_byte)
  then show ?thesis
    unfolding u8_from_hex_def Let_def char_of_byte hex_upper_props(1) [OF nibble_bounds(1)]
      hex_upper_props(1) [OF nibble_bounds(2)]
    by (simp add: nibbles_join flip: of_nat_add of_nat_mult)
qed

lemma decode_percent_byte:
  "percent_decode_bytes (bytes_of (percent_byte b) @ rest) = b # percent_decode_bytes rest"
proof (cases "unreserved b")
  case True
  with unreserved_chars [OF True] show ?thesis
    by (auto simp: percent_byte_def bytes_of_Cons char_of_unat_eq)
next
  case False
  then show ?thesis
    by (simp add: percent_byte_def bytes_of_Cons u8_from_hex_nibbles)
qed

lemma bytes_of_append: "bytes_of (s @ t) = bytes_of s @ bytes_of t"
  by (simp add: bytes_of_def)

lemma decode_percent_encode:
  "percent_decode_bytes (bytes_of (percent_encode bs)) = bs"
proof (induction bs)
  case Nil
  then show ?case
    by (simp add: percent_encode_def bytes_of_def)
next
  case (Cons b bs)
  then show ?case
    by (simp add: percent_encode_def bytes_of_append decode_percent_byte)
qed

lemma percent_roundtrip: "utf8_ok (bytes_of s) \<Longrightarrow> percent_decode (percent_encode (bytes_of s)) = s"
  by (simp add: percent_decode_def decode_percent_encode from_utf8_lossy_string)

lemma split_once_form_pair:
  "split_once (CHR ''='') (form_pair nv) =
     Some (percent_encode (bytes_of (fst nv)), percent_encode (bytes_of (snd nv)))"
  by (simp add: split_once_Some form_pair_def percent_encode_chars)

text \<open>
  C13 (round trip across components). What marshal sends as a form is what its own reader finds
  in it: the parser of \<open>form.rs\<close> applied to the encoder of \<open>encoding.rs\<close> returns exactly the
  given pairs, in order, whatever bytes names and values contain. In particular a secret that
  contains \<open>&\<close>, \<open>=\<close>, \<open>+\<close> or \<open>%\<close> cannot add, drop or rename a field. The hypothesis is Rust's
  own invariant that a \<open>&str\<close> is well-formed UTF-8.
\<close>

lemma form_roundtrip:
  assumes "\<forall>(n, v) \<in> set pairs. utf8_ok (bytes_of n) \<and> utf8_ok (bytes_of v)"
  shows "parse_pairs (form_urlencode pairs) = pairs"
proof (cases "pairs = []")
  case True
  then show ?thesis
    by (simp add: parse_pairs_def form_urlencode_def)
next
  case False
  have "form_pair nv \<noteq> []" for nv
    by (simp add: form_pair_def)
  then have "parse_pairs (form_urlencode pairs) =
      map (\<lambda>nv. (percent_decode (percent_encode (bytes_of (fst nv))),
                 percent_decode (percent_encode (bytes_of (snd nv))))) pairs"
    using False by (simp add: parse_pairs_def split_form_urlencode split_once_form_pair filter_True)
  also have "\<dots> = pairs"
    using assms by (intro map_idI) (auto simp: percent_roundtrip)
  finally show ?thesis .
qed

lemma percent_decode_examples:
  "percent_decode ''a%20b+c'' = ''a b c''"
  "percent_decode ''100%'' = ''100%''"
  "percent_decode ''%zz'' = ''%zz''"
  by code_simp+

text \<open>A plus sign is accepted as the first of the two hexadecimal digits.\<close>

lemma percent_decode_plus_digit: "percent_decode ''%+1'' = [CHR 0x01]"
  by code_simp

end
