(* ===== verification/Hosts.thy ===== *)
theory Hosts
  imports StdNet
begin

text \<open>
  \<open>crates/marshal-core/src/hosts.rs\<close>: host patterns of the allow and deny lists. A matcher
  holds the exact names, the bases of the \<open>*.\<close> patterns and the CIDR blocks, each in the order
  of the configuration; matching looks at CIDRs only for an IP literal and at names only
  otherwise. The locale \<open>host_matching\<close> is the contract the layers rely on.
\<close>

record 'net host_matcher =
  hm_exact :: "string list"
  hm_suffix :: "string list"
  hm_cidrs :: "'net list"

datatype match_kind = Exact string | Subdomain string | Cidr string

datatype pattern_error = BadCidr string | BadDomain string string

fun rule_of :: "match_kind \<Rightarrow> string" where
  "rule_of (Exact p) = p"
| "rule_of (Subdomain p) = ''*.'' @ p"
| "rule_of (Cidr p) = p"

definition normalise :: "string \<Rightarrow> string" where
  "normalise host = to_ascii_lowercase (trim_end_matches (CHR ''.'') (trim host))"

definition is_strict_subdomain :: "string \<Rightarrow> string \<Rightarrow> bool" where
  "is_strict_subdomain host base \<longleftrightarrow>
     length base < length host \<and> suffix base host
       \<and> host ! (length host - length base - 1) = CHR ''.''"

text \<open>The two loops of \<open>HostMatcher::new\<close>; the first bad pattern is the result.\<close>

fun new_domains ::
  "string list \<Rightarrow> 'net host_matcher \<Rightarrow> pattern_error + 'net host_matcher" where
  "new_domains [] m = Inr m"
| "new_domains (raw # ds) m =
     (let pattern = normalise raw in
      case strip_prefix ''*.'' pattern of
        Some rest \<Rightarrow>
          if rest = [] \<or> CHR ''*'' \<in> set rest
          then Inl (BadDomain raw ''`*.` must be followed by a literal domain'')
          else new_domains ds (m\<lparr>hm_suffix := hm_suffix m @ [rest]\<rparr>)
      | None \<Rightarrow>
          if CHR ''*'' \<in> set pattern
          then Inl (BadDomain raw ''`*` is only supported as a leading `*.` label'')
          else if pattern = [] then Inl (BadDomain raw ''empty pattern'')
          else new_domains ds (m\<lparr>hm_exact := hm_exact m @ [pattern]\<rparr>))"

fun new_cidrs ::
  "('net, 'x) ipnet_scheme \<Rightarrow> string list \<Rightarrow> 'net host_matcher
     \<Rightarrow> pattern_error + 'net host_matcher" where
  "new_cidrs net [] m = Inr m"
| "new_cidrs net (raw # cs) m =
     (case net_parse net raw of
        None \<Rightarrow> Inl (BadCidr raw)
      | Some n \<Rightarrow> new_cidrs net cs (m\<lparr>hm_cidrs := hm_cidrs m @ [n]\<rparr>))"

definition matcher_new ::
  "('net, 'x) ipnet_scheme \<Rightarrow> string list \<Rightarrow> string list \<Rightarrow> pattern_error + 'net host_matcher" where
  "matcher_new net domains cidrs =
    (case new_domains domains \<lparr>hm_exact = [], hm_suffix = [], hm_cidrs = []\<rparr> of
       Inl e \<Rightarrow> Inl e
     | Inr m \<Rightarrow> new_cidrs net cidrs m)"

definition matcher_is_empty :: "'net host_matcher \<Rightarrow> bool" where
  "matcher_is_empty m \<longleftrightarrow> hm_exact m = [] \<and> hm_suffix m = [] \<and> hm_cidrs m = []"

definition host_matches ::
  "('net, 'x) ipnet_scheme \<Rightarrow> 'net host_matcher \<Rightarrow> string \<Rightarrow> match_kind option" where
  "host_matches net m h =
    (let host = normalise h in
     case parse_ip host of
       Some ip \<Rightarrow>
         map_option (\<lambda>n. Cidr (net_show net n)) (find (\<lambda>n. net_contains net n ip) (hm_cidrs m))
     | None \<Rightarrow>
         (case find (\<lambda>p. p = host) (hm_exact m) of
            Some p \<Rightarrow> Some (Exact p)
          | None \<Rightarrow>
              map_option Subdomain (find (\<lambda>base. is_strict_subdomain host base) (hm_suffix m))))"

section \<open>Normalisation\<close>

lemma normalise_lower [host_simps]: "normalise (to_ascii_lowercase h) = normalise h"
  by (simp add: normalise_def trim_lower trim_end_matches_lower is_ascii_lower_def
      is_ascii_upper_def less_eq_char_def)

lemma normalise_case: "eq_ignore_ascii_case h k \<Longrightarrow> normalise h = normalise k"
  by (metis eq_ignore_ascii_case_def normalise_lower)

lemma lower_normalise [simp]: "to_ascii_lowercase (normalise h) = normalise h"
  by (simp add: normalise_def)

lemma strip_any_suffix: "suffix (strip_any ws s) s"
proof (induction ws s rule: strip_any.induct)
  case (1 ws s)
  show ?case
  proof (cases "find (\<lambda>w. w \<noteq> [] \<and> prefix w s) ws")
    case None
    then show ?thesis
      by (simp add: strip_any.simps [of ws s])
  next
    case (Some w)
    with "1.IH" [OF Some] show ?thesis
      by (simp add: strip_any.simps [of ws s] suffix_drop suffix_order.trans)
  qed
qed

lemma strip_any_fixed_iff:
  "strip_any ws s = s \<longleftrightarrow> (\<forall>w \<in> set ws. w \<noteq> [] \<longrightarrow> \<not> prefix w s)"
proof (cases "find (\<lambda>w. w \<noteq> [] \<and> prefix w s) ws")
  case None
  then have "strip_any ws s = s"
    by (subst strip_any.simps) simp
  moreover have "\<forall>w \<in> set ws. w \<noteq> [] \<longrightarrow> \<not> prefix w s"
    using None by (auto simp: find_None_iff)
  ultimately show ?thesis
    by blast
next
  case (Some w)
  then have w: "w \<in> set ws" "w \<noteq> []" "prefix w s"
    by (auto simp: find_Some_iff)
  have "length (strip_any ws (drop (length w) s)) \<le> length (drop (length w) s)"
    using strip_any_suffix by (rule suffix_length_le)
  also have "\<dots> < length s"
    using w by (cases s) auto
  finally have "strip_any ws s \<noteq> s"
    using Some by (auto simp: strip_any.simps [of ws s])
  with w show ?thesis
    by blast
qed

lemma trim_fixed:
  assumes "trim s = s"
  shows "trim_start s = s" and "trim_end s = s"
proof -
  have "length (trim s) \<le> length (trim_start s)"
    using strip_any_suffix [of "map rev white_space" "rev (trim_start s)"]
    by (auto simp: trim_def trim_end_def dest: suffix_length_le)
  moreover have "suffix (trim_start s) s"
    by (simp add: trim_start_def strip_any_suffix)
  ultimately show "trim_start s = s"
    using assms by (metis append_Nil le_antisym length_0_conv suffix_def suffix_length_le
        add_diff_cancel_right' diff_self_eq_0 length_append)
  with assms show "trim_end s = s"
    by (simp add: trim_def)
qed

lemma white_space_no_dot:
  "w \<in> set white_space \<Longrightarrow> CHR ''.'' \<notin> set w" "w \<in> set white_space \<Longrightarrow> w \<noteq> []"
  by (auto simp: white_space_def)

lemma trim_snoc_dot:
  assumes "trim s = s"
  shows "trim (s @ ''.'') = s @ ''.''"
proof -
  have "\<not> prefix w (s @ ''.'')" if "w \<in> set white_space" for w
    using trim_fixed(1) [OF assms] that white_space_no_dot [OF that]
    by (auto simp: trim_start_def strip_any_fixed_iff)
  then have "trim_start (s @ ''.'') = s @ ''.''"
    by (simp add: trim_start_def strip_any_fixed_iff)
  moreover have "\<not> prefix w (rev (s @ ''.''))" if "w \<in> set (map rev white_space)" for w
  proof -
    from that obtain v where v: "v \<in> set white_space" "w = rev v"
      by auto
    from white_space_no_dot [OF v(1)] v(2) have "w \<noteq> []" "CHR ''.'' \<notin> set w"
      by auto
    then show ?thesis
      by (cases w) auto
  qed
  then have "strip_any (map rev white_space) (rev (s @ ''.'')) = rev (s @ ''.'')"
    unfolding strip_any_fixed_iff by blast
  then have "trim_end (s @ ''.'') = s @ ''.''"
    unfolding trim_end_def by (simp only: rev_rev_ident)
  ultimately show ?thesis
    by (simp add: trim_def)
qed

lemma normalise_dot [host_simps]: "trim h = h \<Longrightarrow> normalise (h @ ''.'') = normalise h"
  by (simp add: normalise_def trim_snoc_dot)

section \<open>The contract the layers rely on\<close>

text \<open>
  A host matcher, as its clients see it, answers the same for every spelling of one host: it
  ignores ASCII case and trailing dots.
\<close>

locale host_matching =
  fixes matches :: "string \<Rightarrow> match_kind option"
  assumes matches_case: "eq_ignore_ascii_case h k \<Longrightarrow> matches h = matches k"
    and matches_dot: "trim h = h \<Longrightarrow> matches (h @ ''.'') = matches h"
begin

definition spelling :: "string \<Rightarrow> string \<Rightarrow> bool" where
  "spelling h k \<longleftrightarrow> trim h = h \<and> (\<exists>n. eq_ignore_ascii_case k (h @ replicate n (CHR ''.'')))"

lemma matches_dots: "trim h = h \<Longrightarrow> matches (h @ replicate n (CHR ''.'')) = matches h"
proof (induction n arbitrary: h)
  case (Suc n)
  then show ?case
    using Suc.IH [of "h @ ''.''"] by (simp add: trim_snoc_dot matches_dot)
qed simp

lemma matches_spelling: "spelling h k \<Longrightarrow> matches k = matches h"
  by (auto simp: spelling_def matches_dots dest: matches_case)

end

interpretation host: host_matching "host_matches net m" for net m
proof unfold_locales
  fix h k
  assume "eq_ignore_ascii_case h k"
  then show "host_matches net m h = host_matches net m k"
    by (simp add: host_matches_def normalise_case)
next
  fix h :: string
  assume "trim h = h"
  then show "host_matches net m (h @ ''.'') = host_matches net m h"
    by (simp add: host_matches_def normalise_dot)
qed

section \<open>What a matcher means\<close>

text \<open>
  The meaning of one configured domain pattern, stated on the raw pattern: a leading \<open>*.\<close>
  covers the hosts with something and a dot in front of the rest, any other pattern covers
  the host it spells.
\<close>

definition covers :: "string \<Rightarrow> string \<Rightarrow> bool" where
  "covers d h \<longleftrightarrow>
     (case strip_prefix ''*.'' (normalise d) of
        Some rest \<Rightarrow> (\<exists>l. normalise h = l @ ''.'' @ rest)
      | None \<Rightarrow> normalise h = normalise d)"

lemma is_strict_subdomain_iff: "is_strict_subdomain host base \<longleftrightarrow> (\<exists>l. host = l @ ''.'' @ base)"
proof
  assume h: "is_strict_subdomain host base"
  then obtain p where p: "host = p @ base" "p \<noteq> []" "host ! (length p - 1) = CHR ''.''"
    by (auto simp: is_strict_subdomain_def suffix_def)
  then have "p = butlast p @ ''.''"
    by (metis append_butlast_last_id diff_less last_conv_nth length_greater_0_conv
        nth_append zero_less_one)
  with p(1) have "host = butlast p @ ''.'' @ base"
    by (metis append.assoc)
  then show "\<exists>l. host = l @ ''.'' @ base" ..
next
  assume "\<exists>l. host = l @ ''.'' @ base"
  then obtain l where "host = l @ ''.'' @ base" ..
  then show "is_strict_subdomain host base"
    by (simp add: is_strict_subdomain_def nth_append suffix_def)
qed

definition name_hit :: "'net host_matcher \<Rightarrow> string \<Rightarrow> bool" where
  "name_hit m host \<longleftrightarrow> host \<in> set (hm_exact m) \<or> (\<exists>b \<in> set (hm_suffix m). is_strict_subdomain host b)"

lemma name_hit_simps [simp]:
  "name_hit (m\<lparr>hm_suffix := hm_suffix m @ [b]\<rparr>) h \<longleftrightarrow> name_hit m h \<or> is_strict_subdomain h b"
  "name_hit (m\<lparr>hm_exact := hm_exact m @ [p]\<rparr>) h \<longleftrightarrow> name_hit m h \<or> h = p"
  "name_hit (m\<lparr>hm_cidrs := cs\<rparr>) h \<longleftrightarrow> name_hit m h"
  by (auto simp: name_hit_def)

lemma new_domains_name_hit:
  "new_domains ds m = Inr m' \<Longrightarrow>
     name_hit m' (normalise h) \<longleftrightarrow> name_hit m (normalise h) \<or> (\<exists>d \<in> set ds. covers d h)"
proof (induction ds arbitrary: m)
  case (Cons d ds)
  show ?case
  proof (cases "strip_prefix ''*.'' (normalise d)")
    case None
    with Cons show ?thesis
      by (auto simp: covers_def Let_def split: if_splits)
  next
    case (Some rest)
    with Cons show ?thesis
      by (auto simp: covers_def Let_def is_strict_subdomain_iff split: if_splits)
  qed
qed simp

lemma new_domains_cidrs: "new_domains ds m = Inr m' \<Longrightarrow> hm_cidrs m' = hm_cidrs m"
  by (induction ds arbitrary: m) (auto simp: Let_def split: if_splits option.splits)

lemma new_cidrs_name_hit: "new_cidrs net cs m = Inr m' \<Longrightarrow> name_hit m' h = name_hit m h"
  by (induction cs arbitrary: m) (auto split: option.splits)

lemma new_cidrs_cidrs:
  "new_cidrs net cs m = Inr m' \<Longrightarrow> set (hm_cidrs m') = set (hm_cidrs m) \<union> {n. \<exists>c \<in> set cs. net_parse net c = Some n}"
  by (induction cs arbitrary: m) (auto split: option.splits)

lemma matches_name_hit:
  "parse_ip (normalise h) = None \<Longrightarrow> host_matches net m h \<noteq> None \<longleftrightarrow> name_hit m (normalise h)"
proof -
  assume "parse_ip (normalise h) = None"
  then have "host_matches net m h \<noteq> None \<longleftrightarrow>
      find (\<lambda>p. p = normalise h) (hm_exact m) \<noteq> None
        \<or> find (\<lambda>b. is_strict_subdomain (normalise h) b) (hm_suffix m) \<noteq> None"
    by (auto simp: host_matches_def Let_def split: option.split)
  then show ?thesis
    unfolding find_ne_None by (auto simp: name_hit_def)
qed

lemma matches_ip:
  "parse_ip (normalise h) = Some ip \<Longrightarrow>
     host_matches net m h \<noteq> None \<longleftrightarrow> (\<exists>n \<in> set (hm_cidrs m). net_contains net n ip)"
  by (auto simp: host_matches_def find_None_iff split: option.splits)

lemma name_hit_empty [simp]: "\<not> name_hit \<lparr>hm_exact = [], hm_suffix = [], hm_cidrs = []\<rparr> h"
  by (simp add: name_hit_def)

text \<open>The meaning of a compiled matcher, for the components that compile one.\<close>

lemma matcher_new_matches:
  assumes "matcher_new net ds cs = Inr m"
  shows "host_matches net m h \<noteq> None \<longleftrightarrow>
     (case parse_ip (normalise h) of
        Some ip \<Rightarrow> \<exists>c \<in> set cs. \<exists>n. net_parse net c = Some n \<and> net_contains net n ip
      | None \<Rightarrow> \<exists>d \<in> set ds. covers d h)"
proof -
  obtain m1 where m1: "new_domains ds \<lparr>hm_exact = [], hm_suffix = [], hm_cidrs = []\<rparr> = Inr m1"
      "new_cidrs net cs m1 = Inr m"
    using assms by (auto simp: matcher_new_def split: sum.splits)
  show ?thesis
  proof (cases "parse_ip (normalise h)")
    case None
    then show ?thesis
      using new_domains_name_hit [OF m1(1), of h] new_cidrs_name_hit [OF m1(2), of "normalise h"]
        matches_name_hit [OF None, of net m]
      by simp
  next
    case (Some ip)
    then show ?thesis
      using new_domains_cidrs [OF m1(1)] new_cidrs_cidrs [OF m1(2)] matches_ip [OF Some, of net m]
      by auto
  qed
qed

text \<open>
  C25 (functional). A compiled matcher means what its configuration says. A host that is an IP
  literal matches exactly when one of the configured CIDRs contains it, whatever domain
  patterns are configured; any other host matches exactly when one of the domain patterns
  covers it, whatever CIDRs are. The compiled lists, their order and the byte comparisons of
  \<open>is_strict_subdomain\<close> are thereby irrelevant to whether there is a match.
\<close>

theorem host_matcher_correct:
  assumes "matcher_new net ds cs = Inr m"
  shows "host_matches net m h \<noteq> None \<longleftrightarrow>
     (case parse_ip (normalise h) of
        Some ip \<Rightarrow> \<exists>c \<in> set cs. \<exists>n. net_parse net c = Some n \<and> net_contains net n ip
      | None \<Rightarrow> \<exists>d \<in> set ds. covers d h)"
  using assms by (rule matcher_new_matches)

text \<open>A concrete instance of the CIDR parameter: IPv4 prefixes of whole octets.\<close>

fun octets_contain :: "byte list \<Rightarrow> ip_addr \<Rightarrow> bool" where
  "octets_contain p (V4 a b c d) = prefix p [a, b, c, d]"
| "octets_contain p (V6 _ _ _ _ _ _ _ _) = False"

definition octet_nets :: "byte list ipnet" where
  "octet_nets =
     \<lparr>net_parse = (\<lambda>s. if s = ''10.0.0.0/8'' then Some [10]
                       else if s = ''169.254.0.0/16'' then Some [169, 254]
                       else if s = ''127.0.0.0/8'' then Some [127] else None),
      net_contains = octets_contain,
      net_show = (\<lambda>p. join ''.'' (map (\<lambda>b. show_nat (unat b)) p))\<rparr>"

theorem host_matcher_correct_witness:
  "\<exists>m. matcher_new octet_nets [''*.Example.com'', ''api.test''] [''10.0.0.0/8''] = Inr m \<and>
     (host_matches octet_nets m ''A.B.example.COM.'' \<noteq> None \<longleftrightarrow>
       (case parse_ip (normalise ''A.B.example.COM.'') of
          Some ip \<Rightarrow> \<exists>c \<in> set [''10.0.0.0/8'']. \<exists>n. net_parse octet_nets c = Some n
                      \<and> net_contains octet_nets n ip
        | None \<Rightarrow> \<exists>d \<in> set [''*.Example.com'', ''api.test'']. covers d ''A.B.example.COM.''))"
proof -
  have "matcher_new octet_nets [''*.Example.com'', ''api.test''] [''10.0.0.0/8''] =
      Inr \<lparr>hm_exact = [''api.test''], hm_suffix = [''example.com''], hm_cidrs = [[10]]\<rparr>"
    by code_simp
  then show ?thesis
    using host_matcher_correct by blast
qed

text \<open>
  One host, one answer: upper or lower case and any number of trailing dots
  make no difference to what a matcher answers, so no spelling of a denied host escapes the
  denylist and none of an allowed host is refused.
\<close>

lemma host_spelling_irrelevant:
  assumes "trim h = h"
    and "eq_ignore_ascii_case k (h @ replicate n (CHR ''.''))"
  shows "host_matches net m k = host_matches net m h"
  using assms by (intro host.matches_spelling) (auto simp: host.spelling_def)

text \<open>
  Lookalike names do not match a wildcard: the matched host ends in a dot and the
  base, so neither the bare base, nor a longer last label, nor the base in front of another
  domain, is ever attributed to \<open>*.base\<close>; and an exact match is the same name.
\<close>

lemma match_attribution:
  assumes "host_matches net m h = Some k"
  shows "case k of
      Exact p \<Rightarrow> p \<in> set (hm_exact m) \<and> normalise h = p
    | Subdomain b \<Rightarrow> b \<in> set (hm_suffix m) \<and> normalise h \<noteq> b
        \<and> (\<exists>l. normalise h = l @ ''.'' @ b)
    | Cidr c \<Rightarrow> \<exists>n \<in> set (hm_cidrs m). \<exists>ip. parse_ip (normalise h) = Some ip
        \<and> net_contains net n ip \<and> c = net_show net n"
  using assms
  by (auto simp: host_matches_def Let_def find_Some_iff is_strict_subdomain_iff
      split: option.splits match_kind.splits intro: nth_mem)

text \<open>
  An IP literal listed as a domain pattern is dead configuration: it compiles, and no host
  ever matches it.
\<close>

lemma ip_literal_domain_never_matches:
  assumes "matcher_new net [d] [] = Inr m" and "parse_ip (normalise d) \<noteq> None"
    and "\<not> prefix ''*.'' (normalise d)"
  shows "host_matches net m h = None"
proof -
  have "covers d h \<longleftrightarrow> normalise h = normalise d"
    using assms(3) by (simp add: covers_def strip_prefix_def)
  with matcher_new_matches [OF assms(1), of h] assms(2) show ?thesis
    by (auto split: option.splits)
qed

lemma ip_literal_domain_example:
  "matcher_new octet_nets [''169.254.169.254''] [] =
     Inr \<lparr>hm_exact = [''169.254.169.254''], hm_suffix = [], hm_cidrs = []\<rparr>"
  "host_matches octet_nets \<lparr>hm_exact = [''169.254.169.254''], hm_suffix = [], hm_cidrs = []\<rparr>
     ''169.254.169.254'' = None"
  by code_simp+

end
