(* ===== verification/Http.thy ===== *)
theory Http
  imports Prelude
begin

text \<open>
  The data of the crate \<open>http\<close> that a request context carries, as far as the sources look at
  it. A \<open>HeaderName\<close> is its lower-case spelling; a \<open>HeaderMap\<close> is a list of distinct names,
  each with its values in order. The map's iteration order is unspecified by the crate and no
  property below depends on it. A \<open>Uri\<close> is its path and optional query.
\<close>

type_synonym headers = "(string \<times> string list) list"

record uri =
  uri_path :: string
  uri_query :: "string option"

definition hdr_keys :: "headers \<Rightarrow> string list" where
  "hdr_keys h = map fst h"

definition hdr_get_all :: "headers \<Rightarrow> string \<Rightarrow> string list" where
  "hdr_get_all h n = (case map_of h n of None \<Rightarrow> [] | Some vs \<Rightarrow> vs)"

definition hdr_get :: "headers \<Rightarrow> string \<Rightarrow> string option" where
  "hdr_get h n = (case hdr_get_all h n of [] \<Rightarrow> None | v # _ \<Rightarrow> Some v)"

definition hdr_remove :: "string \<Rightarrow> headers \<Rightarrow> headers" where
  "hdr_remove n h = filter (\<lambda>(k, _). k \<noteq> n) h"

fun hdr_insert :: "string \<Rightarrow> string \<Rightarrow> headers \<Rightarrow> headers" where
  "hdr_insert n v [] = [(n, [v])]"
| "hdr_insert n v ((k, vs) # h) = (if k = n then (n, [v]) # h else (k, vs) # hdr_insert n v h)"

definition hdr_pairs :: "headers \<Rightarrow> (string \<times> string) list" where
  "hdr_pairs h = concat (map (\<lambda>(n, vs). map (Pair n) vs) h)"

text \<open>\<open>HeaderValue::to_str\<close>: only visible ASCII and the tab.\<close>

definition visible_ascii :: "char \<Rightarrow> bool" where
  "visible_ascii c \<longleftrightarrow> (let n = (of_char c :: nat) in (32 \<le> n \<and> n < 127) \<or> n = 9)"

definition value_to_str :: "string \<Rightarrow> string option" where
  "value_to_str v = (if \<forall>c \<in> set v. visible_ascii c then Some v else None)"

definition hdr_wf :: "headers \<Rightarrow> bool" where
  "hdr_wf h \<longleftrightarrow> distinct (map fst h) \<and> (\<forall>(n, vs) \<in> set h. vs \<noteq> [] \<and> to_ascii_lowercase n = n)"

lemma hdr_get_all_insert [simp]:
  "hdr_get_all (hdr_insert n v h) k = (if k = n then [v] else hdr_get_all h k)"
  by (induction n v h rule: hdr_insert.induct) (auto simp: hdr_get_all_def)

lemma hdr_get_all_remove [simp]:
  "hdr_get_all (hdr_remove n h) k = (if k = n then [] else hdr_get_all h k)"
  by (induction h) (auto simp: hdr_get_all_def hdr_remove_def)

lemma hdr_get_insert [simp]:
  "hdr_get (hdr_insert n v h) k = (if k = n then Some v else hdr_get h k)"
  by (simp add: hdr_get_def)

lemma hdr_get_remove [simp]:
  "hdr_get (hdr_remove n h) k = (if k = n then None else hdr_get h k)"
  by (simp add: hdr_get_def)

lemma hdr_keys_remove [simp]: "hdr_keys (hdr_remove n h) = filter (\<lambda>k. k \<noteq> n) (hdr_keys h)"
  by (induction h) (auto simp: hdr_keys_def hdr_remove_def)

lemma set_hdr_keys_insert [simp]: "set (hdr_keys (hdr_insert n v h)) = insert n (set (hdr_keys h))"
  by (induction n v h rule: hdr_insert.induct) (auto simp: hdr_keys_def)

lemma hdr_wf_remove: "hdr_wf h \<Longrightarrow> hdr_wf (hdr_remove n h)"
  by (auto simp: hdr_wf_def hdr_remove_def distinct_map_filter)

lemma hdr_insert_keys:
  "map fst (hdr_insert n v h) = (if n \<in> set (map fst h) then map fst h else map fst h @ [n])"
  by (induction n v h rule: hdr_insert.induct) auto

lemma hdr_insert_entries: "(k, vs) \<in> set (hdr_insert n v h) \<Longrightarrow> (k, vs) = (n, [v]) \<or> (k, vs) \<in> set h"
  by (induction n v h rule: hdr_insert.induct) (auto split: if_splits)

lemma hdr_wf_insert: "hdr_wf h \<Longrightarrow> to_ascii_lowercase n = n \<Longrightarrow> hdr_wf (hdr_insert n v h)"
  by (auto simp: hdr_wf_def hdr_insert_keys dest!: hdr_insert_entries)

end
