(* ===== verification/Core.thy ===== *)
theory Core
  imports Http Json StdNet
begin

text \<open>
  The vocabulary of \<open>crates/marshal-core/src\<close>: \<open>error.rs\<close>, \<open>evidence.rs\<close>, \<open>verdict.rs\<close>,
  \<open>request.rs\<close>, \<open>identity.rs\<close> and the declarations of \<open>policy.rs\<close>. Evidence is append-only:
  the order \<open>ev_le\<close> says what that means, and the collection \<open>evidence_mono\<close> holds one lemma
  per operation.
\<close>

section \<open>Errors\<close>

datatype core_error =
    EConfig string
  | ELayer string string
  | ELayerTimeout string nat
  | EUpstreamGuard string
  | EBodyTooLarge nat
  | EIo string
  | EOther string

fun show_error :: "core_error \<Rightarrow> string" where
  "show_error (EConfig m) = ''configuration error: '' @ m"
| "show_error (ELayer l src) = ''policy layer '' @ l @ '' failed: '' @ src"
| "show_error (ELayerTimeout l ms) =
     ''layer '' @ l @ '' timed out after '' @ show_nat ms @ ''ms''"
| "show_error (EUpstreamGuard m) = ''upstream connection refused by guard: '' @ m"
| "show_error (EBodyTooLarge cap) =
     ''body exceeded the configured cap of '' @ show_nat cap @ '' bytes''"
| "show_error (EIo m) = m"
| "show_error (EOther m) = m"

section \<open>Evidence\<close>

record layer_outcome =
  lo_layer :: string
  lo_verdict :: string
  lo_duration_us :: nat
  lo_detail :: "string option"
  lo_cached :: bool

record evidence =
  facts :: "string \<rightharpoonup> json"
  flags :: "string set"
  trail :: "layer_outcome list"

definition ev_new :: evidence where
  "ev_new = \<lparr>facts = Map.empty, flags = {}, trail = []\<rparr>"

definition ev_record :: "string \<Rightarrow> json \<Rightarrow> evidence \<Rightarrow> bool \<times> evidence" where
  "ev_record key value ev =
    (case facts ev key of
       None \<Rightarrow> (True, ev\<lparr>facts := (facts ev)(key \<mapsto> value)\<rparr>)
     | Some _ \<Rightarrow> (False, ev))"

abbreviation record_ev :: "string \<Rightarrow> json \<Rightarrow> evidence \<Rightarrow> evidence" where
  "record_ev key value ev \<equiv> snd (ev_record key value ev)"

definition ev_flag :: "string \<Rightarrow> evidence \<Rightarrow> evidence" where
  "ev_flag f ev = ev\<lparr>flags := insert f (flags ev)\<rparr>"

definition has_flag :: "evidence \<Rightarrow> string \<Rightarrow> bool" where
  "has_flag ev f \<longleftrightarrow> f \<in> flags ev"

definition ev_fact :: "evidence \<Rightarrow> string \<Rightarrow> json option" where
  "ev_fact ev key = facts ev key"

definition push_outcome :: "layer_outcome \<Rightarrow> evidence \<Rightarrow> evidence" where
  "push_outcome o1 ev = ev\<lparr>trail := trail ev @ [o1]\<rparr>"

definition absorb :: "evidence \<Rightarrow> evidence \<Rightarrow> evidence" where
  "absorb self other =
     \<lparr>facts = facts other ++ facts self,
      flags = flags self \<union> flags other,
      trail = trail self @ trail other\<rparr>"

text \<open>The append-only order.\<close>

definition ev_le :: "evidence \<Rightarrow> evidence \<Rightarrow> bool" where
  "ev_le a b \<longleftrightarrow> facts a \<subseteq>\<^sub>m facts b \<and> flags a \<subseteq> flags b \<and> prefix (trail a) (trail b)"

lemma ev_le_refl [simp, intro]: "ev_le a a"
  by (simp add: ev_le_def)

lemma ev_le_trans [trans]: "ev_le a b \<Longrightarrow> ev_le b c \<Longrightarrow> ev_le a c"
  by (auto simp: ev_le_def intro: map_le_trans)

lemma ev_le_antisym: "ev_le a b \<Longrightarrow> ev_le b a \<Longrightarrow> a = b"
  by (auto simp: ev_le_def intro: map_le_antisym evidence.equality)

lemma ev_le_fact: "ev_le a b \<Longrightarrow> facts a k = Some v \<Longrightarrow> facts b k = Some v"
  by (auto simp: ev_le_def map_le_def dom_def)

lemma ev_le_record [evidence_mono]: "ev_le a (record_ev k v a)"
  by (auto simp: ev_le_def ev_record_def map_le_def split: option.splits)

lemma ev_le_flag [evidence_mono]: "ev_le a (ev_flag f a)"
  by (auto simp: ev_le_def ev_flag_def)

lemma ev_le_push [evidence_mono]: "ev_le a (push_outcome o1 a)"
  by (simp add: ev_le_def push_outcome_def)

lemma ev_le_absorb [evidence_mono]: "ev_le a (absorb a b)"
  by (auto simp: ev_le_def absorb_def map_le_def map_add_def)

lemma ev_le_record_trans [evidence_mono]: "ev_le a b \<Longrightarrow> ev_le a (record_ev k v b)"
  by (rule ev_le_trans [OF _ ev_le_record])

lemma ev_le_flag_trans [evidence_mono]: "ev_le a b \<Longrightarrow> ev_le a (ev_flag f b)"
  by (rule ev_le_trans [OF _ ev_le_flag])

lemma ev_le_push_trans [evidence_mono]: "ev_le a b \<Longrightarrow> ev_le a (push_outcome o1 b)"
  by (rule ev_le_trans [OF _ ev_le_push])

lemma ev_le_flags_fold [evidence_mono]: "ev_le a b \<Longrightarrow> ev_le a (fold ev_flag fs b)"
  by (induction fs arbitrary: b) (auto intro: evidence_mono)

lemma trail_record [simp]: "trail (record_ev k v ev) = trail ev"
  by (simp add: ev_record_def split: option.splits)

lemma trail_flag [simp]: "trail (ev_flag f ev) = trail ev"
  by (simp add: ev_flag_def)

lemma trail_push [simp]: "trail (push_outcome o1 ev) = trail ev @ [o1]"
  by (simp add: push_outcome_def)

lemma trail_flags_fold [simp]: "trail (fold ev_flag fs ev) = trail ev"
  by (induction fs arbitrary: ev) simp_all

lemma flags_fold [simp]: "flags (fold ev_flag fs ev) = flags ev \<union> set fs"
  by (induction fs arbitrary: ev) (auto simp: ev_flag_def)

lemma facts_flag [simp]: "facts (ev_flag f ev) = facts ev"
  by (simp add: ev_flag_def)

lemma facts_push [simp]: "facts (push_outcome o1 ev) = facts ev"
  by (simp add: push_outcome_def)

lemma facts_record: "facts (record_ev k v ev) = (case facts ev k of None \<Rightarrow> (facts ev)(k \<mapsto> v) | Some _ \<Rightarrow> facts ev)"
  by (simp add: ev_record_def split: option.splits)

section \<open>Verdicts\<close>

datatype decision = DecDeny | DecAllow

datatype action = ActAllow | ActDeny

record reason =
  r_layer :: string
  r_code :: string
  r_message :: string
  r_rule :: "string option"
  r_cached :: bool

definition reason_new :: "string \<Rightarrow> string \<Rightarrow> string \<Rightarrow> reason" where
  "reason_new layer code message =
     \<lparr>r_layer = layer, r_code = code, r_message = message, r_rule = None, r_cached = False\<rparr>"

definition with_rule :: "string \<Rightarrow> reason \<Rightarrow> reason" where
  "with_rule rule r = r\<lparr>r_rule := Some rule\<rparr>"

definition reason_cached :: "reason \<Rightarrow> reason" where
  "reason_cached r = r\<lparr>r_cached := True\<rparr>"

record approval_request =
  ar_layer :: string
  ar_summary :: string
  ar_evidence :: evidence

datatype verdict = Allow reason | Deny reason | Pass evidence | Defer approval_request

fun is_terminal :: "verdict \<Rightarrow> bool" where
  "is_terminal (Pass _) = False"
| "is_terminal _ = True"

section \<open>Requests\<close>

datatype ingress_mode = Explicit | Dns

datatype phase = Connect | Request

record authority =
  auth_host :: string
  auth_port :: u16

definition show_authority :: "authority \<Rightarrow> string" where
  "show_authority a = auth_host a @ '':'' @ show_nat (unat (auth_port a))"

datatype body_handle =
    Empty
  | Buffered "byte list"
  | OverLimit "byte list" nat nat
  | Streaming

fun as_bytes :: "body_handle \<Rightarrow> byte list option" where
  "as_bytes (Buffered b) = Some b"
| "as_bytes _ = None"

record llm_route =
  lr_client_dialect :: string
  lr_origin_dialect :: string
  lr_from_model :: string
  lr_to_model :: string
  lr_to_host :: string

record request_context =
  rc_identity :: string
  rc_profile :: string
  rc_ingress :: ingress_mode
  rc_phase :: phase
  rc_client_addr :: socket_addr
  rc_authority :: authority
  rc_method :: string
  rc_uri :: uri
  rc_headers :: headers
  rc_body :: body_handle
  rc_evidence :: evidence
  rc_llm_route :: "llm_route option"

record response_parts =
  rp_status :: nat
  rp_headers :: headers
  rp_body :: body_handle

section \<open>Declarations of the policy traits\<close>

datatype cost_class = Trivial | Cheap | Moderate | Expensive

fun cost_rank :: "cost_class \<Rightarrow> nat" where
  "cost_rank Trivial = 0"
| "cost_rank Cheap = 1"
| "cost_rank Moderate = 2"
| "cost_rank Expensive = 3"

lemma cost_rank_inject: "cost_rank a = cost_rank b \<longleftrightarrow> a = b"
  by (cases a; cases b) simp_all

text \<open>The derived \<open>Ord\<close> of \<open>CostClass\<close>: the order of the declarations.\<close>

instantiation cost_class :: linorder
begin

definition less_eq_cost_class :: "cost_class \<Rightarrow> cost_class \<Rightarrow> bool" where
  "less_eq_cost_class a b \<longleftrightarrow> cost_rank a \<le> cost_rank b"

definition less_cost_class :: "cost_class \<Rightarrow> cost_class \<Rightarrow> bool" where
  "less_cost_class a b \<longleftrightarrow> cost_rank a < cost_rank b"

instance
  by standard (auto simp: less_eq_cost_class_def less_cost_class_def cost_rank_inject)

end

datatype failure_mode = FailDeny | FailPass | FailAllow

datatype body_requirement = StreamBody | BufferBody nat

fun br_buffers :: "body_requirement \<Rightarrow> bool" where
  "br_buffers StreamBody = False"
| "br_buffers (BufferBody _) = True"

fun br_combine :: "body_requirement \<Rightarrow> body_requirement \<Rightarrow> body_requirement" where
  "br_combine StreamBody StreamBody = StreamBody"
| "br_combine (BufferBody cap) StreamBody = BufferBody cap"
| "br_combine StreamBody (BufferBody cap) = BufferBody cap"
| "br_combine (BufferBody a) (BufferBody b) = BufferBody (max a b)"

fun br_rank :: "body_requirement \<Rightarrow> nat" where
  "br_rank StreamBody = 0"
| "br_rank (BufferBody cap) = Suc cap"

lemma br_rank_inject: "br_rank a = br_rank b \<longleftrightarrow> a = b"
  by (cases a; cases b) simp_all

text \<open>
  How much of a body a requirement asks for is a linear order, and \<open>combine\<close> is its maximum:
  nobody who declared a cap is given less than it asked for.
\<close>

instantiation body_requirement :: linorder
begin

definition less_eq_body_requirement :: "body_requirement \<Rightarrow> body_requirement \<Rightarrow> bool" where
  "less_eq_body_requirement a b \<longleftrightarrow> br_rank a \<le> br_rank b"

definition less_body_requirement :: "body_requirement \<Rightarrow> body_requirement \<Rightarrow> bool" where
  "less_body_requirement a b \<longleftrightarrow> br_rank a < br_rank b"

instance
  by standard (auto simp: less_eq_body_requirement_def less_body_requirement_def br_rank_inject)

end

lemma br_combine_max: "br_combine a b = max a b"
  by (cases a; cases b) (auto simp: max_def less_eq_body_requirement_def)

lemma StreamBody_least [simp]: "StreamBody \<le> b"
  by (simp add: less_eq_body_requirement_def)

lemma fold_combine_upper:
  "acc \<le> fold (\<lambda>r acc. br_combine acc r) rs acc"
  "r \<in> set rs \<Longrightarrow> r \<le> fold (\<lambda>r acc. br_combine acc r) rs acc"
proof (induction rs arbitrary: acc)
  case (Cons a rs)
  {
    case 1
    show ?case
      using Cons.IH(1) [of "br_combine acc a"] by (simp add: br_combine_max)
  next
    case 2
    then show ?case
      using Cons.IH(1) [of "br_combine acc a"] Cons.IH(2) [of "br_combine acc a"]
      by (auto simp: br_combine_max)
  }
qed simp_all

end
