(* ===== verification/Chain.thy ===== *)
theory Chain
  imports Core
begin

text \<open>
  \<open>crates/marshal-policy/src/chain.rs\<close>: the policy chain runner. A layer evaluates a request
  against the evidence gathered so far and may change the state \<open>'s\<close> of the process (the
  judge's cache and breaker), which the runner threads from layer to layer. The runner is the
  recursion \<open>run_layers\<close> over the remaining layers, with the source's early returns as
  results. The measured durations come from a clock parameter.
\<close>

record 's layer =
  ly_name :: string
  ly_cost :: cost_class
  ly_needs_request :: bool
  ly_body_requirement :: body_requirement
  ly_on_error :: failure_mode
  ly_eval :: "request_context \<Rightarrow> evidence \<Rightarrow> 's \<Rightarrow> (core_error + verdict) \<times> 's"

record outcome =
  oc_action :: action
  oc_reason :: reason
  oc_evidence :: evidence
  oc_would_deny :: bool

record 's chain =
  ch_profile :: string
  ch_layers :: "'s layer list"
  ch_default_action :: decision
  ch_decider :: "request_context \<Rightarrow> approval_request \<Rightarrow> verdict"
  ch_warn_only :: bool

definition denying_decider :: "request_context \<Rightarrow> approval_request \<Rightarrow> verdict" where
  "denying_decider cx req =
     Deny (reason_new (ar_layer req) ''approval_unavailable''
       ''request was deferred for approval but no approval channel is configured'')"

definition chain_new ::
  "string \<Rightarrow> 's layer list \<Rightarrow> decision \<Rightarrow> (request_context \<Rightarrow> approval_request \<Rightarrow> verdict)
     \<Rightarrow> 's chain" where
  "chain_new profile layers default_action decider =
     \<lparr>ch_profile = profile, ch_layers = layers, ch_default_action = default_action,
      ch_decider = decider, ch_warn_only = False\<rparr>"

definition warn_only :: "bool \<Rightarrow> 's chain \<Rightarrow> 's chain" where
  "warn_only w ch = ch\<lparr>ch_warn_only := w\<rparr>"

definition layer_names :: "'s chain \<Rightarrow> string list" where
  "layer_names ch = map ly_name (ch_layers ch)"

definition request_only_layers :: "'s chain \<Rightarrow> string list" where
  "request_only_layers ch = map ly_name (filter ly_needs_request (ch_layers ch))"

definition chain_body_requirement :: "'s chain \<Rightarrow> body_requirement" where
  "chain_body_requirement ch =
     fold (\<lambda>r acc. br_combine acc r) (map ly_body_requirement (ch_layers ch)) StreamBody"

definition terminate :: "'s chain \<Rightarrow> action \<Rightarrow> reason \<Rightarrow> evidence \<Rightarrow> outcome" where
  "terminate ch act r ev =
     (if act = ActDeny \<and> ch_warn_only ch
      then \<lparr>oc_action = ActAllow, oc_reason = r, oc_evidence = ev, oc_would_deny = True\<rparr>
      else \<lparr>oc_action = act, oc_reason = r, oc_evidence = ev, oc_would_deny = False\<rparr>)"

definition outcome_of :: "string \<Rightarrow> string \<Rightarrow> nat \<Rightarrow> reason \<Rightarrow> layer_outcome" where
  "outcome_of layer verdict duration_us r =
     \<lparr>lo_layer = layer, lo_verdict = verdict, lo_duration_us = duration_us,
      lo_detail = Some (r_code r), lo_cached = r_cached r\<rparr>"

definition plain_outcome :: "string \<Rightarrow> string \<Rightarrow> nat \<Rightarrow> string option \<Rightarrow> layer_outcome" where
  "plain_outcome layer verdict duration_us detail =
     \<lparr>lo_layer = layer, lo_verdict = verdict, lo_duration_us = duration_us,
      lo_detail = detail, lo_cached = False\<rparr>"

definition by_default :: "'s chain \<Rightarrow> evidence \<Rightarrow> outcome" where
  "by_default ch ev =
    (case ch_default_action ch of
       DecDeny \<Rightarrow>
         terminate ch ActDeny
           (reason_new ''default_action'' ''default_deny''
             (''no policy layer in profile `'' @ ch_profile ch
               @ ''` permitted this request, and the profile defaults to deny'')) ev
     | DecAllow \<Rightarrow>
         terminate ch ActAllow
           (reason_new ''default_action'' ''default_allow''
             (''profile `'' @ ch_profile ch @ ''` defaults to allow'')) ev)"

definition by_decider :: "'s chain \<Rightarrow> request_context \<Rightarrow> 's layer \<Rightarrow> approval_request \<Rightarrow> evidence \<Rightarrow> outcome" where
  "by_decider ch cx ly req ev =
    (case ch_decider ch cx req of
       Allow r \<Rightarrow> terminate ch ActAllow r ev
     | Deny r \<Rightarrow> terminate ch ActDeny r ev
     | _ \<Rightarrow> terminate ch ActDeny
              (reason_new (ly_name ly) ''approval_indeterminate''
                ''the approval decider returned no terminal verdict'') ev)"

definition skipped :: "request_context \<Rightarrow> 's layer \<Rightarrow> bool" where
  "skipped cx ly \<longleftrightarrow> ly_needs_request ly \<and> rc_phase cx = Connect"

fun run_layers ::
  "(string \<Rightarrow> nat) \<Rightarrow> 's chain \<Rightarrow> request_context \<Rightarrow> 's layer list \<Rightarrow> evidence \<Rightarrow> 's
     \<Rightarrow> outcome \<times> 's" where
  "run_layers us ch cx [] ev s = (by_default ch ev, s)"
| "run_layers us ch cx (ly # rest) ev s =
    (if skipped cx ly then run_layers us ch cx rest ev s
     else case ly_eval ly cx ev s of
       (Inl e, s') \<Rightarrow>
         (let ev' = push_outcome (plain_outcome (ly_name ly) ''error'' (us (ly_name ly))
                      (Some (show_error e))) ev
          in case ly_on_error ly of
            FailDeny \<Rightarrow>
              (terminate ch ActDeny (reason_new (ly_name ly) ''layer_error''
                 (ly_name ly @ '' failed and its failure mode is deny'')) ev', s')
          | FailAllow \<Rightarrow>
              (terminate ch ActAllow (reason_new (ly_name ly) ''layer_error''
                 (ly_name ly @ '' failed and its failure mode is allow'')) ev', s')
          | FailPass \<Rightarrow> run_layers us ch cx rest ev' s')
     | (Inr v, s') \<Rightarrow>
         (case v of
            Allow r \<Rightarrow>
              (terminate ch ActAllow r
                 (push_outcome (outcome_of (ly_name ly) ''allow'' (us (ly_name ly)) r) ev), s')
          | Deny r \<Rightarrow>
              (terminate ch ActDeny r
                 (push_outcome (outcome_of (ly_name ly) ''deny'' (us (ly_name ly)) r) ev), s')
          | Pass next \<Rightarrow>
              run_layers us ch cx rest
                (push_outcome (plain_outcome (ly_name ly) ''pass'' (us (ly_name ly)) None) next) s'
          | Defer req \<Rightarrow>
              (by_decider ch cx ly req
                 (push_outcome (plain_outcome (ly_name ly) ''defer'' (us (ly_name ly))
                   (Some (ar_summary req))) ev), s')))"

definition chain_evaluate ::
  "(string \<Rightarrow> nat) \<Rightarrow> 's chain \<Rightarrow> request_context \<Rightarrow> 's \<Rightarrow> outcome \<times> 's" where
  "chain_evaluate us ch cx s = run_layers us ch cx (ch_layers ch) (rc_evidence cx) s"

section \<open>Terminating verdicts\<close>

lemma terminate_simps [simp]:
  "oc_reason (terminate ch a r ev) = r"
  "oc_evidence (terminate ch a r ev) = ev"
  "oc_would_deny (terminate ch a r ev) \<longleftrightarrow> a = ActDeny \<and> ch_warn_only ch"
  "oc_action (terminate ch a r ev) = (if ch_warn_only ch then ActAllow else a)"
  by (auto simp: terminate_def intro: action.exhaust)

lemma by_default_simps [simp]:
  "oc_evidence (by_default ch ev) = ev"
  by (simp add: by_default_def split: decision.split)

lemma by_decider_simps [simp]:
  "oc_evidence (by_decider ch cx ly req ev) = ev"
  by (simp add: by_decider_def split: verdict.split)

section \<open>The connect phase\<close>

text \<open>
  In the connect phase a chain behaves as if the layers that need a request
  were not configured at all: they are not consulted, leave no trace in the trail and cannot
  decide. In the request phase every layer takes part.
\<close>

lemma connect_phase_ignores_request_layers:
  "chain_evaluate us ch cx s =
     run_layers us ch cx (filter (\<lambda>ly. \<not> skipped cx ly) (ch_layers ch)) (rc_evidence cx) s"
proof -
  have "run_layers us ch cx layers ev s =
      run_layers us ch cx (filter (\<lambda>ly. \<not> skipped cx ly) layers) ev s" for layers ev s
    by (induction layers arbitrary: ev s)
      (auto simp: Let_def split: prod.splits sum.splits verdict.splits failure_mode.splits)
  then show ?thesis
    by (simp add: chain_evaluate_def)
qed

section \<open>Warn mode\<close>

definition enforcing :: "'s chain \<Rightarrow> 's chain" where
  "enforcing ch = warn_only False ch"

definition observed :: "outcome \<Rightarrow> outcome" where
  "observed oc = oc\<lparr>oc_action := ActAllow, oc_would_deny := oc_action oc = ActDeny\<rparr>"

lemma terminate_warn:
  "terminate (warn_only True ch) a r ev = observed (terminate (enforcing ch) a r ev)"
  by (cases a) (simp_all add: terminate_def observed_def enforcing_def warn_only_def)

lemma by_default_warn:
  "by_default (warn_only True ch) ev = observed (by_default (enforcing ch) ev)"
proof -
  have [simp]: "ch_default_action (warn_only w ch) = ch_default_action ch"
    "ch_profile (warn_only w ch) = ch_profile ch" for w
    by (simp_all add: warn_only_def)
  show ?thesis
    by (simp add: by_default_def terminate_warn enforcing_def split: decision.split)
qed

lemma by_decider_warn:
  "by_decider (warn_only True ch) cx ly req ev = observed (by_decider (enforcing ch) cx ly req ev)"
proof -
  have [simp]: "ch_decider (warn_only w ch) = ch_decider ch" for w
    by (simp add: warn_only_def)
  show ?thesis
    by (simp add: by_decider_def terminate_warn enforcing_def split: verdict.split)
qed

text \<open>
  C26 (equivalence). Warn mode never changes what policy thinks, only what is done about it: on
  every request and every state the warn-only chain reports exactly the enforcing chain's
  reason, evidence and final state, always forwards, and sets \<open>would_deny\<close> exactly when the
  enforcing chain would have refused.
\<close>

theorem warn_mode_observes_enforcement:
  "chain_evaluate us (warn_only True ch) cx s =
     map_prod observed id (chain_evaluate us (enforcing ch) cx s)"
proof -
  have "run_layers us (warn_only True ch) cx layers ev s =
      map_prod observed id (run_layers us (enforcing ch) cx layers ev s)" for layers ev s
    by (induction layers arbitrary: ev s)
      (simp_all add: by_default_warn by_decider_warn terminate_warn Let_def
        split: prod.split sum.split verdict.split failure_mode.split)
  moreover have "ch_layers (warn_only w ch) = ch_layers ch" for w
    by (simp add: warn_only_def)
  ultimately show ?thesis
    by (simp add: chain_evaluate_def enforcing_def)
qed

section \<open>Nothing is allowed without an author\<close>

text \<open>
  A layer speaks up for a request in a state when it says allow, when its decider does, or
  when it fails and its configured failure mode is allow.
\<close>

definition permits :: "'s chain \<Rightarrow> request_context \<Rightarrow> 's layer \<Rightarrow> evidence \<Rightarrow> 's \<Rightarrow> bool" where
  "permits ch cx ly ev s \<longleftrightarrow>
    (case fst (ly_eval ly cx ev s) of
       Inl _ \<Rightarrow> ly_on_error ly = FailAllow
     | Inr (Allow _) \<Rightarrow> True
     | Inr (Defer req) \<Rightarrow> (\<exists>r. ch_decider ch cx req = Allow r)
     | Inr _ \<Rightarrow> False)"

text \<open>A layer abstains when the runner goes on to the next one after it.\<close>

definition abstains :: "request_context \<Rightarrow> 's layer \<Rightarrow> evidence \<Rightarrow> 's \<Rightarrow> bool" where
  "abstains cx ly ev s \<longleftrightarrow>
     skipped cx ly \<or>
     (case fst (ly_eval ly cx ev s) of
        Inl _ \<Rightarrow> ly_on_error ly = FailPass
      | Inr v \<Rightarrow> \<not> is_terminal v)"

text \<open>The evidence and the state the next layer sees after this one abstained.\<close>

definition advance ::
  "(string \<Rightarrow> nat) \<Rightarrow> request_context \<Rightarrow> 's layer \<Rightarrow> evidence \<times> 's \<Rightarrow> evidence \<times> 's" where
  "advance us cx ly es =
    (case es of (ev, s) \<Rightarrow>
      if skipped cx ly then (ev, s)
      else case ly_eval ly cx ev s of
        (Inl e, s') \<Rightarrow>
          (push_outcome (plain_outcome (ly_name ly) ''error'' (us (ly_name ly))
             (Some (show_error e))) ev, s')
      | (Inr (Pass next), s') \<Rightarrow>
          (push_outcome (plain_outcome (ly_name ly) ''pass'' (us (ly_name ly)) None) next, s')
      | (Inr _, s') \<Rightarrow> (ev, s'))"

fun all_abstain ::
  "(string \<Rightarrow> nat) \<Rightarrow> request_context \<Rightarrow> 's layer list \<Rightarrow> evidence \<times> 's \<Rightarrow> bool" where
  "all_abstain us cx [] es = True"
| "all_abstain us cx (ly # rest) es =
     (abstains cx ly (fst es) (snd es) \<and> all_abstain us cx rest (advance us cx ly es))"

lemma run_layers_abstain:
  "abstains cx ly ev s \<Longrightarrow>
     run_layers us ch cx (ly # rest) ev s =
       (case advance us cx ly (ev, s) of (ev', s') \<Rightarrow> run_layers us ch cx rest ev' s')"
  by (auto simp: abstains_def advance_def Let_def
      split: prod.splits sum.splits verdict.splits failure_mode.splits)

lemma run_layers_decided:
  assumes "\<not> abstains cx ly ev s"
  shows "oc_action (fst (run_layers us (enforcing ch) cx (ly # rest) ev s)) = ActAllow \<longleftrightarrow>
     permits ch cx ly ev s"
proof -
  have [simp]: "\<not> ch_warn_only (enforcing ch)" "ch_decider (enforcing ch) = ch_decider ch"
    by (simp_all add: enforcing_def warn_only_def)
  show ?thesis
    using assms
    by (auto simp: abstains_def permits_def by_decider_def Let_def
        split: prod.splits sum.splits verdict.splits failure_mode.splits)
qed

lemma run_layers_abstain_prefix:
  "all_abstain us cx pre (ev, s) \<Longrightarrow>
     run_layers us ch cx (pre @ rest) ev s =
       (case fold (advance us cx) pre (ev, s) of (ev', s') \<Rightarrow> run_layers us ch cx rest ev' s')"
proof (induction pre arbitrary: ev s)
  case (Cons ly pre)
  then show ?case
    using run_layers_abstain [of cx ly ev s us ch "pre @ rest"]
    by (cases "advance us cx ly (ev, s)") simp
qed simp

text \<open>The votes of a chain: what decides, in order, once the abstentions are gone.\<close>

lemma first_decisive:
  "all_abstain us cx layers es \<or>
    (\<exists>pre ly post. layers = pre @ ly # post \<and> all_abstain us cx pre es \<and>
       \<not> abstains cx ly (fst (fold (advance us cx) pre es)) (snd (fold (advance us cx) pre es)))"
proof (induction layers arbitrary: es)
  case (Cons ly rest)
  show ?case
  proof (cases "abstains cx ly (fst es) (snd es)")
    case True
    show ?thesis
      using Cons.IH [of "advance us cx ly es"]
    proof
      assume "all_abstain us cx rest (advance us cx ly es)"
      with True show ?thesis
        by simp
    next
      assume "\<exists>pre l post. rest = pre @ l # post \<and> all_abstain us cx pre (advance us cx ly es) \<and>
        \<not> abstains cx l (fst (fold (advance us cx) pre (advance us cx ly es)))
            (snd (fold (advance us cx) pre (advance us cx ly es)))"
      then obtain pre l post where "rest = pre @ l # post"
          "all_abstain us cx pre (advance us cx ly es)"
          "\<not> abstains cx l (fst (fold (advance us cx) pre (advance us cx ly es)))
            (snd (fold (advance us cx) pre (advance us cx ly es)))"
        by blast
      with True show ?thesis
        by (intro disjI2 exI [of _ "ly # pre"] exI [of _ l] exI [of _ post]) simp
    qed
  next
    case False
    then show ?thesis
      by (intro disjI2 exI [of _ "[]"] exI [of _ ly] exI [of _ rest]) simp
  qed
qed simp

lemma decisive_not_all_abstain:
  "\<not> abstains cx ly (fst (fold (advance us cx) pre es)) (snd (fold (advance us cx) pre es)) \<Longrightarrow>
     \<not> all_abstain us cx (pre @ ly # post) es"
  by (induction pre arbitrary: es) auto

text \<open>
  C24 (safety, the product's core guarantee). An enforcing chain lets a request through exactly
  when someone answers for it: either the first layer that does not abstain permits it, or
  every layer abstains and the profile's default action is allow. No error, no evidence, no
  state of a layer and no order of abstentions can produce an allow in any other way.
\<close>

theorem allow_has_an_author:
  "oc_action (fst (chain_evaluate us (enforcing ch) cx s)) = ActAllow \<longleftrightarrow>
     (all_abstain us cx (ch_layers ch) (rc_evidence cx, s) \<and> ch_default_action ch = DecAllow) \<or>
     (\<exists>pre ly post. ch_layers ch = pre @ ly # post \<and> all_abstain us cx pre (rc_evidence cx, s) \<and>
        (case fold (advance us cx) pre (rc_evidence cx, s) of (ev', s') \<Rightarrow>
           \<not> abstains cx ly ev' s' \<and> permits ch cx ly ev' s'))"
  (is "?allow \<longleftrightarrow> ?default \<or> ?author")
proof -
  let ?es = "(rc_evidence cx, s)"
  have layers: "ch_layers (enforcing ch) = ch_layers ch"
    by (simp add: enforcing_def warn_only_def)
  have default: "?allow \<longleftrightarrow> ch_default_action ch = DecAllow"
    if "all_abstain us cx (ch_layers ch) ?es"
    using run_layers_abstain_prefix [OF that, of "enforcing ch" "[]"]
    by (simp add: chain_evaluate_def layers by_default_def enforcing_def warn_only_def
        split: prod.split decision.split)
  have author: "?allow \<longleftrightarrow> permits ch cx ly ev' s'"
    if "ch_layers ch = pre @ ly # post" "all_abstain us cx pre ?es"
      "fold (advance us cx) pre ?es = (ev', s')" "\<not> abstains cx ly ev' s'" for pre ly post ev' s'
    using run_layers_abstain_prefix [OF that(2), of "enforcing ch" "ly # post"] that
      run_layers_decided [OF that(4), of us ch post]
    by (simp add: chain_evaluate_def layers)
  show ?thesis
    using first_decisive [of us cx "ch_layers ch" ?es]
  proof
    assume "all_abstain us cx (ch_layers ch) ?es"
    moreover have "\<not> ?author"
    proof
      assume ?author
      then obtain pre ly post where a: "ch_layers ch = pre @ ly # post"
          "case fold (advance us cx) pre ?es of (ev', s') \<Rightarrow>
             \<not> abstains cx ly ev' s' \<and> permits ch cx ly ev' s'"
        by (elim exE conjE) (rule that)
      from a(2) have "\<not> all_abstain us cx (pre @ ly # post) ?es"
        by (intro decisive_not_all_abstain) (simp add: case_prod_beta)
      with \<open>all_abstain us cx (ch_layers ch) ?es\<close> a(1) show False
        by simp
    qed
    ultimately show ?thesis
      using default by blast
  next
    assume "\<exists>pre ly post. ch_layers ch = pre @ ly # post \<and> all_abstain us cx pre ?es \<and>
      \<not> abstains cx ly (fst (fold (advance us cx) pre ?es)) (snd (fold (advance us cx) pre ?es))"
    then obtain pre ly post where d: "ch_layers ch = pre @ ly # post" "all_abstain us cx pre ?es"
        "\<not> abstains cx ly (fst (fold (advance us cx) pre ?es)) (snd (fold (advance us cx) pre ?es))"
      by blast
    have not_default: "\<not> ?default"
      using decisive_not_all_abstain [OF d(3)] d(1) by simp
    obtain ev' s' where es': "fold (advance us cx) pre ?es = (ev', s')"
      by fastforce
    show ?thesis
    proof
      assume ?allow
      with author [OF d(1,2) es'] d es' have "permits ch cx ly ev' s'" "\<not> abstains cx ly ev' s'"
        by simp_all
      with d(1,2) es' show "?default \<or> ?author"
        by (intro disjI2 exI [of _ pre] exI [of _ ly] exI [of _ post]) simp
    next
      assume "?default \<or> ?author"
      with not_default obtain pre ly post where a: "ch_layers ch = pre @ ly # post"
          "all_abstain us cx pre ?es"
          "case fold (advance us cx) pre ?es of (ev', s') \<Rightarrow>
             \<not> abstains cx ly ev' s' \<and> permits ch cx ly ev' s'"
        by (elim disjE exE conjE) (blast, rule that)
      obtain ev' s' where "fold (advance us cx) pre ?es = (ev', s')"
        by fastforce
      with author [OF a(1,2) this] a(3) show ?allow
        by simp
    qed
  qed
qed

text \<open>
  Ordering is precedence: once every layer before it abstains, a layer that
  denies refuses the request whatever layers follow it and whatever they would have said.
\<close>

lemma earlier_deny_wins:
  assumes "ch_layers ch = pre @ ly # post"
    and "all_abstain us cx pre (rc_evidence cx, s)"
    and "fold (advance us cx) pre (rc_evidence cx, s) = (ev', s')"
    and "\<not> skipped cx ly"
    and "ly_eval ly cx ev' s' = (Inr (Deny r), s'')"
    and "\<not> ch_warn_only ch"
  shows "chain_evaluate us ch cx s =
    (\<lparr>oc_action = ActDeny, oc_reason = r,
      oc_evidence = push_outcome (outcome_of (ly_name ly) ''deny'' (us (ly_name ly)) r) ev',
      oc_would_deny = False\<rparr>, s'')"
  using run_layers_abstain_prefix [OF assms(2), of ch "ly # post"] assms
  by (simp add: chain_evaluate_def terminate_def)

text \<open>The witness: a chain whose first layer denies and whose second would allow.\<close>

definition sample_layer :: "string \<Rightarrow> verdict \<Rightarrow> unit layer" where
  "sample_layer name v =
     \<lparr>ly_name = name, ly_cost = Trivial, ly_needs_request = False,
      ly_body_requirement = StreamBody, ly_on_error = FailDeny,
      ly_eval = (\<lambda>cx ev s. (Inr v, s))\<rparr>"

definition sample_request :: "string \<Rightarrow> request_context" where
  "sample_request host =
     \<lparr>rc_identity = ''agent'', rc_profile = ''p'', rc_ingress = Explicit, rc_phase = Request,
      rc_client_addr = \<lparr>sa_ip = V4 127 0 0 1, sa_port = 1\<rparr>,
      rc_authority = \<lparr>auth_host = host, auth_port = 443\<rparr>, rc_method = ''GET'',
      rc_uri = \<lparr>uri_path = ''/'', uri_query = None\<rparr>, rc_headers = [], rc_body = Empty,
      rc_evidence = ev_new, rc_llm_route = None\<rparr>"

definition sample_reason :: "string \<Rightarrow> reason" where
  "sample_reason layer = reason_new layer ''code'' ''message''"

definition sample_chain :: "unit chain" where
  "sample_chain = chain_new ''p''
     [sample_layer ''pass'' (Pass ev_new),
      sample_layer ''denylist'' (Deny (sample_reason ''denylist'')),
      sample_layer ''judge'' (Allow (sample_reason ''judge''))]
     DecAllow denying_decider"

definition sample_trail :: evidence where
  "sample_trail = push_outcome (plain_outcome ''pass'' ''pass'' 0 None) ev_new"

section \<open>Body requirements\<close>

text \<open>
  The chain buffers enough for every layer: no layer is ever handed less of a
  body than the cap it declared, and if any layer buffers, the chain does.
\<close>

lemma chain_buffers_enough:
  assumes "ly \<in> set (ch_layers ch)"
  shows "ly_body_requirement ly \<le> chain_body_requirement ch \<and>
    (br_buffers (ly_body_requirement ly) \<longrightarrow> br_buffers (chain_body_requirement ch))"
proof -
  have le: "ly_body_requirement ly \<le> chain_body_requirement ch"
    using assms by (simp add: chain_body_requirement_def fold_combine_upper(2))
  then show ?thesis
    by (cases "ly_body_requirement ly"; cases "chain_body_requirement ch")
      (simp_all add: less_eq_body_requirement_def)
qed

section \<open>The contract of a layer and what a chain makes of it\<close>

text \<open>
  A layer that passes returns the evidence it was given, possibly with additions, and leaves
  the trail to the runner.
\<close>

locale policy_layer =
  fixes eval :: "request_context \<Rightarrow> evidence \<Rightarrow> 's \<Rightarrow> (core_error + verdict) \<times> 's"
  assumes pass_extends: "fst (eval cx ev s) = Inr (Pass ev') \<Longrightarrow> ev_le ev ev'"
    and pass_trail: "fst (eval cx ev s) = Inr (Pass ev') \<Longrightarrow> trail ev' = trail ev"

locale policy_chain =
  fixes layers :: "'s layer list"
  assumes layers_ok: "ly \<in> set layers \<Longrightarrow> policy_layer (ly_eval ly)"
begin

lemma run_extends:
  "set ls \<subseteq> set layers \<Longrightarrow> ev_le ev (oc_evidence (fst (run_layers us ch cx ls ev s)))"
proof (induction ls arbitrary: ev s)
  case Nil
  then show ?case
    by simp
next
  case (Cons ly ls)
  then have IH: "ev_le ev (oc_evidence (fst (run_layers us ch cx ls ev s)))" for ev s
    by simp
  have pass: "ev_le ev ev'" if "ly_eval ly cx ev s = (Inr (Pass ev'), s')" for ev' s'
    using Cons.prems layers_ok [of ly] policy_layer.pass_extends [of "ly_eval ly" cx ev s ev'] that
    by simp
  show ?case
    using IH
    by (auto simp: Let_def evidence_mono intro: ev_le_trans [OF ev_le_push] ev_le_trans [OF pass]
        split: prod.split sum.split verdict.split failure_mode.split)
qed

lemma run_trail:
  "set ls \<subseteq> set layers \<Longrightarrow>
     \<exists>k. map lo_layer (trail (oc_evidence (fst (run_layers us ch cx ls ev s)))) =
       map lo_layer (trail ev) @ take k (map ly_name (filter (\<lambda>ly. \<not> skipped cx ly) ls))"
proof (induction ls arbitrary: ev s)
  case Nil
  then show ?case
    by simp
next
  case (Cons ly ls)
  let ?run = "\<lambda>ls ev s. map lo_layer (trail (oc_evidence (fst (run_layers us ch cx ls ev s))))"
  let ?ns = "map ly_name (filter (\<lambda>ly. \<not> skipped cx ly) ls)"
  have stop: "\<exists>k. [n] = take k (n # ns)" for ns and n :: string
    by (intro exI [of _ 1]) simp
  have IH: "\<exists>k. ?run ls ev s = map lo_layer (trail ev) @ take k ?ns" for ev s
    using Cons by simp
  have go: "\<exists>k. ?run ls ev' s' = map lo_layer (trail ev) @ take k (ly_name ly # ?ns)"
    if "map lo_layer (trail ev') = map lo_layer (trail ev) @ [ly_name ly]" for ev' s'
    using IH [of ev' s'] that by (elim exE) (rule exI [of _ "Suc _"], simp)
  have pass: "trail ev' = trail ev" if "ly_eval ly cx ev s = (Inr (Pass ev'), s')" for ev' s'
    using Cons.prems layers_ok [of ly] policy_layer.pass_trail [of "ly_eval ly" cx ev s ev'] that
    by simp
  show ?case
  proof (cases "skipped cx ly")
    case True
    with IH [of ev s] show ?thesis
      by simp
  next
    case False
    then have "\<exists>k. ?run (ly # ls) ev s = map lo_layer (trail ev) @ take k (ly_name ly # ?ns)"
      using pass
      by (auto simp: Let_def plain_outcome_def outcome_of_def simp del: take_Suc_Cons
          split: prod.split sum.split verdict.split failure_mode.split intro!: go stop)
    with False show ?thesis
      by simp
  qed
qed

end

end
