(* ===== verification/Config.thy ===== *)
theory Config
  imports Core
begin

text \<open>
  \<open>crates/marshal-config/src/layer.rs\<close> and \<open>model.rs\<close>: the configuration as the sources
  deserialise it, with its defaults. A \<open>BTreeMap\<close> is an association list sorted by key, a
  \<open>Duration\<close> a number of nanoseconds.
\<close>

type_synonym duration = nat

definition secs :: "nat \<Rightarrow> duration" where
  "secs n = n * 1000000000"

section \<open>Policy layers\<close>

datatype outcome_cfg = OutAllow | OutDeny | OutPass

record host_set =
  hs_domains :: "string list"
  hs_cidrs :: "string list"
  hs_bundles :: "string list"

datatype cfg_oversize = CfgDeny | CfgPassUnscanned

record mcp_arg_constraint =
  mac_path :: string
  mac_equals :: "json option"
  mac_one_of :: "json list option"
  mac_matches :: "string option"

record mcp_tool =
  mt_name :: string
  mt_when :: "mcp_arg_constraint list"

record mcp_host_rule =
  mhr_host :: "string option"
  mhr_cidr :: "string option"

record mcp_server =
  ms_name :: "string option"
  ms_rules :: "mcp_host_rule list"
  ms_tools :: "mcp_tool list"

record rule_expr =
  re_when :: string
  re_verdict :: outcome_cfg
  re_flags :: "string list"

record judge_scope =
  js_host :: "string option"
  js_cidr :: "string option"
  js_methods :: "string list"

datatype provider_cfg =
    ProvOpenAi string string "nat option" "string option"
  | ProvAnthropic string string "nat option" "string option"
  | ProvSystemOne string "string option" string rat

definition default_decision_confidence :: rat where
  "default_decision_confidence = 9 / 10"

record cache_config =
  cache_ttl :: duration
  cache_max_entries :: nat

definition default_cache :: cache_config where
  "default_cache = \<lparr>cache_ttl = secs 900, cache_max_entries = 10000\<rparr>"

record circuit_breaker =
  cb_consecutive_failures :: nat
  cb_cooldown :: duration

definition default_breaker :: circuit_breaker where
  "default_breaker = \<lparr>cb_consecutive_failures = 5, cb_cooldown = secs 30\<rparr>"

record judge_config =
  jc_provider :: provider_cfg
  jc_scope :: "judge_scope list"
  jc_prompt :: string
  jc_cache :: cache_config
  jc_timeout :: "duration option"
  jc_max_concurrent :: nat
  jc_on_error :: failure_mode
  jc_on_timeout :: failure_mode
  jc_circuit_breaker :: circuit_breaker

definition default_scan_cap :: nat where
  "default_scan_cap = 1024 * 1024"

record dlp_config =
  dc_scan_request :: bool
  dc_scan_response :: bool
  dc_patterns :: "string list"
  dc_on_match :: outcome_cfg
  dc_annotate :: "string list"
  dc_max_body_bytes :: nat
  dc_on_oversize :: cfg_oversize

datatype layer_config =
    LDenylist host_set
  | LAllowlist host_set outcome_cfg outcome_cfg
  | LRules "rule_expr list"
  | LDlp dlp_config
  | LMcp "mcp_server list" nat
  | LJudge judge_config

fun layer_name :: "layer_config \<Rightarrow> string" where
  "layer_name (LDenylist _) = ''denylist''"
| "layer_name (LAllowlist _ _ _) = ''allowlist''"
| "layer_name (LRules _) = ''rules''"
| "layer_name (LDlp _) = ''dlp''"
| "layer_name (LMcp _ _) = ''mcp''"
| "layer_name (LJudge _) = ''judge''"

fun layer_cost :: "layer_config \<Rightarrow> cost_class" where
  "layer_cost (LDenylist _) = Trivial"
| "layer_cost (LAllowlist _ _ _) = Trivial"
| "layer_cost (LRules _) = Cheap"
| "layer_cost (LMcp _ _) = Cheap"
| "layer_cost (LDlp _) = Moderate"
| "layer_cost (LJudge _) = Expensive"

section \<open>Listeners, TLS and upstream\<close>

datatype env_file_setting = EnvEnabled bool | EnvPath string

record explicit_listener =
  el_listen :: "string list"
  el_unix_socket :: "string option"

record dns_record =
  dr_name :: string
  dr_values :: "string list"

record dns_listener =
  dl_enabled :: bool
  dl_listen :: string
  dl_proxy_ip :: string
  dl_passthrough :: "string list"
  dl_records :: "dns_record list"

record management_listener =
  ml_listen :: string
  ml_api_key_env :: string

record listeners =
  ls_explicit :: "explicit_listener option"
  ls_dns :: "dns_listener option"
  ls_management :: "management_listener option"

record tls_config =
  tls_ca_cert :: "string option"
  tls_ca_key :: "string option"
  tls_cert_cache_size :: nat
  tls_leaf_expiry_hours :: nat
  tls_passthrough :: "string list"
  tls_upstream_ca_certs :: "string list"

record upstream =
  up_deny_cidrs :: "string list"
  up_allow_private :: bool
  up_max_response_bytes :: nat

definition default_deny_cidrs :: "string list" where
  "default_deny_cidrs =
     [''169.254.0.0/16'', ''127.0.0.0/8'', ''::1/128'', ''fe80::/10'', ''fd00::/8'']"

definition default_upstream :: upstream where
  "default_upstream =
     \<lparr>up_deny_cidrs = default_deny_cidrs, up_allow_private = False, up_max_response_bytes = 0\<rparr>"

section \<open>Transforms\<close>

record header_filter_spec =
  hf_allow :: "string list"
  hf_deny :: "string list"

datatype llm_dialect = Openai | Anthropic | SystemOne

fun dialect_str :: "llm_dialect \<Rightarrow> string" where
  "dialect_str Openai = ''openai''"
| "dialect_str Anthropic = ''anthropic''"
| "dialect_str SystemOne = ''system_one''"

fun default_chat_path :: "llm_dialect \<Rightarrow> string" where
  "default_chat_path Openai = ''/v1/chat/completions''"
| "default_chat_path Anthropic = ''/v1/messages''"
| "default_chat_path SystemOne = ''/v1/systemone''"

record llm_listen =
  ll_dialect :: llm_dialect
  ll_hosts :: "string list"
  ll_paths :: "string list"

record llm_model_target =
  lmt_model :: string
  lmt_dialect :: llm_dialect
  lmt_host :: string
  lmt_path :: "string option"
  lmt_port :: u16

datatype llm_unmapped = UnmappedDeny | UnmappedPass

record llm_router_config =
  lrc_listen :: "llm_listen list"
  lrc_models :: "(string \<times> llm_model_target) list"
  lrc_unmapped :: llm_unmapped
  lrc_max_request_bytes :: nat
  lrc_max_response_bytes :: nat

record request_transforms =
  rqt_headers :: "header_filter_spec option"
  rqt_set_headers :: "(string \<times> string) list"
  rqt_secrets :: "json list"
  rqt_llm_router :: "llm_router_config option"

definition default_request_transforms :: request_transforms where
  "default_request_transforms =
     \<lparr>rqt_headers = None, rqt_set_headers = [], rqt_secrets = [], rqt_llm_router = None\<rparr>"

datatype truncation_method = TruncBytes | TruncUtf8

datatype response_oversize_action = OsFail | OsTruncate truncation_method string | OsReplace string

definition default_truncation_marker :: string where
  "default_truncation_marker = [CHR 0x0A] @ ''...[response truncated by bot-marshal]''"

definition default_replacement_body :: string where
  "default_replacement_body =
     ''response omitted by bot-marshal because it exceeded the configured limit''"

datatype body_transform =
    BtLimit nat response_oversize_action
  | BtSummarize nat nat "json list"
  | BtCompact nat "json list"
  | BtRedact "string list" nat

fun body_transform_name :: "body_transform \<Rightarrow> string" where
  "body_transform_name (BtLimit _ _) = ''limit''"
| "body_transform_name (BtSummarize _ _ _) = ''summarize''"
| "body_transform_name (BtCompact _ _) = ''compact''"
| "body_transform_name (BtRedact _ _) = ''redact''"

fun body_transform_max :: "body_transform \<Rightarrow> nat" where
  "body_transform_max (BtLimit m _) = m"
| "body_transform_max (BtSummarize _ m _) = m"
| "body_transform_max (BtCompact m _) = m"
| "body_transform_max (BtRedact _ m) = m"

record response_transforms =
  rst_headers :: "header_filter_spec option"
  rst_body :: "body_transform list"

definition default_response_transforms :: response_transforms where
  "default_response_transforms = \<lparr>rst_headers = None, rst_body = []\<rparr>"

record transform_bundle =
  tb_request :: request_transforms
  tb_response :: response_transforms

definition request_managed_names :: "string list" where
  "request_managed_names =
     [''host'', ''content-length'', ''connection'', ''keep-alive'', ''proxy-authenticate'',
      ''proxy-authorization'', ''proxy-connection'', ''te'', ''trailer'', ''transfer-encoding'',
      ''upgrade'']"

definition request_header_is_managed :: "string \<Rightarrow> bool" where
  "request_header_is_managed name \<longleftrightarrow> name \<in> set request_managed_names"

definition response_managed_names :: "string list" where
  "response_managed_names =
     [''content-length'', ''connection'', ''keep-alive'', ''trailer'', ''transfer-encoding'',
      ''upgrade'']"

definition response_header_is_managed :: "string \<Rightarrow> bool" where
  "response_header_is_managed name \<longleftrightarrow> name \<in> set response_managed_names"

section \<open>Profiles\<close>

datatype mode = Enforce | Warn

record sandbox =
  sb_bind_groups :: "string list"
  sb_extra_binds :: "string list"

record bind_group =
  bg_paths :: "string list"

record profile =
  pf_default_action :: decision
  pf_i_understand :: bool
  pf_mode :: mode
  pf_policy :: "layer_config list"
  pf_transforms :: "string list"
  pf_request_transforms :: request_transforms
  pf_response_transforms :: response_transforms
  pf_sandbox :: sandbox

definition default_profile :: profile where
  "default_profile =
     \<lparr>pf_default_action = DecDeny, pf_i_understand = False, pf_mode = Enforce, pf_policy = [],
      pf_transforms = [], pf_request_transforms = default_request_transforms,
      pf_response_transforms = default_response_transforms,
      pf_sandbox = \<lparr>sb_bind_groups = [], sb_extra_binds = []\<rparr>\<rparr>"

section \<open>Identities\<close>

record proxy_auth_entry =
  pa_user :: string
  pa_password_env :: string
  pa_identity :: string
  pa_profile :: string

record source_ip_entry =
  si_cidr :: string
  si_identity :: string
  si_profile :: string

record listener_port_entry =
  lp_port :: u16
  lp_identity :: string
  lp_profile :: string

record peer_cred_entry =
  pc_uid :: "nat option"
  pc_username :: "string option"
  pc_gid :: "nat option"
  pc_groupname :: "string option"
  pc_cgroup :: "string option"
  pc_identity :: string
  pc_profile :: string

datatype resolver_config =
    RcProxyAuth "proxy_auth_entry list"
  | RcSourceIp "source_ip_entry list"
  | RcPeerCred bool "peer_cred_entry list"
  | RcRun
  | RcListenerPort "listener_port_entry list"

fun resolver_name :: "resolver_config \<Rightarrow> string" where
  "resolver_name (RcProxyAuth _) = ''proxy_auth''"
| "resolver_name (RcSourceIp _) = ''source_ip''"
| "resolver_name (RcPeerCred _ _) = ''peer_cred''"
| "resolver_name RcRun = ''run''"
| "resolver_name (RcListenerPort _) = ''listener_port''"

datatype unidentified_action = AllowWithProfile | UnidentifiedDeny

record unidentified =
  un_profile :: "string option"
  un_action :: unidentified_action

record identities =
  id_resolvers :: "resolver_config list"
  id_unidentified :: "unidentified option"

section \<open>The root\<close>

record config =
  cf_listeners :: listeners
  cf_tls :: tls_config
  cf_upstream :: upstream
  cf_profile :: profile
  cf_profiles :: "(string \<times> profile) list"
  cf_profiles_path :: string
  cf_identities :: identities
  cf_bundles :: "(string \<times> host_set) list"
  cf_bundles_path :: string
  cf_bind_groups :: "(string \<times> bind_group) list"
  cf_bind_groups_path :: string
  cf_transforms :: "(string \<times> transform_bundle) list"
  cf_transforms_path :: string
  cf_state_dir :: "string option"
  cf_env_file :: "env_file_setting option"

definition default_config :: config where
  "default_config =
     \<lparr>cf_listeners = \<lparr>ls_explicit = None, ls_dns = None, ls_management = None\<rparr>,
      cf_tls = \<lparr>tls_ca_cert = None, tls_ca_key = None, tls_cert_cache_size = 0,
        tls_leaf_expiry_hours = 0, tls_passthrough = [], tls_upstream_ca_certs = []\<rparr>,
      cf_upstream = default_upstream, cf_profile = default_profile, cf_profiles = [],
      cf_profiles_path = [], cf_identities = \<lparr>id_resolvers = [], id_unidentified = None\<rparr>,
      cf_bundles = [], cf_bundles_path = [], cf_bind_groups = [], cf_bind_groups_path = [],
      cf_transforms = [], cf_transforms_path = [], cf_state_dir = None, cf_env_file = None\<rparr>"

end
