(* ===== verification/Layers.thy ===== *)
theory Layers
  imports Chain Hosts Config
begin

text \<open>
  \<open>crates/marshal-policy/src/layers/\<close> (allowlist, denylist, dlp, rules) and \<open>patterns.rs\<close>.
  Each layer is its \<open>evaluate\<close> over the data the Rust struct holds, and a record of type
  \<open>layer\<close> with the trait's other methods. The crates \<open>regex\<close> and \<open>cel\<close> are the parameters
  \<open>regex_lib\<close> and \<open>cel_lib\<close>. Every layer is an instance of the contract \<open>policy_layer\<close>.
\<close>

text \<open>The crate \<open>regex\<close>: compile (or the error's text), match, and the pattern's source.\<close>

record 're regex_lib =
  re_new :: "string \<Rightarrow> string + 're"
  re_match :: "'re \<Rightarrow> string \<Rightarrow> bool"
  re_str :: "'re \<Rightarrow> string"

definition stateless ::
  "(request_context \<Rightarrow> evidence \<Rightarrow> core_error + verdict)
     \<Rightarrow> request_context \<Rightarrow> evidence \<Rightarrow> 's \<Rightarrow> (core_error + verdict) \<times> 's" where
  "stateless f cx ev s = (f cx ev, s)"

lemma stateless_layer:
  "(\<And>cx ev ev'. f cx ev = Inr (Pass ev') \<Longrightarrow> ev_le ev ev' \<and> trail ev' = trail ev)
     \<Longrightarrow> policy_layer (stateless f)"
  by unfold_locales (auto simp: stateless_def)

section \<open>The allowlist and the denylist\<close>

record 'net allowlist =
  al_matcher :: "'net host_matcher"
  al_on_match :: outcome_cfg
  al_on_miss :: outcome_cfg

fun apply_outcome :: "outcome_cfg \<Rightarrow> evidence \<Rightarrow> reason \<Rightarrow> verdict" where
  "apply_outcome OutAllow ev r = Allow r"
| "apply_outcome OutDeny ev r = Deny r"
| "apply_outcome OutPass ev r = Pass ev"

definition allowlist_eval ::
  "('net, 'x) ipnet_scheme \<Rightarrow> 'net allowlist \<Rightarrow> request_context \<Rightarrow> evidence
     \<Rightarrow> core_error + verdict" where
  "allowlist_eval net al cx ev =
    (let host = auth_host (rc_authority cx) in
     case host_matches net (al_matcher al) host of
       Some kind \<Rightarrow>
         Inr (apply_outcome (al_on_match al)
           (record_ev ''allowlist.matched'' (JStr (rule_of kind)) ev)
           (with_rule (rule_of kind)
             (reason_new ''allowlist'' ''host_allowed'' (''`'' @ host @ ''` is allowlisted''))))
     | None \<Rightarrow>
         Inr (apply_outcome (al_on_miss al) ev
           (reason_new ''allowlist'' ''host_not_allowlisted''
             (''`'' @ host @ ''` is not in this profile's allowlist. Add the domain to the ''
              @ ''profile, or import a bundle that contains it.''))))"

definition allowlist_layer ::
  "('net, 'x) ipnet_scheme \<Rightarrow> 'net allowlist \<Rightarrow> 's layer" where
  "allowlist_layer net al =
     \<lparr>ly_name = ''allowlist'', ly_cost = Trivial, ly_needs_request = False,
      ly_body_requirement = StreamBody, ly_on_error = FailDeny,
      ly_eval = stateless (allowlist_eval net al)\<rparr>"

definition denylist_eval ::
  "('net, 'x) ipnet_scheme \<Rightarrow> 'net host_matcher \<Rightarrow> request_context \<Rightarrow> evidence
     \<Rightarrow> core_error + verdict" where
  "denylist_eval net m cx ev =
    (case host_matches net m (auth_host (rc_authority cx)) of
       Some kind \<Rightarrow>
         Inr (Deny (with_rule (rule_of kind)
           (reason_new ''denylist'' ''host_denied''
             (''`'' @ auth_host (rc_authority cx) @ ''` is explicitly denied''))))
     | None \<Rightarrow> Inr (Pass ev))"

definition denylist_layer ::
  "('net, 'x) ipnet_scheme \<Rightarrow> 'net host_matcher \<Rightarrow> 's layer" where
  "denylist_layer net m =
     \<lparr>ly_name = ''denylist'', ly_cost = Trivial, ly_needs_request = False,
      ly_body_requirement = StreamBody, ly_on_error = FailDeny,
      ly_eval = stateless (denylist_eval net m)\<rparr>"

interpretation allowlist: policy_layer "stateless (allowlist_eval net al)" for net al
proof (rule stateless_layer)
  fix cx ev ev'
  assume "allowlist_eval net al cx ev = Inr (Pass ev')"
  then show "ev_le ev ev' \<and> trail ev' = trail ev"
    by (cases "al_on_match al"; cases "al_on_miss al")
      (auto simp: allowlist_eval_def Let_def intro: evidence_mono split: option.splits)
qed

interpretation denylist: policy_layer "stateless (denylist_eval net m)" for net m
  by (rule stateless_layer) (auto simp: denylist_eval_def split: option.splits)

section \<open>The builtin credential patterns\<close>

record 're cred_pattern =
  pt_name :: string
  pt_description :: string
  pt_regex :: 're

text \<open>
  \<open>builtin\<close> answers \<open>None\<close> for an unknown name and panics if an expression does not compile.
\<close>

datatype 're builtin_result = NoSuchPattern | BuiltPattern "'re cred_pattern" | PatternPanics

definition wb :: string where
  "wb = [CHR 0x5C, CHR ''b'']"

definition builtin_table :: "(string \<times> string \<times> string) list" where
  "builtin_table =
    [(''aws-access-key'', ''AWS access key ID'',
       wb @ ''(?:AKIA|ASIA|ABIA|ACCA)[0-9A-Z]{16}'' @ wb),
     (''github-pat'', ''GitHub personal access, OAuth, app or refresh token'',
       wb @ ''gh[pousr]_[A-Za-z0-9]{36,}'' @ wb),
     (''github-fine-grained'', ''GitHub fine-grained personal access token'',
       wb @ ''github_pat_[A-Za-z0-9_]{22,}'' @ wb),
     (''slack-token'', ''Slack token'', wb @ ''xox[abposr]-[A-Za-z0-9-]{10,}'' @ wb),
     (''openai-key'', ''OpenAI API key'', wb @ ''sk-[A-Za-z0-9_-]{20,}'' @ wb),
     (''anthropic-key'', ''Anthropic API key'', wb @ ''sk-ant-[A-Za-z0-9_-]{20,}'' @ wb),
     (''google-api-key'', ''Google API key'', wb @ ''AIza[0-9A-Za-z_-]{35}'' @ wb),
     (''stripe-key'', ''Stripe secret key'',
       wb @ ''[rs]k_(?:live|test)_[A-Za-z0-9]{20,}'' @ wb),
     (''private-key-pem'', ''PEM-encoded private key'',
       ''-----BEGIN (?:RSA |EC |DSA |OPENSSH |PGP )?PRIVATE KEY(?: BLOCK)?-----''),
     (''jwt'', ''JSON Web Token'',
       wb @ ''eyJ[A-Za-z0-9_-]{10,}'' @ [CHR 0x5C] @ ''.eyJ[A-Za-z0-9_-]{10,}''
       @ [CHR 0x5C] @ ''.[A-Za-z0-9_-]{10,}'' @ wb)]"

definition builtin_names :: "string list" where
  "builtin_names =
    [''aws-access-key'', ''github-pat'', ''github-fine-grained'', ''slack-token'',
     ''openai-key'', ''anthropic-key'', ''google-api-key'', ''stripe-key'',
     ''private-key-pem'', ''jwt'']"

definition leak_name :: "string \<Rightarrow> string" where
  "leak_name name = unwrap_or ''unknown'' (find (\<lambda>n. n = name) builtin_names)"

definition builtin :: "('re, 'x) regex_lib_scheme \<Rightarrow> string \<Rightarrow> 're builtin_result" where
  "builtin rl name =
    (case map_of builtin_table name of
       None \<Rightarrow> NoSuchPattern
     | Some (description, source) \<Rightarrow>
         (case re_new rl source of
            Inl _ \<Rightarrow> PatternPanics
          | Inr r \<Rightarrow>
              BuiltPattern \<lparr>pt_name = leak_name name, pt_description = description, pt_regex = r\<rparr>))"

lemma builtin_names_complete: "map fst builtin_table = builtin_names"
  by (simp add: builtin_table_def builtin_names_def)

text \<open>Every advertised name is known, under its own name, and no other name is.\<close>

lemma builtin_known_iff: "builtin rl name \<noteq> NoSuchPattern \<longleftrightarrow> name \<in> set builtin_names"
proof -
  have "map_of builtin_table name = None \<longleftrightarrow> name \<notin> set builtin_names"
    by (simp add: map_of_eq_None_iff flip: builtin_names_complete)
  then show ?thesis
    by (auto simp: builtin_def split: option.splits sum.splits)
qed

lemma builtin_name: "builtin rl name = BuiltPattern p \<Longrightarrow> pt_name p = name"
proof -
  assume built: "builtin rl name = BuiltPattern p"
  then have "name \<in> set builtin_names"
    using builtin_known_iff [of rl name] by simp
  then obtain n where "find (\<lambda>n. n = name) builtin_names = Some n"
    using find_ne_None [of "\<lambda>n. n = name" builtin_names] by auto
  with find_Some_in [OF this] built show ?thesis
    by (auto simp: builtin_def leak_name_def split: option.splits sum.splits)
qed

section \<open>Egress credential scanning\<close>

datatype oversize = OversizeDeny | PassUnscanned

record 're dlp =
  dlp_patterns :: "'re cred_pattern list"
  dlp_scan_request :: bool
  dlp_on_match :: outcome_cfg
  dlp_annotate :: "string list"
  dlp_body_cap :: nat
  dlp_oversize :: oversize

definition dlp_scan ::
  "('re, 'x) regex_lib_scheme \<Rightarrow> 're dlp \<Rightarrow> string \<Rightarrow> 're cred_pattern option" where
  "dlp_scan rl d text = find (\<lambda>p. re_match rl (pt_regex p) text) (dlp_patterns d)"

fun dlp_headers ::
  "('re, 'x) regex_lib_scheme \<Rightarrow> 're dlp \<Rightarrow> (string \<times> string) list
     \<Rightarrow> ('re cred_pattern \<times> string) option" where
  "dlp_headers rl d [] = None"
| "dlp_headers rl d ((name, value) # rest) =
    (case Option.bind (value_to_str value) (dlp_scan rl d) of
       Some p \<Rightarrow> Some (p, ''header:'' @ name)
     | None \<Rightarrow> dlp_headers rl d rest)"

definition dlp_query ::
  "('re, 'x) regex_lib_scheme \<Rightarrow> 're dlp \<Rightarrow> uri \<Rightarrow> ('re cred_pattern \<times> string) option" where
  "dlp_query rl d u =
    map_option (\<lambda>p. (p, ''query'')) (Option.bind (uri_query u) (dlp_scan rl d))"

definition dlp_head_hit ::
  "('re, 'x) regex_lib_scheme \<Rightarrow> 're dlp \<Rightarrow> request_context \<Rightarrow> ('re cred_pattern \<times> string) option" where
  "dlp_head_hit rl d cx =
    (case dlp_headers rl d (hdr_pairs (rc_headers cx)) of
       Some h \<Rightarrow> Some h
     | None \<Rightarrow> dlp_query rl d (rc_uri cx))"

definition dlp_not_scanned :: "evidence \<Rightarrow> evidence" where
  "dlp_not_scanned ev = record_ev ''dlp.body_scanned'' (JBool False) (ev_flag ''BodyNotScanned'' ev)"

definition dlp_reason :: "request_context \<Rightarrow> 're cred_pattern \<Rightarrow> string \<Rightarrow> reason" where
  "dlp_reason cx p location =
     with_rule (pt_name p) (reason_new ''dlp'' ''credential_in_request''
       (''a value matching `'' @ pt_name p @ ''` ('' @ pt_description p @ '') was found in the ''
        @ location @ '' of a request to `'' @ auth_host (rc_authority cx)
        @ ''`. Credentials must not leave through the proxy; use a placeholder and let ''
        @ ''bot-marshal inject the real value.''))"

definition dlp_finding ::
  "'re dlp \<Rightarrow> request_context \<Rightarrow> evidence \<Rightarrow> ('re cred_pattern \<times> string) option
     \<Rightarrow> core_error + verdict" where
  "dlp_finding d cx ev hit =
    (case hit of
       None \<Rightarrow> Inr (Pass ev)
     | Some (p, location) \<Rightarrow>
         Inr (apply_outcome (dlp_on_match d)
           (fold ev_flag (dlp_annotate d)
             (record_ev ''dlp.location'' (JStr location)
               (record_ev ''dlp.matched'' (JStr (pt_name p)) ev)))
           (dlp_reason cx p location)))"

definition dlp_eval ::
  "('re, 'x) regex_lib_scheme \<Rightarrow> 're dlp \<Rightarrow> request_context \<Rightarrow> evidence \<Rightarrow> core_error + verdict" where
  "dlp_eval rl d cx ev =
    (let hit = dlp_head_hit rl d cx in
     if hit = None \<and> dlp_scan_request d
     then (case rc_body cx of
        Buffered bytes \<Rightarrow>
          dlp_finding d cx ev
            (map_option (\<lambda>p. (p, ''body'')) (Option.bind (from_utf8 bytes) (dlp_scan rl d)))
      | Empty \<Rightarrow> dlp_finding d cx ev None
      | _ \<Rightarrow>
          (if dlp_oversize d = OversizeDeny
           then Inr (Deny (reason_new ''dlp'' ''body_too_large_to_scan''
             (''the request body exceeds the '' @ show_nat (dlp_body_cap d)
              @ '' byte scan cap and this profile refuses unscanned bodies'')))
           else dlp_finding d cx (dlp_not_scanned ev) None))
     else dlp_finding d cx ev hit)"

definition dlp_layer :: "('re, 'x) regex_lib_scheme \<Rightarrow> 're dlp \<Rightarrow> 's layer" where
  "dlp_layer rl d =
     \<lparr>ly_name = ''dlp'', ly_cost = Moderate, ly_needs_request = True,
      ly_body_requirement =
        (if dlp_scan_request d then BufferBody (dlp_body_cap d) else StreamBody),
      ly_on_error = FailDeny, ly_eval = stateless (dlp_eval rl d)\<rparr>"


interpretation dlp: policy_layer "stateless (dlp_eval rl d)" for rl d
proof (rule stateless_layer)
  fix cx ev ev'
  assume "dlp_eval rl d cx ev = Inr (Pass ev')"
  then show "ev_le ev ev' \<and> trail ev' = trail ev"
    by (cases "dlp_on_match d")
      (auto simp: dlp_eval_def dlp_finding_def dlp_not_scanned_def Let_def
        intro!: evidence_mono
        split: option.splits body_handle.splits if_splits)
qed

text \<open>What the layer reads of a request: each text with where it was found.\<close>

fun option_list :: "'a option \<Rightarrow> 'a list" where
  "option_list None = []"
| "option_list (Some x) = [x]"

lemma set_option_list [simp]: "set (option_list x) = set_option x"
  by (cases x) simp_all

fun body_text :: "body_handle \<Rightarrow> string option" where
  "body_text (Buffered bytes) = from_utf8 bytes"
| "body_text _ = None"

definition header_texts :: "(string \<times> string) list \<Rightarrow> string list" where
  "header_texts hs = List.map_filter (\<lambda>(n, v). value_to_str v) hs"

definition dlp_texts :: "'re dlp \<Rightarrow> request_context \<Rightarrow> string list" where
  "dlp_texts d cx =
     header_texts (hdr_pairs (rc_headers cx))
     @ option_list (uri_query (rc_uri cx))
     @ option_list (if dlp_scan_request d then body_text (rc_body cx) else None)"

fun unscannable :: "body_handle \<Rightarrow> bool" where
  "unscannable Streaming = True"
| "unscannable (OverLimit _ _ _) = True"
| "unscannable _ = False"

definition matches_any :: "('re, 'x) regex_lib_scheme \<Rightarrow> 're dlp \<Rightarrow> string \<Rightarrow> bool" where
  "matches_any rl d t \<longleftrightarrow> (\<exists>p \<in> set (dlp_patterns d). re_match rl (pt_regex p) t)"

lemma dlp_scan_None: "dlp_scan rl d t = None \<longleftrightarrow> \<not> matches_any rl d t"
  using find_ne_None [of "\<lambda>p. re_match rl (pt_regex p) t" "dlp_patterns d"]
  by (auto simp: dlp_scan_def matches_any_def)

lemma dlp_scan_bind_None:
  "Option.bind x (dlp_scan rl d) = None \<longleftrightarrow> (\<forall>t. x = Some t \<longrightarrow> \<not> matches_any rl d t)"
  by (cases x) (simp_all add: dlp_scan_None)

lemma dlp_scan_Some: "dlp_scan rl d t = Some p \<Longrightarrow> matches_any rl d t"
  using dlp_scan_None [of rl d t] by auto

lemma dlp_headers_None:
  "dlp_headers rl d hs = None \<longleftrightarrow>
     (\<forall>t \<in> set (header_texts hs). \<not> matches_any rl d t)"
  by (induction rl d hs rule: dlp_headers.induct)
    (auto simp: dlp_scan_None header_texts_def map_filter_simps split: option.splits dest: dlp_scan_Some)

lemma dlp_head_hit_None:
  "dlp_head_hit rl d cx = None \<longleftrightarrow>
     (\<forall>t \<in> set (header_texts (hdr_pairs (rc_headers cx))). \<not> matches_any rl d t) \<and>
     (\<forall>q. uri_query (rc_uri cx) = Some q \<longrightarrow> \<not> matches_any rl d q)"
proof -
  have "dlp_query rl d (rc_uri cx) = None \<longleftrightarrow>
      (\<forall>q. uri_query (rc_uri cx) = Some q \<longrightarrow> \<not> matches_any rl d q)"
    by (cases "uri_query (rc_uri cx)") (simp_all add: dlp_query_def dlp_scan_None)
  then show ?thesis
    using dlp_headers_None [of rl d "hdr_pairs (rc_headers cx)"]
    by (cases "dlp_headers rl d (hdr_pairs (rc_headers cx))") (simp_all add: dlp_head_hit_def)
qed

lemma dlp_finding_passes:
  "dlp_on_match d = OutDeny \<Longrightarrow> (\<exists>ev'. dlp_finding d cx ev hit = Inr (Pass ev')) \<longleftrightarrow> hit = None"
  by (auto simp: dlp_finding_def split: option.split prod.split)


text \<open>A concrete regular expression parameter: a pattern is a fixed text to be found.\<close>

definition text_regex :: "string regex_lib" where
  "text_regex =
     \<lparr>re_new = Inr, re_match = (\<lambda>r t. contains r t), re_str = id\<rparr>"

definition sample_dlp :: "string dlp" where
  "sample_dlp =
     \<lparr>dlp_patterns = [\<lparr>pt_name = ''aws-access-key'', pt_description = ''AWS'', pt_regex = ''AKIA''\<rparr>],
      dlp_scan_request = True, dlp_on_match = OutDeny, dlp_annotate = [], dlp_body_cap = 1024,
      dlp_oversize = OversizeDeny\<rparr>"


text \<open>
  The converse of the coverage: a body with one byte that is not UTF-8 is not scanned at all,
  passes, and leaves no mark in the evidence that it was not scanned.
\<close>

lemma dlp_binary_body_passes_unmarked:
  assumes "dlp_head_hit rl d cx = None" and "rc_body cx = Buffered bytes" and "\<not> utf8_ok bytes"
  shows "dlp_eval rl d cx ev = Inr (Pass ev)"
  using assms by (simp add: dlp_eval_def dlp_finding_def from_utf8_def)

section \<open>CEL rules\<close>

text \<open>
  The crate \<open>cel\<close>: \<open>Program::compile\<close> (or the error's text) and \<open>Program::execute\<close> in a
  context of two variables. A value of a kind the sources never build is \<open>COther\<close>.
\<close>

datatype cel_value =
    CNull
  | CBool bool
  | CInt int
  | CFloat rat
  | CString string
  | CList "cel_value list"
  | CMap "string \<Rightarrow> cel_value option"
  | COther string

record cel_context =
  cel_req :: cel_value
  cel_ev :: cel_value

record 'prog cel_lib =
  cel_compile :: "string \<Rightarrow> string + 'prog"
  cel_execute :: "'prog \<Rightarrow> cel_context \<Rightarrow> string + cel_value"
  cel_debug :: "cel_value \<Rightarrow> string"

text \<open>\<open>u64 as f64\<close> of a number at or above \<open>2 ^ 63\<close>: to even in units of \<open>2 ^ 11\<close>.\<close>

definition f64_of_large :: "nat \<Rightarrow> rat" where
  "f64_of_large n =
    (let q = n div 2048; r = n mod 2048
     in of_nat (2048 * (if 1024 < r \<or> (r = 1024 \<and> odd q) then q + 1 else q)))"

fun cel_number :: "jnumber \<Rightarrow> cel_value" where
  "cel_number (PosInt n) = (if n < 2 ^ 63 then CInt (int n) else CFloat (f64_of_large n))"
| "cel_number (NegInt i) = CInt i"
| "cel_number (Float x) = CFloat x"

fun to_cel :: "json \<Rightarrow> cel_value" where
  "to_cel JNull = CNull"
| "to_cel (JBool b) = CBool b"
| "to_cel (JNum n) = cel_number n"
| "to_cel (JStr s) = CString s"
| "to_cel (JArr items) = CList (map to_cel items)"
| "to_cel (JObj m) = CMap (map_of (map (\<lambda>kv. (fst kv, to_cel (snd kv))) m))"

record 'prog cel_rule =
  rule_source :: string
  rule_program :: 'prog
  rule_verdict :: outcome_cfg
  rule_annotate :: "string list"

record rule_compile_error =
  rce_index :: nat
  rce_expression :: string
  rce_message :: string

fun rules_compile ::
  "('prog, 'x) cel_lib_scheme \<Rightarrow> nat \<Rightarrow> (string \<times> outcome_cfg \<times> string list) list
     \<Rightarrow> rule_compile_error + 'prog cel_rule list" where
  "rules_compile cl i [] = Inr []"
| "rules_compile cl i ((source, verdict, annotate) # specs) =
    (case cel_compile cl source of
       Inl e \<Rightarrow> Inl \<lparr>rce_index = i, rce_expression = source, rce_message = e\<rparr>
     | Inr program \<Rightarrow>
         map_sum id (Cons \<lparr>rule_source = source, rule_program = program, rule_verdict = verdict,
                        rule_annotate = annotate\<rparr>)
           (rules_compile cl (i + 1) specs))"

definition build_context :: "request_context \<Rightarrow> evidence \<Rightarrow> cel_context" where
  "build_context cx ev =
    (let header_names = map to_ascii_lowercase (hdr_keys (rc_headers cx)) in
     \<lparr>cel_req = to_cel (jobj
        [(''method'', JStr (rc_method cx)),
         (''host'', JStr (auth_host (rc_authority cx))),
         (''port'', JNum (PosInt (unat (auth_port (rc_authority cx))))),
         (''path'', JStr (uri_path (rc_uri cx))),
         (''has_query'', JBool (uri_query (rc_uri cx) \<noteq> None)),
         (''headers'', JArr (map JStr header_names))]),
      cel_ev = CMap [''facts'' \<mapsto> CMap (\<lambda>k. map_option to_cel (facts ev k)),
                     ''flags'' \<mapsto> CList (map CString (sorted_list_of_set (flags ev)))]\<rparr>)"

fun rules_loop ::
  "('prog, 'x) cel_lib_scheme \<Rightarrow> cel_context \<Rightarrow> 'prog cel_rule list \<Rightarrow> evidence
     \<Rightarrow> core_error + verdict" where
  "rules_loop cl ctx [] ev = Inr (Pass ev)"
| "rules_loop cl ctx (rule # rest) ev =
    (case cel_execute cl (rule_program rule) ctx of
       Inl e \<Rightarrow> Inl (ELayer ''rules'' (''evaluating `'' @ rule_source rule @ ''`: '' @ e))
     | Inr (CBool b) \<Rightarrow>
         (if \<not> b then rules_loop cl ctx rest ev
          else
            let ev' = fold ev_flag (rule_annotate rule) ev;
                reason = with_rule (rule_source rule)
                  (reason_new ''rules'' ''rule_matched''
                    (''expression `'' @ rule_source rule @ ''` matched''))
            in case rule_verdict rule of
                 OutAllow \<Rightarrow> Inr (Allow reason)
               | OutDeny \<Rightarrow> Inr (Deny reason)
               | OutPass \<Rightarrow> rules_loop cl ctx rest ev')
     | Inr other \<Rightarrow>
         Inl (ELayer ''rules''
           (''expression `'' @ rule_source rule @ ''` produced '' @ cel_debug cl other
            @ '', but a rule must evaluate to a boolean'')))"

definition rules_eval ::
  "('prog, 'x) cel_lib_scheme \<Rightarrow> 'prog cel_rule list \<Rightarrow> request_context \<Rightarrow> evidence
     \<Rightarrow> core_error + verdict" where
  "rules_eval cl rules cx ev = rules_loop cl (build_context cx ev) rules ev"

definition rules_layer :: "('prog, 'x) cel_lib_scheme \<Rightarrow> 'prog cel_rule list \<Rightarrow> 's layer" where
  "rules_layer cl rules =
     \<lparr>ly_name = ''rules'', ly_cost = Cheap, ly_needs_request = True,
      ly_body_requirement = StreamBody, ly_on_error = FailDeny,
      ly_eval = stateless (rules_eval cl rules)\<rparr>"

lemma rules_loop_pass:
  "rules_loop cl ctx rules ev = Inr (Pass ev') \<Longrightarrow> ev_le ev ev' \<and> trail ev' = trail ev"
proof (induction rules arbitrary: ev)
  case (Cons rule rules)
  from Cons.prems show ?case
    by (auto simp: Let_def dest!: Cons.IH
        intro: ev_le_trans [OF ev_le_flags_fold [OF ev_le_refl]]
        split: sum.splits cel_value.splits if_splits outcome_cfg.splits)
qed simp

interpretation rules: policy_layer "stateless (rules_eval cl rules)" for cl rules
  by (rule stateless_layer) (simp add: rules_eval_def rules_loop_pass)

text \<open>
  A rule cannot leak what it cannot see: two requests that agree on method,
  authority, path, on whether there is a query and on the header names are treated alike,
  whatever the query, the header values, the body and everything else of them hold.
\<close>

lemma rules_blind_to_values:
  assumes "rc_method cx = rc_method cx'" and "rc_authority cx = rc_authority cx'"
    and "uri_path (rc_uri cx) = uri_path (rc_uri cx')"
    and "uri_query (rc_uri cx) = None \<longleftrightarrow> uri_query (rc_uri cx') = None"
    and "hdr_keys (rc_headers cx) = hdr_keys (rc_headers cx')"
  shows "rules_eval cl rules cx ev = rules_eval cl rules cx' ev"
  using assms by (simp add: rules_eval_def build_context_def)

definition sample_cel :: "string cel_lib" where
  "sample_cel =
     \<lparr>cel_compile = Inr,
      cel_execute = (\<lambda>p ctx. case cel_req ctx of CMap m \<Rightarrow> Inr (CBool (m ''path'' = Some (CString p)))
        | _ \<Rightarrow> Inl ''no request''),
      cel_debug = (\<lambda>_. ''value'')\<rparr>"

text \<open>
  A rule set decides by its first matching rule that is not an annotation; a rule before it
  that fails, or answers no boolean, stops the evaluation with an error, which the chain turns
  into a refusal.
\<close>

definition answers :: "('prog, 'x) cel_lib_scheme \<Rightarrow> cel_context \<Rightarrow> 'prog cel_rule \<Rightarrow> bool" where
  "answers cl ctx rule \<longleftrightarrow> (\<exists>b. cel_execute cl (rule_program rule) ctx = Inr (CBool b))"

lemma rules_loop_error:
  "(\<exists>e. rules_loop cl ctx rules ev = Inl e) \<longleftrightarrow>
     (\<exists>pre rule post. rules = pre @ rule # post \<and> \<not> answers cl ctx rule \<and>
        (\<forall>r \<in> set pre. answers cl ctx r \<and>
           (cel_execute cl (rule_program r) ctx = Inr (CBool True) \<longrightarrow> rule_verdict r = OutPass)))"
proof (induction rules arbitrary: ev)
  case (Cons rule rules)
  let ?ev = "fold ev_flag (rule_annotate rule) ev"
  have step: "(\<exists>e. rules_loop cl ctx (rule # rules) ev = Inl e) \<longleftrightarrow>
      \<not> answers cl ctx rule \<or> (answers cl ctx rule \<and>
        (cel_execute cl (rule_program rule) ctx = Inr (CBool True) \<longrightarrow> rule_verdict rule = OutPass)) \<and> E"
    if "(\<exists>e. rules_loop cl ctx rules ev = Inl e) \<longleftrightarrow> E"
      "(\<exists>e. rules_loop cl ctx rules ?ev = Inl e) \<longleftrightarrow> E" for E
    unfolding that(1) [symmetric] using that
    by (auto simp: answers_def Let_def split: sum.splits cel_value.splits outcome_cfg.splits)
  show ?case
    unfolding ex_split_Cons using step [OF Cons.IH Cons.IH] by argo
qed simp

end
