(* ===== verification/Mcp.thy ===== *)
theory Mcp
  imports Layers
begin

text \<open>
  Tool-level policy of the Model Context Protocol: \<open>crates/marshal-policy/src/mcp.rs\<close> (the
  compiled policy), \<open>jsonrpc.rs\<close> (what of JSON-RPC it reads) and \<open>layers/mcp.rs\<close>. The crates
  \<open>globset\<close> and \<open>serde_json\<close> (parsing and printing) are the parameters \<open>glob_lib\<close> and
  \<open>json_lib\<close>. The position of a compiled tool stands for its address.
\<close>

record 'gl glob_lib =
  gl_new :: "string \<Rightarrow> string + 'gl"
  gl_match :: "'gl \<Rightarrow> string \<Rightarrow> bool"

section \<open>JSON-RPC\<close>

record tool_call =
  tc_id :: "json option"
  tc_tool :: string
  tc_arguments :: "json option"

datatype message = ToolsCall tool_call | ToolsList "json option" | Other string "json option"

definition parse_request_value :: "json \<Rightarrow> message option" where
  "parse_request_value doc =
    (case get_str doc ''jsonrpc'' of
       None \<Rightarrow> None
     | Some version \<Rightarrow>
         if version \<noteq> ''2.0'' then None
         else (case get_str doc ''method'' of
            None \<Rightarrow> None
          | Some m \<Rightarrow>
              (let rid = jget doc ''id'' in
               if m = ''tools/call'' then
                 (case jget doc ''params'' of
                    None \<Rightarrow> None
                  | Some params \<Rightarrow>
                      (case get_str params ''name'' of
                         None \<Rightarrow> None
                       | Some tool \<Rightarrow>
                           Some (ToolsCall \<lparr>tc_id = rid, tc_tool = tool,
                                            tc_arguments = jget params ''arguments''\<rparr>)))
               else if m = ''tools/list'' then Some (ToolsList rid)
               else Some (Other m rid))))"

definition parse_request :: "json_lib \<Rightarrow> byte list \<Rightarrow> message option" where
  "parse_request js body = Option.bind (jl_parse js body) parse_request_value"

definition error_response :: "json option \<Rightarrow> int \<Rightarrow> string \<Rightarrow> json" where
  "error_response rid code message =
     jobj [(''jsonrpc'', JStr ''2.0''), (''id'', unwrap_or JNull rid),
       (''error'', jobj
          [(''code'', JNum (if code < 0 then NegInt code else PosInt (nat code))),
           (''message'', JStr message)])]"

text \<open>The closure of \<open>retain\<close>: what is kept, and the names of what is not, in order.\<close>

fun retain_tools :: "(string \<Rightarrow> bool) \<Rightarrow> json list \<Rightarrow> json list \<times> string list" where
  "retain_tools visible [] = ([], [])"
| "retain_tools visible (tool # tools) =
    (case retain_tools visible tools of (kept, removed) \<Rightarrow>
       (case get_str tool ''name'' of
          None \<Rightarrow> (kept, ''<unnamed>'' # removed)
        | Some name \<Rightarrow>
            if visible name then (tool # kept, removed) else (kept, name # removed)))"

fun jset :: "string \<Rightarrow> json \<Rightarrow> json \<Rightarrow> json" where
  "jset k v (JObj m) = JObj (map (\<lambda>(k', w). if k' = k then (k', v) else (k', w)) m)"
| "jset k v j = j"

definition filter_tools_list :: "(string \<Rightarrow> bool) \<Rightarrow> json \<Rightarrow> json \<times> string list" where
  "filter_tools_list visible doc =
    (case jget doc ''result'' of
       None \<Rightarrow> (doc, [])
     | Some result \<Rightarrow>
         (case get_array result ''tools'' of
            None \<Rightarrow> (doc, [])
          | Some tools \<Rightarrow>
              (case retain_tools visible tools of (kept, removed) \<Rightarrow>
                 (jset ''result'' (jset ''tools'' (JArr kept) result) doc, removed))))"

section \<open>The compiled policy\<close>

datatype mcp_config_error =
    ToolPattern string string
  | ConstraintRegex string string string
  | McpHost pattern_error

datatype refusal = UnknownTool | ConstraintFailed string string

fun refusal_code :: "refusal \<Rightarrow> string" where
  "refusal_code UnknownTool = ''mcp_tool_not_permitted''"
| "refusal_code (ConstraintFailed _ _) = ''mcp_argument_not_permitted''"

record 're compiled_constraint =
  cc_path :: string
  cc_equals :: "json option"
  cc_one_of :: "json list option"
  cc_matches :: "'re option"

record ('re, 'gl) compiled_tool =
  ct_pattern :: string
  ct_matcher :: 'gl
  ct_when :: "'re compiled_constraint list"

record ('net, 're, 'gl) compiled_server =
  cs_hosts :: "'net host_matcher"
  cs_tools :: "('re, 'gl) compiled_tool list"

text \<open>\<open>collect\<close> into a \<open>Result\<close>: all the values, or the first error.\<close>

fun collect :: "('e + 'a) list \<Rightarrow> 'e + 'a list" where
  "collect [] = Inr []"
| "collect (Inl e # rs) = Inl e"
| "collect (Inr x # rs) = map_sum id (Cons x) (collect rs)"

definition compile_constraint ::
  "('re, 'x) regex_lib_scheme \<Rightarrow> mcp_arg_constraint \<Rightarrow> mcp_config_error + 're compiled_constraint"
where
  "compile_constraint rl c =
    (let compiled = (\<lambda>m. \<lparr>cc_path = mac_path c, cc_equals = mac_equals c,
                          cc_one_of = mac_one_of c, cc_matches = m\<rparr>)
     in case mac_matches c of
          None \<Rightarrow> Inr (compiled None)
        | Some r \<Rightarrow>
            (case re_new rl r of
               Inl e \<Rightarrow> Inl (ConstraintRegex (mac_path c) r e)
             | Inr re \<Rightarrow> Inr (compiled (Some re))))"

definition compile_tool ::
  "('re, 'x) regex_lib_scheme \<Rightarrow> ('gl, 'y) glob_lib_scheme \<Rightarrow> mcp_tool
     \<Rightarrow> mcp_config_error + ('re, 'gl) compiled_tool" where
  "compile_tool rl gl tool =
    (case gl_new gl (mt_name tool) of
       Inl e \<Rightarrow> Inl (ToolPattern (mt_name tool) e)
     | Inr m \<Rightarrow>
         map_sum id (\<lambda>w. \<lparr>ct_pattern = mt_name tool, ct_matcher = m, ct_when = w\<rparr>)
           (collect (map (compile_constraint rl) (mt_when tool))))"

fun policy_compile ::
  "('net, 'w) ipnet_scheme \<Rightarrow> ('re, 'x) regex_lib_scheme \<Rightarrow> ('gl, 'y) glob_lib_scheme
     \<Rightarrow> mcp_server list \<Rightarrow> mcp_config_error + ('net, 're, 'gl) compiled_server list" where
  "policy_compile net rl gl [] = Inr []"
| "policy_compile net rl gl (server # servers) =
    (let domains = List.map_filter mhr_host (ms_rules server);
         cidrs = List.map_filter mhr_cidr (ms_rules server)
     in case matcher_new net domains cidrs of
          Inl e \<Rightarrow> Inl (McpHost e)
        | Inr hosts \<Rightarrow>
            (case collect (map (compile_tool rl gl) (ms_tools server)) of
               Inl e \<Rightarrow> Inl e
             | Inr tools \<Rightarrow>
                 map_sum id (Cons \<lparr>cs_hosts = hosts, cs_tools = tools\<rparr>)
                   (policy_compile net rl gl servers)))"

text \<open>\<open>path.split('.').try_fold(value, get)\<close>\<close>

fun lookup_segments :: "json \<Rightarrow> string list \<Rightarrow> json option" where
  "lookup_segments v [] = Some v"
| "lookup_segments v (k # ks) = Option.bind (jget v k) (\<lambda>w. lookup_segments w ks)"

definition lookup_path :: "json \<Rightarrow> string \<Rightarrow> json option" where
  "lookup_path v path = lookup_segments v (split_on (CHR ''.'') path)"

fun render_value :: "json_lib \<Rightarrow> json \<Rightarrow> string" where
  "render_value js (JStr s) = ''`'' @ s @ ''`''"
| "render_value js other = ''`'' @ jl_show js other @ ''`''"

definition check_constraint ::
  "('re, 'x) regex_lib_scheme \<Rightarrow> json_lib \<Rightarrow> string \<Rightarrow> json option \<Rightarrow> 're compiled_constraint
     \<Rightarrow> refusal option" where
  "check_constraint rl js pattern arguments c =
    (let failed = (\<lambda>detail. Some (ConstraintFailed (cc_path c) detail)) in
     case Option.bind arguments (\<lambda>a. lookup_path a (cc_path c)) of
       None \<Rightarrow>
         failed (''`'' @ pattern @ ''` requires argument `'' @ cc_path c
           @ ''`, which was not supplied'')
     | Some value \<Rightarrow>
         if case_option False (\<lambda>expected. value \<noteq> expected) (cc_equals c)
         then failed (''`'' @ cc_path c @ ''` must equal '' @ render_value js (the (cc_equals c)))
         else if case_option False (\<lambda>allowed. value \<notin> set allowed) (cc_one_of c)
         then failed (''`'' @ cc_path c @ ''` must be one of ''
           @ join '', '' (map (render_value js) (the (cc_one_of c))))
         else (case cc_matches c of
            None \<Rightarrow> None
          | Some re \<Rightarrow>
              (let text = (case as_str value of Some s \<Rightarrow> s | None \<Rightarrow> jl_show js value) in
               if re_match rl re text then None
               else failed (''`'' @ cc_path c @ ''` must match /'' @ re_str rl re @ ''/''))))"

fun check_constraints ::
  "('re, 'x) regex_lib_scheme \<Rightarrow> json_lib \<Rightarrow> string \<Rightarrow> json option \<Rightarrow> 're compiled_constraint list
     \<Rightarrow> refusal + unit" where
  "check_constraints rl js pattern arguments [] = Inr ()"
| "check_constraints rl js pattern arguments (c # cs) =
    (case check_constraint rl js pattern arguments c of
       Some r \<Rightarrow> Inl r
     | None \<Rightarrow> check_constraints rl js pattern arguments cs)"


record ('net, 're, 'gl) mcp_libs =
  mcl_net :: "'net ipnet"
  mcl_re :: "'re regex_lib"
  mcl_gl :: "'gl glob_lib"
  mcl_js :: json_lib

type_synonym ('net, 're, 'gl) mcp_policy = "('net, 're, 'gl) compiled_server list"

definition server_governs ::
  "('net, 're, 'gl) mcp_libs \<Rightarrow> string \<Rightarrow> ('net, 're, 'gl) compiled_server \<Rightarrow> bool" where
  "server_governs L host server \<longleftrightarrow> host_matches (mcl_net L) (cs_hosts server) host \<noteq> None"

definition governs ::
  "('net, 're, 'gl) mcp_libs \<Rightarrow> ('net, 're, 'gl) mcp_policy \<Rightarrow> string \<Rightarrow> bool" where
  "governs L policy host \<longleftrightarrow> (\<exists>s \<in> set policy. server_governs L host s)"

definition tool_named :: "('net, 're, 'gl) mcp_libs \<Rightarrow> string \<Rightarrow> ('re, 'gl) compiled_tool \<Rightarrow> bool" where
  "tool_named L tool c \<longleftrightarrow> gl_match (mcl_gl L) (ct_matcher c) tool"

definition tool_check ::
  "('net, 're, 'gl) mcp_libs \<Rightarrow> json option \<Rightarrow> ('re, 'gl) compiled_tool \<Rightarrow> refusal + unit" where
  "tool_check L arguments c =
     check_constraints (mcl_re L) (mcl_js L) (ct_pattern c) arguments (ct_when c)"

definition no_other_match ::
  "('net, 're, 'gl) mcp_libs \<Rightarrow> ('net, 're, 'gl) mcp_policy \<Rightarrow> string \<Rightarrow> string \<Rightarrow> json option
     \<Rightarrow> nat \<times> nat \<Rightarrow> bool" where
  "no_other_match L policy host tool arguments skip \<longleftrightarrow>
    \<not> (\<exists>(i, server) \<in> set (List.enumerate 0 policy).
         server_governs L host server \<and>
         (\<exists>(j, c) \<in> set (List.enumerate 0 (cs_tools server)).
            (i, j) \<noteq> skip \<and> tool_named L tool c \<and> tool_check L arguments c = Inr ()))"

fun check_tools ::
  "('net, 're, 'gl) mcp_libs \<Rightarrow> ('net, 're, 'gl) mcp_policy \<Rightarrow> string \<Rightarrow> string \<Rightarrow> json option
     \<Rightarrow> nat \<Rightarrow> nat \<Rightarrow> ('re, 'gl) compiled_tool list \<Rightarrow> (refusal + unit) option" where
  "check_tools L policy host tool arguments i j [] = None"
| "check_tools L policy host tool arguments i j (candidate # rest) =
    (if \<not> tool_named L tool candidate
     then check_tools L policy host tool arguments i (j + 1) rest
     else case tool_check L arguments candidate of
       Inr _ \<Rightarrow> Some (Inr ())
     | Inl refusal \<Rightarrow>
         if no_other_match L policy host tool arguments (i, j) then Some (Inl refusal)
         else check_tools L policy host tool arguments i (j + 1) rest)"

fun check_servers ::
  "('net, 're, 'gl) mcp_libs \<Rightarrow> ('net, 're, 'gl) mcp_policy \<Rightarrow> string \<Rightarrow> string \<Rightarrow> json option
     \<Rightarrow> nat \<Rightarrow> bool \<Rightarrow> ('net, 're, 'gl) compiled_server list \<Rightarrow> refusal + unit" where
  "check_servers L policy host tool arguments i governed [] =
     (if governed then Inl UnknownTool else Inr ())"
| "check_servers L policy host tool arguments i governed (server # rest) =
    (if \<not> server_governs L host server
     then check_servers L policy host tool arguments (i + 1) governed rest
     else case check_tools L policy host tool arguments i 0 (cs_tools server) of
       Some r \<Rightarrow> r
     | None \<Rightarrow> check_servers L policy host tool arguments (i + 1) True rest)"

definition check_call ::
  "('net, 're, 'gl) mcp_libs \<Rightarrow> ('net, 're, 'gl) mcp_policy \<Rightarrow> string \<Rightarrow> string \<Rightarrow> json option
     \<Rightarrow> refusal + unit" where
  "check_call L policy host tool arguments =
     check_servers L policy host tool arguments 0 False policy"

fun visible_servers ::
  "('net, 're, 'gl) mcp_libs \<Rightarrow> string \<Rightarrow> string \<Rightarrow> bool \<Rightarrow> ('net, 're, 'gl) compiled_server list
     \<Rightarrow> bool" where
  "visible_servers L host tool governed [] = (\<not> governed)"
| "visible_servers L host tool governed (server # rest) =
    (if \<not> server_governs L host server then visible_servers L host tool governed rest
     else if list_ex (tool_named L tool) (cs_tools server) then True
     else visible_servers L host tool True rest)"

definition tool_is_visible ::
  "('net, 're, 'gl) mcp_libs \<Rightarrow> ('net, 're, 'gl) mcp_policy \<Rightarrow> string \<Rightarrow> string \<Rightarrow> bool" where
  "tool_is_visible L policy host tool = visible_servers L host tool False policy"

section \<open>The layer\<close>

definition record_id :: "json option \<Rightarrow> evidence \<Rightarrow> evidence" where
  "record_id rid ev = (case rid of None \<Rightarrow> ev | Some v \<Rightarrow> record_ev ''mcp.request_id'' v ev)"

definition mcp_method :: "string \<Rightarrow> evidence \<Rightarrow> evidence" where
  "mcp_method m ev = record_ev ''mcp.method'' (JStr m) ev"

definition mcp_refusal_message :: "request_context \<Rightarrow> string \<Rightarrow> refusal \<Rightarrow> string" where
  "mcp_refusal_message cx tool r =
    (case r of
       UnknownTool \<Rightarrow>
         ''the tool `'' @ tool @ ''` is not permitted on `'' @ auth_host (rc_authority cx)
         @ ''` by profile `'' @ rc_profile cx @ ''`''
     | ConstraintFailed _ detail \<Rightarrow> detail)"

definition mcp_eval ::
  "('net, 're, 'gl) mcp_libs \<Rightarrow> ('net, 're, 'gl) mcp_policy \<Rightarrow> nat \<Rightarrow> request_context \<Rightarrow> evidence
     \<Rightarrow> core_error + verdict" where
  "mcp_eval L policy body_cap cx ev =
    (let host = auth_host (rc_authority cx) in
     if \<not> governs L policy host then Inr (Pass ev)
     else case rc_body cx of
       Empty \<Rightarrow> Inr (Pass ev)
     | Buffered bytes \<Rightarrow>
         (case parse_request (mcl_js L) bytes of
            None \<Rightarrow> Inr (Pass ev)
          | Some (ToolsList rid) \<Rightarrow>
              Inr (Pass (ev_flag ''McpToolsList'' (record_id rid (mcp_method ''tools/list'' ev))))
          | Some (Other m rid) \<Rightarrow> Inr (Pass (record_id rid (mcp_method m ev)))
          | Some (ToolsCall call) \<Rightarrow>
              (case check_call L policy host (tc_tool call) (tc_arguments call) of
                 Inr _ \<Rightarrow>
                   Inr (Pass (record_id (tc_id call)
                     (record_ev ''mcp.tool'' (JStr (tc_tool call))
                       (mcp_method ''tools/call'' ev))))
               | Inl r \<Rightarrow>
                   Inr (Deny (with_rule (tc_tool call)
                     (reason_new ''mcp'' (refusal_code r)
                       (mcp_refusal_message cx (tc_tool call) r))))))
     | _ \<Rightarrow>
         Inr (Deny (reason_new ''mcp'' ''mcp_body_too_large''
           (''a request to the MCP server `'' @ host @ ''` exceeded the '' @ show_nat body_cap
            @ '' byte inspection cap, so its tool call could not be checked''))))"

definition mcp_layer ::
  "('net, 're, 'gl) mcp_libs \<Rightarrow> ('net, 're, 'gl) mcp_policy \<Rightarrow> nat \<Rightarrow> 's layer" where
  "mcp_layer L policy body_cap =
     \<lparr>ly_name = ''mcp'', ly_cost = Cheap, ly_needs_request = True,
      ly_body_requirement = BufferBody body_cap, ly_on_error = FailDeny,
      ly_eval = stateless (mcp_eval L policy body_cap)\<rparr>"

lemma trail_record_id [simp]: "trail (record_id rid ev) = trail ev"
  by (simp add: record_id_def split: option.split)

lemma ev_le_record_id [evidence_mono]: "ev_le a b \<Longrightarrow> ev_le a (record_id rid b)"
  by (auto simp: record_id_def intro: evidence_mono split: option.split)

interpretation mcp: policy_layer "stateless (mcp_eval L policy body_cap)" for L policy body_cap
proof (rule stateless_layer)
  fix cx ev ev'
  assume "mcp_eval L policy body_cap cx ev = Inr (Pass ev')"
  then show "ev_le ev ev' \<and> trail ev' = trail ev"
    by (auto simp: mcp_eval_def Let_def mcp_method_def intro!: evidence_mono
        split: option.splits body_handle.splits if_splits message.splits sum.splits)
qed


section \<open>What the policy permits\<close>

text \<open>
  The specification: the candidates for a call are the entries that name the tool, over all
  servers that govern the host, in configuration order; the entries are alternatives.
\<close>

definition candidates ::
  "('net, 're, 'gl) mcp_libs \<Rightarrow> ('net, 're, 'gl) mcp_policy \<Rightarrow> string \<Rightarrow> string
     \<Rightarrow> ('re, 'gl) compiled_tool list" where
  "candidates L policy host tool =
     filter (tool_named L tool) (concat (map cs_tools (filter (server_governs L host) policy)))"

definition permitted ::
  "('net, 're, 'gl) mcp_libs \<Rightarrow> ('net, 're, 'gl) mcp_policy \<Rightarrow> string \<Rightarrow> string \<Rightarrow> json option
     \<Rightarrow> bool" where
  "permitted L policy host tool arguments \<longleftrightarrow>
     (\<exists>c \<in> set (candidates L policy host tool). tool_check L arguments c = Inr ())"

lemma in_enumerate: "(i, x) \<in> set (List.enumerate 0 xs) \<longleftrightarrow> i < length xs \<and> xs ! i = x"
  by (auto simp: in_set_enumerate_eq)

lemma set_candidates:
  "c \<in> set (candidates L policy host tool) \<longleftrightarrow>
     (\<exists>i j. i < length policy \<and> server_governs L host (policy ! i) \<and>
        j < length (cs_tools (policy ! i)) \<and> cs_tools (policy ! i) ! j = c \<and> tool_named L tool c)"
  by (auto simp: candidates_def set_conv_nth [of policy] set_conv_nth [of "cs_tools _"])

lemma permitted_positions:
  "permitted L policy host tool arguments \<longleftrightarrow>
     (\<exists>i j. i < length policy \<and> server_governs L host (policy ! i) \<and>
        j < length (cs_tools (policy ! i)) \<and> tool_named L tool (cs_tools (policy ! i) ! j) \<and>
        tool_check L arguments (cs_tools (policy ! i) ! j) = Inr ())"
  by (simp only: permitted_def Bex_def set_candidates) blast

lemma no_other_match_positions:
  "no_other_match L policy host tool arguments skip \<longleftrightarrow>
     \<not> (\<exists>i j. i < length policy \<and> server_governs L host (policy ! i) \<and>
        j < length (cs_tools (policy ! i)) \<and> (i, j) \<noteq> skip \<and>
        tool_named L tool (cs_tools (policy ! i) ! j) \<and>
        tool_check L arguments (cs_tools (policy ! i) ! j) = Inr ())"
  by (force simp: no_other_match_def in_enumerate)

lemma no_other_match_permitted:
  assumes "tool_check L arguments (cs_tools (policy ! i) ! j) \<noteq> Inr ()"
  shows "no_other_match L policy host tool arguments (i, j) \<longleftrightarrow>
    \<not> permitted L policy host tool arguments"
  unfolding no_other_match_positions permitted_positions using assms by blast

lemma candidates_Cons:
  "candidates L (s # ss) host tool =
     (if server_governs L host s then filter (tool_named L tool) (cs_tools s) else [])
     @ candidates L ss host tool"
  by (simp add: candidates_def)

lemma governs_Cons: "governs L (s # ss) host \<longleftrightarrow> server_governs L host s \<or> governs L ss host"
  by (simp add: governs_def)

lemma permitted_Cons:
  "permitted L (s # ss) host tool arguments \<longleftrightarrow>
     server_governs L host s \<and>
       (\<exists>c \<in> set (cs_tools s). tool_named L tool c \<and> tool_check L arguments c = Inr ())
     \<or> permitted L ss host tool arguments"
  by (auto simp: permitted_def candidates_Cons)

lemma drop_ConsD: "drop i xs = y # ys \<Longrightarrow> i < length xs \<and> xs ! i = y \<and> drop (i + 1) xs = ys"
  by (metis Cons_nth_drop_Suc Suc_eq_plus1 drop_all leI list.discI list.inject)

lemma check_tools_eq:
  assumes "i < length policy" "drop j (cs_tools (policy ! i)) = tools"
  shows "check_tools L policy host tool arguments i j tools =
    (if permitted L policy host tool arguments
     then (if \<exists>c \<in> set tools. tool_named L tool c \<and> tool_check L arguments c = Inr ()
           then Some (Inr ()) else None)
     else (case filter (tool_named L tool) tools of
             [] \<Rightarrow> None | c # _ \<Rightarrow> Some (tool_check L arguments c)))"
  using assms
proof (induction tools arbitrary: j)
  case (Cons c tools)
  note j = drop_ConsD [OF Cons.prems(2)]
  have IH: "check_tools L policy host tool arguments i (j + 1) tools =
    (if permitted L policy host tool arguments
     then (if \<exists>c \<in> set tools. tool_named L tool c \<and> tool_check L arguments c = Inr ()
           then Some (Inr ()) else None)
     else (case filter (tool_named L tool) tools of
             [] \<Rightarrow> None | c # _ \<Rightarrow> Some (tool_check L arguments c)))"
    using Cons.prems j by (intro Cons.IH) simp_all
  show ?case
    using no_other_match_permitted [of L arguments policy i j host tool] j IH
    by (cases "tool_check L arguments c") auto
qed simp

lemma check_servers_eq:
  assumes "drop i policy = servers"
  shows "check_servers L policy host tool arguments i governed servers =
    (if permitted L policy host tool arguments
     then (if permitted L servers host tool arguments \<or> (\<not> governed \<and> \<not> governs L servers host)
           then Inr () else Inl UnknownTool)
     else (case candidates L servers host tool of
             c # _ \<Rightarrow> tool_check L arguments c
           | [] \<Rightarrow> if governed \<or> governs L servers host then Inl UnknownTool else Inr ()))"
  using assms
proof (induction servers arbitrary: i governed)
  case Nil
  then show ?case
    by (simp add: permitted_def candidates_def governs_def)
next
  case (Cons server servers)
  note i = drop_ConsD [OF Cons.prems]
  have IH: "check_servers L policy host tool arguments (Suc i) g servers =
    (if permitted L policy host tool arguments
     then (if permitted L servers host tool arguments \<or> (\<not> g \<and> \<not> governs L servers host)
           then Inr () else Inl UnknownTool)
     else (case candidates L servers host tool of
             c # _ \<Rightarrow> tool_check L arguments c
           | [] \<Rightarrow> if g \<or> governs L servers host then Inl UnknownTool else Inr ()))" for g
    using i by (intro Cons.IH) simp
  have tools: "check_tools L policy host tool arguments i 0 (cs_tools server) =
    (if permitted L policy host tool arguments
     then (if \<exists>c \<in> set (cs_tools server). tool_named L tool c \<and> tool_check L arguments c = Inr ()
           then Some (Inr ()) else None)
     else (case filter (tool_named L tool) (cs_tools server) of
             [] \<Rightarrow> None | c # _ \<Rightarrow> Some (tool_check L arguments c)))"
    using i by (intro check_tools_eq) simp_all
  show ?case
  proof (cases "server_governs L host server")
    case True
    then show ?thesis
      by (cases "filter (tool_named L tool) (cs_tools server)";
          cases "\<exists>c \<in> set (cs_tools server). tool_named L tool c \<and> tool_check L arguments c = Inr ()")
        (auto simp: tools IH candidates_Cons governs_Cons permitted_Cons)
  next
    case False
    then show ?thesis
      by (simp add: IH candidates_Cons governs_Cons permitted_Cons)
  qed
qed

lemma ungoverned_no_candidates: "\<not> governs L policy host \<Longrightarrow> candidates L policy host tool = []"
  by (auto simp: governs_def candidates_def filter_empty_conv)

lemma check_call_eq:
  "check_call L policy host tool arguments =
    (if \<not> governs L policy host \<or> permitted L policy host tool arguments then Inr ()
     else case candidates L policy host tool of
       [] \<Rightarrow> Inl UnknownTool
     | c # _ \<Rightarrow> tool_check L arguments c)"
  using check_servers_eq [of 0 policy policy L host tool arguments False]
  by (cases "governs L policy host")
    (simp_all add: check_call_def permitted_def ungoverned_no_candidates)

text \<open>
  C28 (functional). The nested search with its pointer comparison computes the simple policy:
  a host no server governs is not its business; otherwise a call is permitted exactly when
  some entry naming the tool has all its constraints met, in whatever order the entries stand;
  a refused call reports the first entry's failed constraint, or that no entry names the tool.
\<close>

theorem check_call_is_policy:
  "check_call L policy host tool arguments =
    (if governs L policy host \<and> \<not> permitted L policy host tool arguments
     then (case candidates L policy host tool of
       [] \<Rightarrow> Inl UnknownTool
     | c # _ \<Rightarrow> tool_check L arguments c)
     else Inr ())"
  by (simp add: check_call_eq)

lemma check_constraint_not_unknown: "check_constraint rl js p a c \<noteq> Some UnknownTool"
  by (auto simp: check_constraint_def Let_def split: option.splits if_splits)

lemma tool_check_not_unknown: "tool_check L arguments c \<noteq> Inl UnknownTool"
proof -
  have "check_constraints rl js p a cs \<noteq> Inl UnknownTool" for rl js p a cs
    by (induction cs) (auto simp: check_constraint_not_unknown split: option.split)
  then show ?thesis
    by (simp add: tool_check_def)
qed

lemma visible_candidates:
  "visible_servers L host tool g servers \<longleftrightarrow>
     candidates L servers host tool \<noteq> [] \<or> (\<not> g \<and> \<not> governs L servers host)"
  by (induction servers arbitrary: g)
    (auto simp: candidates_def governs_def list_ex_iff filter_empty_conv)

text \<open>The listing and the gate, for what is built from both.\<close>

lemma hidden_iff_unknown:
  "\<not> tool_is_visible L policy host tool \<longleftrightarrow>
     check_call L policy host tool arguments = Inl UnknownTool"
  using ungoverned_no_candidates [of L policy host tool] tool_check_not_unknown [of L arguments]
  by (auto simp: check_call_eq tool_is_visible_def visible_candidates permitted_def
      split: list.split)

text \<open>
  The filtered \<open>tools/list\<close> and the gate on \<open>tools/call\<close> agree: a tool is hidden
  from the agent exactly when every call of it, with any arguments, is refused as unknown.
\<close>

lemma hidden_tools_are_unknown:
  "\<not> tool_is_visible L policy host tool \<longleftrightarrow>
     check_call L policy host tool arguments = Inl UnknownTool"
  by (rule hidden_iff_unknown)

end
