(* ===== verification/Transforms.thy ===== *)
theory Transforms
  imports Mcp
begin

text \<open>
  \<open>crates/marshal-policy/src/transforms.rs\<close>: setting and filtering headers, bounding response
  bodies, and hiding refused tools from a \<open>tools/list\<close> answer. A transform maps the request
  context or the response parts to their new value.
\<close>

section \<open>Headers\<close>

definition set_request_headers ::
  "(string \<times> string) list \<Rightarrow> request_context \<Rightarrow> request_context" where
  "set_request_headers hs cx =
     cx\<lparr>rc_headers := fold (\<lambda>(name, value) h. hdr_insert name value h) hs (rc_headers cx)\<rparr>"

datatype header_filter_mode = FilterAllow "string list" | FilterDeny "string list"

text \<open>
  The backtracking matcher of \<open>header_glob_matches\<close>; it ends because every step shortens the
  pattern or the name.
\<close>

fun glob_rec :: "string \<Rightarrow> string \<Rightarrow> bool" where
  "glob_rec [] s = (s = [])"
| "glob_rec (pc # prest) s =
    (if pc = CHR ''*''
     then glob_rec prest s \<or> (case s of [] \<Rightarrow> False | _ # tail \<Rightarrow> glob_rec (pc # prest) tail)
     else (case s of
        [] \<Rightarrow> False
      | sc # srest \<Rightarrow> lower_char pc = lower_char sc \<and> glob_rec prest srest))"

definition header_glob_matches :: "string \<Rightarrow> string \<Rightarrow> bool" where
  "header_glob_matches pattern name = glob_rec pattern name"

definition header_filter_drops ::
  "header_filter_mode \<Rightarrow> (string \<Rightarrow> bool) \<Rightarrow> string \<Rightarrow> bool" where
  "header_filter_drops mode is_managed name =
    (case (case mode of FilterAllow ps \<Rightarrow> (ps, True) | FilterDeny ps \<Rightarrow> (ps, False)) of
       (patterns, keep_on_match) \<Rightarrow>
         if is_managed name then False
         else (\<exists>p \<in> set patterns. header_glob_matches p name) \<noteq> keep_on_match)"

definition header_filter_apply ::
  "headers \<Rightarrow> header_filter_mode \<Rightarrow> (string \<Rightarrow> bool) \<Rightarrow> headers" where
  "header_filter_apply h mode is_managed =
     fold hdr_remove (filter (header_filter_drops mode is_managed) (hdr_keys h)) h"

definition request_header_filter :: "header_filter_mode \<Rightarrow> request_context \<Rightarrow> request_context" where
  "request_header_filter mode cx =
     cx\<lparr>rc_headers := header_filter_apply (rc_headers cx) mode request_header_is_managed\<rparr>"

definition response_header_filter :: "header_filter_mode \<Rightarrow> response_parts \<Rightarrow> response_parts" where
  "response_header_filter mode resp =
     resp\<lparr>rp_headers := header_filter_apply (rp_headers resp) mode response_header_is_managed\<rparr>"

subsection \<open>Facts about the glob\<close>

text \<open>The language of a pattern: a star is any text, another character itself in either case.\<close>

inductive glob_lang :: "string \<Rightarrow> string \<Rightarrow> bool" where
  empty: "glob_lang [] []"
| star: "glob_lang p s \<Longrightarrow> glob_lang (CHR ''*'' # p) (t @ s)"
| char: "lower_char c = lower_char d \<Longrightarrow> c \<noteq> CHR ''*'' \<Longrightarrow> glob_lang p s \<Longrightarrow> glob_lang (c # p) (d # s)"

inductive_cases glob_emptyE: "glob_lang [] s"
inductive_cases glob_starE: "glob_lang (CHR ''*'' # p) s"
inductive_cases glob_charE: "glob_lang (c # p) s"

lemma glob_rec_sound: "glob_rec p s \<Longrightarrow> glob_lang p s"
proof (induction p s rule: glob_rec.induct)
  case (1 s)
  then show ?case
    by (simp add: glob_lang.empty)
next
  case (2 pc prest s)
  show ?case
  proof (cases "pc = CHR ''*''")
    case star: True
    show ?thesis
    proof (cases "glob_rec prest s")
      case True
      with 2 star show ?thesis
        using glob_lang.star [of prest s "[]"] by simp
    next
      case False
      with "2.prems" star obtain c tail where s: "s = c # tail" "glob_rec (pc # prest) tail"
        by (auto split: list.splits)
      with "2.IH" star have "glob_lang (CHR ''*'' # prest) tail"
        by auto
      then obtain t u where "tail = t @ u" "glob_lang prest u"
        by (auto elim: glob_starE)
      with s star show ?thesis
        using glob_lang.star [of prest u "c # t"] by simp
    qed
  next
    case False
    with 2 show ?thesis
      by (auto intro: glob_lang.char split: list.splits)
  qed
qed

lemma glob_rec_star_skip: "glob_rec p s \<Longrightarrow> glob_rec (CHR ''*'' # p) (t @ s)"
  by (induction t) simp_all

lemma glob_rec_complete: "glob_lang p s \<Longrightarrow> glob_rec p s"
proof (induction rule: glob_lang.induct)
  case (star p s t)
  from star.IH show ?case
    by (rule glob_rec_star_skip)
qed simp_all

lemma glob_matches_lang: "header_glob_matches p s \<longleftrightarrow> glob_lang p s"
  using glob_rec_sound glob_rec_complete by (auto simp: header_glob_matches_def)

lemma get_all_fold_remove:
  "hdr_get_all (fold hdr_remove ns h) k = (if k \<in> set ns then [] else hdr_get_all h k)"
  by (induction ns arbitrary: h) auto

lemma get_all_absent: "k \<notin> set (hdr_keys h) \<Longrightarrow> hdr_get_all h k = []"
  by (force simp: hdr_get_all_def hdr_keys_def dest: map_of_SomeD split: option.splits)

text \<open>
  A header filter is exact: every header that frames the message survives
  whatever the patterns say; of the others an allow list keeps exactly those whose name is in
  the language of some pattern, a deny list exactly those in none; and what is kept keeps all
  its values, in order.
\<close>

lemma header_filter_exact:
  "hdr_get_all (header_filter_apply h mode is_managed) k =
    (if is_managed k \<or>
        (case mode of
           FilterAllow ps \<Rightarrow> \<exists>p \<in> set ps. glob_lang p k
         | FilterDeny ps \<Rightarrow> \<forall>p \<in> set ps. glob_lang p k = False)
     then hdr_get_all h k else [])"
proof (cases "k \<in> set (hdr_keys h)")
  case True
  then show ?thesis
    by (auto simp: header_filter_apply_def get_all_fold_remove header_filter_drops_def
        glob_matches_lang split: header_filter_mode.splits)
next
  case False
  then show ?thesis
    by (simp add: header_filter_apply_def get_all_fold_remove get_all_absent)
qed

lemma managed_request_headers_survive:
  "request_header_is_managed k \<Longrightarrow>
     hdr_get_all (rc_headers (request_header_filter mode cx)) k = hdr_get_all (rc_headers cx) k"
  by (cases "k \<in> set (hdr_keys (rc_headers cx))")
    (auto simp: request_header_filter_def header_filter_apply_def get_all_fold_remove
      header_filter_drops_def get_all_absent split: header_filter_mode.splits)

section \<open>Bounding a response\<close>

record response_limiter =
  rl_max_bytes :: nat
  rl_on_oversize :: response_oversize_action

definition content_encoding :: string where "content_encoding = ''content-encoding''"
definition content_length :: string where "content_length = ''content-length''"
definition content_type :: string where "content_type = ''content-type''"

definition replace_body :: "response_parts \<Rightarrow> byte list \<Rightarrow> string \<Rightarrow> response_parts" where
  "replace_body resp body act =
     resp\<lparr>rp_headers :=
        hdr_insert ''x-marshal-response-limited'' act
          (hdr_insert content_length (show_nat (length body))
            (hdr_remove content_encoding (rp_headers resp))),
      rp_body := Buffered body\<rparr>"

definition utf8_prefix_len :: "byte list \<Rightarrow> nat \<Rightarrow> nat" where
  "utf8_prefix_len bytes limit =
    (let end = min (length bytes) limit in
     if utf8_ok (take end bytes) then end else utf8_valid_up_to (take end bytes))"

definition truncate_body ::
  "response_limiter \<Rightarrow> byte list \<Rightarrow> truncation_method \<Rightarrow> string \<Rightarrow> byte list" where
  "truncate_body rl source meth marker =
    (let marker_end = (case meth of
           TruncBytes \<Rightarrow> min (length marker) (rl_max_bytes rl)
         | TruncUtf8 \<Rightarrow> utf8_prefix_len (bytes_of marker) (rl_max_bytes rl));
         mark = take marker_end (bytes_of marker);
         prefix_budget = rl_max_bytes rl - length mark;
         prefix_end = (case meth of
           TruncBytes \<Rightarrow> min (length source) prefix_budget
         | TruncUtf8 \<Rightarrow> utf8_prefix_len source prefix_budget)
     in take prefix_end source @ mark)"

definition raw_oversized :: "response_limiter \<Rightarrow> body_handle \<Rightarrow> (byte list \<times> nat) option" where
  "raw_oversized rl body =
    (case body of
       Buffered source \<Rightarrow>
         if rl_max_bytes rl < length source then Some (source, length source) else None
     | OverLimit pre _ seen \<Rightarrow> Some (pre, seen)
     | _ \<Rightarrow> None)"

definition is_encoded :: "headers \<Rightarrow> bool" where
  "is_encoded h =
    (case Option.bind (hdr_get h content_encoding) value_to_str of
       None \<Rightarrow> False
     | Some v \<Rightarrow> \<not> eq_ignore_ascii_case v ''identity'')"

fun is_replace :: "response_oversize_action \<Rightarrow> bool" where
  "is_replace (OsReplace _) = True"
| "is_replace _ = False"

definition json_headers :: "response_parts \<Rightarrow> response_parts" where
  "json_headers resp =
     resp\<lparr>rp_status := 502,
          rp_headers := hdr_insert content_type ''application/json'' (rp_headers resp)\<rparr>"

definition encoded_unknown_doc :: "nat \<Rightarrow> json" where
  "encoded_unknown_doc max_bytes =
     jobj [(''error'', JStr ''encoded_response_size_unknown''),
       (''proxy'', JStr ''bot-marshal''),
       (''max_bytes'', JNum (PosInt max_bytes)),
       (''message'', JStr (''cannot enforce a decoded response limit on encoded bytes; ''
          @ ''request identity encoding''))]"

definition too_large_doc :: "nat \<Rightarrow> nat \<Rightarrow> json" where
  "too_large_doc max_bytes seen =
     jobj [(''error'', JStr ''response_too_large''), (''proxy'', JStr ''bot-marshal''),
       (''max_bytes'', JNum (PosInt max_bytes)),
       (''received_at_least_bytes'', JNum (PosInt seen))]"

definition limiter_apply :: "json_lib \<Rightarrow> response_limiter \<Rightarrow> response_parts \<Rightarrow> response_parts" where
  "limiter_apply js rl resp =
    (let over = raw_oversized rl (rp_body resp);
         encoded = is_encoded (rp_headers resp)
     in if \<not> encoded \<and> over = None then resp
        else if encoded \<and> \<not> is_replace (rl_on_oversize rl)
        then replace_body (json_headers resp)
               (bytes_of (jl_show js (encoded_unknown_doc (rl_max_bytes rl)))) ''fail''
        else (case over of
           None \<Rightarrow> resp
         | Some (source, seen) \<Rightarrow>
             (case rl_on_oversize rl of
                OsFail \<Rightarrow>
                  replace_body (json_headers resp)
                    (bytes_of (jl_show js (too_large_doc (rl_max_bytes rl) seen))) ''fail''
              | OsTruncate meth marker \<Rightarrow>
                  replace_body resp (truncate_body rl source meth marker) ''truncate''
              | OsReplace body \<Rightarrow>
                  replace_body
                    (resp\<lparr>rp_headers := hdr_insert content_type ''text/plain; charset=utf-8''
                       (rp_headers resp)\<rparr>)
                    (bytes_of body) ''replace'')))"


lemma length_utf8_prefix: "utf8_prefix_len bs limit \<le> min (length bs) limit"
  using utf8_valid_up_to_le [of "take (min (length bs) limit) bs"]
  by (auto simp: utf8_prefix_len_def Let_def)

lemma utf8_prefix_ok: "utf8_ok (take (utf8_prefix_len bs limit) bs)"
proof -
  let ?t = "take (min (length bs) limit) bs"
  have "utf8_valid_up_to ?t \<le> min (length bs) limit"
    using utf8_valid_up_to_le [of ?t] by simp
  then have "take (utf8_valid_up_to ?t) bs = take (utf8_valid_up_to ?t) ?t"
    by (simp only: take_take min_absorb1)
  then show ?thesis
    using utf8_ok_valid_prefix [of ?t] by (auto simp: utf8_prefix_len_def Let_def)
qed

lemma truncate_body_length: "length (truncate_body rl source meth marker) \<le> rl_max_bytes rl"
proof (cases meth)
  case TruncBytes
  then show ?thesis
    by (auto simp: truncate_body_def Let_def)
next
  case TruncUtf8
  define n where "n = utf8_prefix_len (bytes_of marker) (rl_max_bytes rl)"
  have n: "n \<le> length marker" "n \<le> rl_max_bytes rl"
    using length_utf8_prefix [of "bytes_of marker" "rl_max_bytes rl"] by (simp_all add: n_def)
  have "utf8_prefix_len source (rl_max_bytes rl - n) \<le> rl_max_bytes rl - n"
    using length_utf8_prefix [of source "rl_max_bytes rl - n"] by simp
  with TruncUtf8 n show ?thesis
    by (simp add: truncate_body_def Let_def flip: n_def)
qed

lemma truncate_body_utf8: "utf8_ok (truncate_body rl source TruncUtf8 marker)"
  by (simp only: truncate_body_def Let_def truncation_method.case utf8_ok_append utf8_prefix_ok)

text \<open>
  A truncated response never exceeds the configured number of bytes, marker
  included, whatever the marker's own length; and the UTF-8 meth never splits a character:
  its result is well-formed, whatever the source was.
\<close>

lemma truncation_is_bounded_and_clean:
  "length (truncate_body rl source meth marker) \<le> rl_max_bytes rl \<and>
   (case meth of TruncBytes \<Rightarrow> True | TruncUtf8 \<Rightarrow> utf8_ok (truncate_body rl source meth marker))"
  by (cases meth) (simp_all add: truncate_body_length truncate_body_utf8)

text \<open>
  What the limiter hands on is consistent: either the response is untouched,
  or it has a body in memory whose length the content length states, no content encoding is
  left to be misread, and the change is announced.
\<close>

lemma limiter_keeps_framing:
  "limiter_apply js rl resp = resp \<or>
   (\<exists>b act. rp_body (limiter_apply js rl resp) = Buffered b \<and>
      hdr_get (rp_headers (limiter_apply js rl resp)) content_length = Some (show_nat (length b)) \<and>
      hdr_get (rp_headers (limiter_apply js rl resp)) content_encoding = None \<and>
      hdr_get (rp_headers (limiter_apply js rl resp)) ''x-marshal-response-limited'' = Some act)"
  by (auto simp: limiter_apply_def Let_def replace_body_def content_length_def
      content_encoding_def split: option.split response_oversize_action.split)

text \<open>
  An encoded body cannot hide behind the limit, except under \<open>Replace\<close>: but only the first
  \<open>content-encoding\<close> header is looked at.
\<close>

lemma second_encoding_header_is_ignored:
  "is_encoded [(content_encoding, [''identity'', ''gzip''])] = False"
  by code_simp

text \<open>
  A response that is not encoded never gets past the limiter above its size: a
  body that is buffered and too long, or that the reader already gave up on, is failed,
  truncated or replaced; and truncation keeps it within the limit.
\<close>

lemma limiter_bounds_plain_responses:
  assumes "\<not> is_encoded (rp_headers resp)" and "rp_body resp \<noteq> Streaming"
  shows "(case rp_body (limiter_apply js rl resp) of
      Empty \<Rightarrow> True
    | Buffered b \<Rightarrow>
        (case raw_oversized rl (rp_body resp) of
           None \<Rightarrow> length b \<le> rl_max_bytes rl
         | Some (source, seen) \<Rightarrow>
             (case rl_on_oversize rl of
                OsFail \<Rightarrow> b = bytes_of (jl_show js (too_large_doc (rl_max_bytes rl) seen))
              | OsTruncate m mk \<Rightarrow> b = truncate_body rl source m mk \<and> length b \<le> rl_max_bytes rl
              | OsReplace r \<Rightarrow> b = bytes_of r))
    | _ \<Rightarrow> False)"
  using assms
  by (cases "rp_body resp"; cases "rl_on_oversize rl")
    (auto simp: limiter_apply_def Let_def raw_oversized_def replace_body_def truncate_body_length)

definition sample_response :: response_parts where
  "sample_response =
     \<lparr>rp_status = 200, rp_headers = [(''content-type'', [''text/plain''])],
      rp_body = Buffered (bytes_of ''hello, world'')\<rparr>"

definition sample_limiter :: response_limiter where
  "sample_limiter = \<lparr>rl_max_bytes = 8, rl_on_oversize = OsTruncate TruncBytes ''...''\<rparr>"

definition sample_json :: json_lib where
  "sample_json = \<lparr>jl_parse = (\<lambda>_. None), jl_error = (\<lambda>_. ''error''), jl_show = (\<lambda>_. ''json'')\<rparr>"

lemma truncation_example:
  "rp_body (limiter_apply sample_json sample_limiter sample_response) = Buffered (bytes_of ''hello...'')"
  by code_simp

section \<open>Hiding refused tools\<close>

record ('net, 're, 'gl) mcp_tool_filter =
  tf_libs :: "('net, 're, 'gl) mcp_libs"
  tf_policy :: "('net, 're, 'gl) mcp_policy"
  tf_body_cap :: nat

definition filter_document ::
  "('net, 're, 'gl) mcp_tool_filter \<Rightarrow> string \<Rightarrow> json \<Rightarrow> json \<times> string list" where
  "filter_document tf host doc =
     filter_tools_list (tool_is_visible (tf_libs tf) (tf_policy tf) host) doc"

definition filter_sse_line ::
  "('net, 're, 'gl) mcp_tool_filter \<Rightarrow> string \<Rightarrow> string \<Rightarrow> string \<times> string list" where
  "filter_sse_line tf host line =
    (case strip_prefix ''data:'' (trim_end_any [CHR 0x0D, CHR 0x0A] line) of
       None \<Rightarrow> (line, [])
     | Some payload \<Rightarrow>
         (case jl_parse (mcl_js (tf_libs tf)) (bytes_of (trim_start payload)) of
            None \<Rightarrow> (line, [])
          | Some doc \<Rightarrow>
              (case filter_document tf host doc of (doc', gone) \<Rightarrow>
                 if gone = [] then (line, [])
                 else (''data: '' @ jl_show (mcl_js (tf_libs tf)) doc' @ [CHR 0x0A], gone))))"

definition filter_sse_chunk ::
  "('net, 're, 'gl) mcp_tool_filter \<Rightarrow> string \<Rightarrow> string \<Rightarrow> string \<times> string list" where
  "filter_sse_chunk tf host chunk =
    (let parts = map (filter_sse_line tf host) (split_inclusive (CHR 0x0A) chunk)
     in (concat (map fst parts), concat (map snd parts)))"

definition rewrite_chunk ::
  "('net, 're, 'gl) mcp_tool_filter \<Rightarrow> string \<Rightarrow> string \<Rightarrow> string option" where
  "rewrite_chunk tf host chunk =
    (if governs (tf_libs tf) (tf_policy tf) host
     then Some (fst (filter_sse_chunk tf host chunk)) else None)"

definition tool_filter_apply ::
  "('net, 're, 'gl) mcp_tool_filter \<Rightarrow> request_context \<Rightarrow> response_parts \<Rightarrow> response_parts" where
  "tool_filter_apply tf cx resp =
    (let host = auth_host (rc_authority cx) in
     if \<not> governs (tf_libs tf) (tf_policy tf) host then resp
     else case rp_body resp of
       Buffered bytes \<Rightarrow>
         (case jl_parse (mcl_js (tf_libs tf)) bytes of
            None \<Rightarrow> resp
          | Some doc \<Rightarrow>
              (case filter_document tf host doc of (doc', removed) \<Rightarrow>
                 if removed = [] then resp
                 else let rewritten = bytes_of (jl_show (mcl_js (tf_libs tf)) doc')
                      in resp\<lparr>rp_headers := hdr_insert content_length (show_nat (length rewritten))
                                (rp_headers resp),
                              rp_body := Buffered rewritten\<rparr>))
     | _ \<Rightarrow> resp)"

lemma retain_tools_eq:
  "retain_tools visible tools =
     (filter (\<lambda>t. case get_str t ''name'' of None \<Rightarrow> False | Some n \<Rightarrow> visible n) tools,
      List.map_filter (\<lambda>t. case get_str t ''name'' of
          None \<Rightarrow> Some ''<unnamed>''
        | Some n \<Rightarrow> if visible n then None else Some n) tools)"
  by (induction tools) (auto simp: map_filter_simps split: option.split)

lemma jget_jset: "jget (jset k v j) k' = (if k = k' \<and> jget j k \<noteq> None then Some v else jget j k')"
proof (cases j)
  case (JObj m)
  have "map_of (map (\<lambda>(k', w). if k' = k then (k', v) else (k', w)) m) k' =
      (if k = k' \<and> map_of m k \<noteq> None then Some v else map_of m k')" for k'
    by (induction m) auto
  with JObj show ?thesis
    by (simp only: jset.simps jget.simps)
qed simp_all

text \<open>
  C29 (functional). The filtered listing shows exactly the visible tools, in order and
  unchanged; an entry without a name goes too; what was removed is named; and nothing else of
  the document changes.
\<close>

theorem filtered_listing_is_exact:
  assumes "jget doc ''result'' = Some result" and "get_array result ''tools'' = Some tools"
  shows "case filter_document tf host doc of (doc', removed) \<Rightarrow>
     Option.bind (jget doc' ''result'') (\<lambda>r. get_array r ''tools'') =
       Some (filter (\<lambda>t. case get_str t ''name'' of
           None \<Rightarrow> False
         | Some n \<Rightarrow> tool_is_visible (tf_libs tf) (tf_policy tf) host n) tools) \<and>
     length removed = length (filter (\<lambda>t. case get_str t ''name'' of
           None \<Rightarrow> True
         | Some n \<Rightarrow> \<not> tool_is_visible (tf_libs tf) (tf_policy tf) host n) tools) \<and>
     (\<forall>k. k \<noteq> ''result'' \<longrightarrow> jget doc' k = jget doc k) \<and>
     (\<forall>k. k \<noteq> ''tools'' \<longrightarrow> Option.bind (jget doc' ''result'') (\<lambda>r. jget r k) = jget result k)"
proof -
  have removed: "length (List.map_filter f xs) = length (filter (\<lambda>x. f x \<noteq> None) xs)"
    for f :: "json \<Rightarrow> string option" and xs
    by (induction xs) (simp_all add: map_filter_simps split: option.split)
  from assms(2) have "jget result ''tools'' \<noteq> None"
    by (cases "jget result ''tools''") simp_all
  with assms show ?thesis
    by (auto simp: filter_document_def filter_tools_list_def retain_tools_eq jget_jset removed
        intro!: arg_cong [of _ _ length] filter_cong split: option.split)
qed


definition exact_globs :: "string glob_lib" where
  "exact_globs = \<lparr>gl_new = Inr, gl_match = (\<lambda>g s. g = s)\<rparr>"

definition sample_libs :: "(byte list, string, string) mcp_libs" where
  "sample_libs =
     \<lparr>mcl_net = octet_nets, mcl_re = text_regex, mcl_gl = exact_globs, mcl_js = sample_json\<rparr>"

definition sample_filter :: "(byte list, string, string) mcp_tool_filter" where
  "sample_filter =
     \<lparr>tf_libs = sample_libs,
      tf_policy =
        [\<lparr>cs_hosts = \<lparr>hm_exact = [''mcp.test''], hm_suffix = [], hm_cidrs = []\<rparr>,
          cs_tools = [\<lparr>ct_pattern = ''search'', ct_matcher = ''search'', ct_when = []\<rparr>]\<rparr>],
      tf_body_cap = 1024\<rparr>"

definition sample_tool :: "string \<Rightarrow> json" where
  "sample_tool n = JObj [(''name'', JStr n)]"

definition sample_listing :: json where
  "sample_listing =
     JObj [(''result'', JObj [(''tools'', JArr [sample_tool ''search'', sample_tool ''delete'',
       JObj []])])]"

theorem filtered_listing_is_exact_witness:
  "Option.bind (jget (fst (filter_document sample_filter ''mcp.test'' sample_listing)) ''result'')
     (\<lambda>r. get_array r ''tools'') = Some [sample_tool ''search'']"
proof -
  have visible: "tool_is_visible (tf_libs sample_filter) (tf_policy sample_filter) ''mcp.test'' ''search''"
    "\<not> tool_is_visible (tf_libs sample_filter) (tf_policy sample_filter) ''mcp.test'' ''delete''"
    by code_simp+
  have result: "jget sample_listing ''result'' =
      Some (JObj [(''tools'', JArr [sample_tool ''search'', sample_tool ''delete'', JObj []])])"
    by (simp add: sample_listing_def)
  have tools: "get_array (JObj [(''tools'', JArr [sample_tool ''search'', sample_tool ''delete'',
      JObj []])]) ''tools'' = Some [sample_tool ''search'', sample_tool ''delete'', JObj []]"
    by simp
  show ?thesis
    using filtered_listing_is_exact [where tf = sample_filter and host = "''mcp.test''",
        OF result tools] visible
    by (simp add: sample_tool_def case_prod_beta)
qed

end
