(* ===== verification/Judge.thy ===== *)
theory Judge
  imports Layers
begin

text \<open>
  \<open>crates/marshal-judge/src\<close>: the circuit breaker (\<open>breaker.rs\<close>), the scope (\<open>scope.rs\<close>), what
  the judge is shown (\<open>request.rs\<close>, \<open>providers/mod.rs\<close>) and the layer (\<open>judge.rs\<close>). The state
  of the layer is the cache, the breaker, the clock and the world the provider lives in; the
  crate \<open>moka\<close> (the cache) and the provider's network call are the parameter \<open>judge_env\<close>.
  Evaluations run one at a time, so the semaphore always has a permit.
\<close>

section \<open>The circuit breaker\<close>

record breaker =
  br_threshold :: u32
  br_cooldown :: duration
  br_failures :: u32
  br_opened_at :: "nat option"

definition breaker_new :: "u32 \<Rightarrow> duration \<Rightarrow> breaker" where
  "breaker_new threshold cooldown =
     \<lparr>br_threshold = max threshold 1, br_cooldown = cooldown, br_failures = 0,
      br_opened_at = None\<rparr>"

text \<open>\<open>at.elapsed()\<close> is the truncated difference from the clock \<open>now\<close>.\<close>

definition allows_call :: "nat \<Rightarrow> breaker \<Rightarrow> bool \<times> breaker" where
  "allows_call now b =
    (case br_opened_at b of
       Some opened \<Rightarrow>
         if now - opened < br_cooldown b then (False, b) else (True, b\<lparr>br_opened_at := None\<rparr>)
     | None \<Rightarrow> (True, b))"

definition record_success :: "breaker \<Rightarrow> breaker" where
  "record_success b = b\<lparr>br_failures := 0, br_opened_at := None\<rparr>"

definition record_failure :: "nat \<Rightarrow> breaker \<Rightarrow> breaker" where
  "record_failure now b =
    (let failures = br_failures b + 1;
         b' = b\<lparr>br_failures := failures\<rparr>
     in if br_threshold b \<le> failures then b'\<lparr>br_opened_at := Some now\<rparr> else b')"

text \<open>What happens to a breaker, as labelled steps, and the histories that lead to a state.\<close>

datatype breaker_event = Asked nat | Succeeded | Failed nat

inductive breaker_step :: "breaker \<Rightarrow> breaker_event \<Rightarrow> breaker \<Rightarrow> bool" where
  asked: "breaker_step b (Asked now) (snd (allows_call now b))"
| succeeded: "breaker_step b Succeeded (record_success b)"
| failed: "breaker_step b (Failed now) (record_failure now b)"

inductive_simps breaker_step_simps:
  "breaker_step b (Asked now) b'" "breaker_step b Succeeded b'" "breaker_step b (Failed now) b'"

inductive breaker_history :: "breaker \<Rightarrow> breaker_event list \<Rightarrow> breaker \<Rightarrow> bool" for b0 where
  start: "breaker_history b0 [] b0"
| step: "breaker_history b0 es b \<Longrightarrow> breaker_step b e b' \<Longrightarrow> breaker_history b0 (es @ [e]) b'"

inductive_cases breaker_history_snocE: "breaker_history b0 (es @ [e]) b"

text \<open>The specification: the failures since the last success.\<close>

fun streak_rev :: "breaker_event list \<Rightarrow> nat" where
  "streak_rev [] = 0"
| "streak_rev (Succeeded # es) = 0"
| "streak_rev (Failed _ # es) = Suc (streak_rev es)"
| "streak_rev (Asked _ # es) = streak_rev es"

definition streak :: "breaker_event list \<Rightarrow> nat" where
  "streak es = streak_rev (rev es)"

lemma streak_simps [simp]:
  "streak [] = 0" "streak (es @ [Succeeded]) = 0"
  "streak (es @ [Failed t]) = Suc (streak es)" "streak (es @ [Asked t]) = streak es"
  by (simp_all add: streak_def)

lemma streak_le: "streak es \<le> length es"
proof -
  have "streak_rev es \<le> length es" for es
    by (induction es rule: streak_rev.induct) simp_all
  then show ?thesis
    by (metis length_rev streak_def)
qed

lemma unat_suc_u32: "unat (w :: u32) < 2 ^ 32 - 1 \<Longrightarrow> unat (w + 1) = Suc (unat w)"
  by (simp add: unat_word_ariths)

lemma breaker_history_inv:
  assumes "breaker_history (breaker_new th cd) es b" and "length es < 2 ^ 32"
  shows "unat (br_failures b) = streak es \<and> br_threshold b = max th 1 \<and> br_cooldown b = cd \<and>
    (br_opened_at b \<noteq> None \<longrightarrow> max (unat th) 1 \<le> streak es)"
  using assms
proof (induction rule: breaker_history.induct)
  case start
  then show ?case
    by (simp add: breaker_new_def)
next
  case (step es b e b')
  have th: "unat (max th 1) = max (unat th) 1"
    by (simp add: max_def word_le_nat_alt)
  from step have IH: "unat (br_failures b) = streak es" "br_threshold b = max th 1"
      "br_cooldown b = cd" "br_opened_at b \<noteq> None \<longrightarrow> max (unat th) 1 \<le> streak es"
      and len: "length es < 2 ^ 32 - 1"
    by simp_all
  show ?case
  proof (cases e)
    case (Asked now)
    with step.hyps(2) IH show ?thesis
      by (auto simp: breaker_step_simps allows_call_def split: option.splits)
  next
    case Succeeded
    with step.hyps(2) IH show ?thesis
      by (simp add: breaker_step_simps record_success_def)
  next
    case (Failed now)
    have suc: "unat (br_failures b + 1) = Suc (streak es)"
      using unat_suc_u32 [of "br_failures b"] IH(1) streak_le [of es] len by simp
    have "max th 1 \<le> br_failures b + 1 \<longleftrightarrow> max (unat th) 1 \<le> Suc (streak es)"
      by (simp only: word_le_nat_alt th suc)
    with Failed step.hyps(2) IH suc show ?thesis
      by (auto simp: breaker_step_simps record_failure_def Let_def)
  qed
qed



section \<open>Scope\<close>

record 'net compiled_scope =
  sc_hosts :: "'net host_matcher"
  sc_methods :: "string list"

fun scope_compile ::
  "('net, 'x) ipnet_scheme \<Rightarrow> judge_scope list \<Rightarrow> pattern_error + 'net compiled_scope list" where
  "scope_compile net [] = Inr []"
| "scope_compile net (s # scopes) =
    (case matcher_new net (option_list (js_host s)) (option_list (js_cidr s)) of
       Inl e \<Rightarrow> Inl e
     | Inr hosts \<Rightarrow>
         map_sum id
           (Cons \<lparr>sc_hosts = hosts, sc_methods = map to_ascii_uppercase (js_methods s)\<rparr>)
           (scope_compile net scopes))"

definition scope_matches ::
  "('net, 'x) ipnet_scheme \<Rightarrow> 'net compiled_scope \<Rightarrow> string \<Rightarrow> string \<Rightarrow> bool" where
  "scope_matches net s host meth \<longleftrightarrow>
     host_matches net (sc_hosts s) host \<noteq> None \<and> (sc_methods s = [] \<or> meth \<in> set (sc_methods s))"

definition scope_governs ::
  "('net, 'x) ipnet_scheme \<Rightarrow> 'net compiled_scope list \<Rightarrow> string \<Rightarrow> string \<Rightarrow> bool" where
  "scope_governs net scopes host meth \<longleftrightarrow> list_ex (\<lambda>s. scope_matches net s host meth) scopes"

section \<open>What the judge is shown\<close>

record judge_request =
  jr_method :: string
  jr_host :: string
  jr_path :: string
  jr_header_names :: "string list"

definition cache_key :: "judge_request \<Rightarrow> string" where
  "cache_key r =
     jr_method r @ '' '' @ jr_host r @ '' '' @ jr_path r @ '' ['' @ join '','' (jr_header_names r)
     @ '']''"

text \<open>\<open>sort\<close> and \<open>dedup\<close>: sorted, each name once.\<close>

definition judge_request_of :: "request_context \<Rightarrow> judge_request" where
  "judge_request_of cx =
     \<lparr>jr_method = rc_method cx, jr_host = auth_host (rc_authority cx),
      jr_path = uri_path (rc_uri cx),
      jr_header_names = remdups_adj (sort (map to_ascii_lowercase (hdr_keys (rc_headers cx))))\<rparr>"

datatype judge_decision = JAllow | JDeny | JPass

record judge_verdict =
  jv_decision :: judge_decision
  jv_reason :: string

datatype provider_error =
    PInvalidDecision string
  | PResolve string
  | PConnect string
  | PTls string
  | PHttp string
  | PStatus nat string
  | PResponseTooLarge nat
  | PNoToolCall
  | PMalformedVerdict string
  | PMissingApiKey string
  | PInvalidBaseUrl string
  | PBlocked string

fun show_provider_error :: "provider_error \<Rightarrow> string" where
  "show_provider_error (PInvalidDecision s) = ''invalid native decision: '' @ s"
| "show_provider_error (PResolve e) = ''resolving the provider host: '' @ e"
| "show_provider_error (PConnect e) = ''connecting to the provider: '' @ e"
| "show_provider_error (PTls e) = ''tls handshake with the provider: '' @ e"
| "show_provider_error (PHttp e) = ''http error talking to the provider: '' @ e"
| "show_provider_error (PStatus st body) = ''the provider returned '' @ show_nat st @ '': '' @ body"
| "show_provider_error (PResponseTooLarge limit) =
     ''the provider's response exceeded '' @ show_nat limit @ '' bytes without completing''"
| "show_provider_error PNoToolCall = ''the provider's response did not contain a verdict tool call''"
| "show_provider_error (PMalformedVerdict e) = ''the verdict tool call was malformed: '' @ e"
| "show_provider_error (PMissingApiKey k) = ''`'' @ k @ ''` is not set''"
| "show_provider_error (PInvalidBaseUrl u) = ''invalid provider base_url: '' @ u"
| "show_provider_error (PBlocked e) = ''the provider's address was refused: '' @ e"


section \<open>The layer\<close>

text \<open>
  The cache answers a lookup at a time and may forget anything; the provider, asked about a
  request at a time, takes a while and answers or fails.
\<close>

record ('c, 'w) judge_env =
  je_get :: "'c \<Rightarrow> nat \<Rightarrow> string \<Rightarrow> judge_verdict option \<times> 'c"
  je_insert :: "'c \<Rightarrow> nat \<Rightarrow> string \<Rightarrow> judge_verdict \<Rightarrow> 'c"
  je_call :: "judge_request \<Rightarrow> string \<Rightarrow> nat \<Rightarrow> 'w \<Rightarrow> nat \<times> (provider_error + judge_verdict) \<times> 'w"
  je_show_duration :: "duration \<Rightarrow> string"

record ('c, 'w) judge_state =
  jst_cache :: 'c
  jst_breaker :: breaker
  jst_now :: nat
  jst_world :: 'w

record 'net judge =
  jd_net :: "'net ipnet"
  jd_scope :: "'net compiled_scope list"
  jd_prompt :: string
  jd_max_concurrent :: nat
  jd_timeout :: "duration option"
  jd_on_error :: failure_mode
  jd_on_timeout :: failure_mode

definition judge_new ::
  "'net ipnet \<Rightarrow> 'net compiled_scope list \<Rightarrow> string \<Rightarrow> nat \<Rightarrow> duration option \<Rightarrow> failure_mode
     \<Rightarrow> failure_mode \<Rightarrow> 'net judge" where
  "judge_new net scope prompt max_concurrent timeout on_error on_timeout =
     \<lparr>jd_net = net, jd_scope = scope, jd_prompt = prompt,
      jd_max_concurrent = max max_concurrent 1, jd_timeout = timeout, jd_on_error = on_error,
      jd_on_timeout = on_timeout\<rparr>"

fun decision_code :: "judge_decision \<Rightarrow> string" where
  "decision_code JAllow = ''judge_allowed''"
| "decision_code JDeny = ''judge_denied''"
| "decision_code JPass = ''judge_uncertain''"

definition to_verdict :: "judge_verdict \<Rightarrow> evidence \<Rightarrow> bool \<Rightarrow> verdict" where
  "to_verdict v ev cached =
    (let reason0 = reason_new ''judge'' (decision_code (jv_decision v)) (jv_reason v);
         reason = (if cached then reason_cached reason0 else reason0)
     in case jv_decision v of
          JAllow \<Rightarrow> Allow reason
        | JDeny \<Rightarrow> Deny reason
        | JPass \<Rightarrow> Pass (record_ev ''judge.pass_reason'' (JStr (jv_reason v)) ev))"

definition apply_failure :: "failure_mode \<Rightarrow> evidence \<Rightarrow> string \<Rightarrow> verdict" where
  "apply_failure m ev why =
    (let reason = reason_new ''judge'' ''judge_unavailable'' why in
     case m of FailDeny \<Rightarrow> Deny reason | FailAllow \<Rightarrow> Allow reason | FailPass \<Rightarrow> Pass ev)"

definition judge_ask ::
  "('c, 'w) judge_env \<Rightarrow> 'net judge \<Rightarrow> judge_request \<Rightarrow> evidence \<Rightarrow> ('c, 'w) judge_state
     \<Rightarrow> verdict \<times> ('c, 'w) judge_state" where
  "judge_ask env j r ev st =
    (case je_call env r (jd_prompt j) (jst_now st) (jst_world st) of (latency, answer, world) \<Rightarrow>
       (let timed_out = (case jd_timeout j of None \<Rightarrow> False | Some t \<Rightarrow> t < latency);
            elapsed = (case jd_timeout j of None \<Rightarrow> latency | Some t \<Rightarrow> min t latency);
            now = jst_now st + elapsed;
            st' = st\<lparr>jst_now := now, jst_world := world\<rparr>
        in if timed_out
           then (apply_failure (jd_on_timeout j) ev
                   (''the judge did not respond within '' @ je_show_duration env elapsed),
                 st'\<lparr>jst_breaker := record_failure now (jst_breaker st)\<rparr>)
           else (case answer of
              Inr v \<Rightarrow>
                (to_verdict v ev False,
                 st'\<lparr>jst_breaker := record_success (jst_breaker st),
                     jst_cache := je_insert env (jst_cache st) now (cache_key r) v\<rparr>)
            | Inl e \<Rightarrow>
                (apply_failure (jd_on_error j) ev (show_provider_error e),
                 st'\<lparr>jst_breaker := record_failure now (jst_breaker st)\<rparr>))))"

definition judge_eval ::
  "('c, 'w) judge_env \<Rightarrow> 'net judge \<Rightarrow> request_context \<Rightarrow> evidence \<Rightarrow> ('c, 'w) judge_state
     \<Rightarrow> (core_error + verdict) \<times> ('c, 'w) judge_state" where
  "judge_eval env j cx ev st =
    (if \<not> scope_governs (jd_net j) (jd_scope j) (auth_host (rc_authority cx)) (rc_method cx)
     then (Inr (Pass ev), st)
     else let r = judge_request_of cx in
       (case je_get env (jst_cache st) (jst_now st) (cache_key r) of (found, cache) \<Rightarrow>
          (let st1 = st\<lparr>jst_cache := cache\<rparr> in
           case found of
             Some v \<Rightarrow> (Inr (to_verdict v ev True), st1)
           | None \<Rightarrow>
               (case allows_call (jst_now st) (jst_breaker st) of (ok, b) \<Rightarrow>
                  (let st2 = st1\<lparr>jst_breaker := b\<rparr> in
                   if \<not> ok
                   then (Inr (apply_failure (jd_on_error j) ev
                           (''the judge's circuit breaker is open after repeated ''
                            @ ''provider failures'')), st2)
                   else (case judge_ask env j r ev st2 of (v, st3) \<Rightarrow> (Inr v, st3)))))))"

definition judge_layer ::
  "('c, 'w) judge_env \<Rightarrow> 'net judge \<Rightarrow> ('c, 'w) judge_state layer" where
  "judge_layer env j =
     \<lparr>ly_name = ''judge'', ly_cost = Expensive, ly_needs_request = True,
      ly_body_requirement = StreamBody, ly_on_error = jd_on_error j, ly_eval = judge_eval env j\<rparr>"

lemma to_verdict_pass:
  "to_verdict v ev c = Pass ev' \<Longrightarrow> ev_le ev ev' \<and> trail ev' = trail ev"
  by (auto simp: to_verdict_def Let_def intro: evidence_mono split: judge_decision.splits)

lemma apply_failure_pass: "apply_failure m ev why = Pass ev' \<Longrightarrow> ev' = ev"
  by (auto simp: apply_failure_def Let_def split: failure_mode.splits)

lemma judge_ask_pass:
  "judge_ask env j r ev st = (Pass ev', st') \<Longrightarrow> ev_le ev ev' \<and> trail ev' = trail ev"
  by (auto simp: judge_ask_def Let_def dest: to_verdict_pass apply_failure_pass
      split: prod.splits sum.splits if_splits)

interpretation judge: policy_layer "judge_eval env j" for env j
proof -
  have "ev_le ev ev' \<and> trail ev' = trail ev"
    if "fst (judge_eval env j cx ev st) = Inr (Pass ev')" for cx ev st ev'
    using that
    by (auto simp: judge_eval_def Let_def
        dest: to_verdict_pass apply_failure_pass judge_ask_pass
        split: prod.splits option.splits if_splits)
  then show "policy_layer (judge_eval env j)"
    by unfold_locales blast+
qed

text \<open>
  Nothing but method, host, path and header names reaches the judge: requests
  that agree on these get the same verdict, ask the provider the same question and leave the
  same state, whatever their header values, query, body, port, identity or profile.
\<close>

lemma judge_blind_to_values:
  assumes "rc_method cx = rc_method cx'"
    and "auth_host (rc_authority cx) = auth_host (rc_authority cx')"
    and "uri_path (rc_uri cx) = uri_path (rc_uri cx')"
    and "hdr_keys (rc_headers cx) = hdr_keys (rc_headers cx')"
  shows "judge_eval env j cx ev st = judge_eval env j cx' ev st"
  using assms by (simp add: judge_eval_def judge_request_of_def)

text \<open>A concrete environment: a cache that never forgets and a provider that allows reads.\<close>

definition sample_env :: "((string \<times> judge_verdict) list, nat) judge_env" where
  "sample_env =
     \<lparr>je_get = (\<lambda>c now k. (map_of c k, c)), je_insert = (\<lambda>c now k v. (k, v) # c),
      je_call = (\<lambda>r prompt now w.
        (5, if jr_method r = ''GET''
            then Inr \<lparr>jv_decision = JAllow, jv_reason = ''read''\<rparr>
            else Inl (PStatus 500 ''boom''), w + 1)),
      je_show_duration = show_nat\<rparr>"

definition sample_judge :: "byte list judge" where
  "sample_judge =
     judge_new octet_nets
       [\<lparr>sc_hosts = \<lparr>hm_exact = [''h''], hm_suffix = [], hm_cidrs = []\<rparr>, sc_methods = []\<rparr>]
       ''policy'' 8 (Some 100) FailDeny FailDeny"

definition sample_judge_state :: "((string \<times> judge_verdict) list, nat) judge_state" where
  "sample_judge_state =
     \<lparr>jst_cache = [], jst_breaker = breaker_new 2 30, jst_now = 0, jst_world = 0\<rparr>"

text \<open>
  With both failure modes set to deny, the layer allows a request only on a
  provider's allow: one it gave now, within the timeout, or one the cache holds for the very
  same key. An open breaker, an error and a timeout never allow.
\<close>

lemma judge_allow_has_an_author:
  assumes "jd_on_error j = FailDeny" and "jd_on_timeout j = FailDeny"
    and "fst (judge_eval env j cx ev st) = Inr (Allow r)"
  shows "scope_governs (jd_net j) (jd_scope j) (auth_host (rc_authority cx)) (rc_method cx) \<and>
    (\<exists>v. jv_decision v = JAllow \<and> r_message r = jv_reason v \<and>
      (fst (je_get env (jst_cache st) (jst_now st) (cache_key (judge_request_of cx))) = Some v \<or>
       fst (allows_call (jst_now st) (jst_breaker st)) \<and>
       (\<exists>latency world.
          je_call env (judge_request_of cx) (jd_prompt j) (jst_now st) (jst_world st) =
            (latency, Inr v, world) \<and>
          (case jd_timeout j of None \<Rightarrow> True | Some t \<Rightarrow> latency \<le> t))))"
proof -
  have verdict: "jv_decision v = JAllow \<and> r_message r = jv_reason v"
    if "to_verdict v ev c = Allow r" for v c
    using that
    by (auto simp: to_verdict_def Let_def reason_new_def reason_cached_def
        split: judge_decision.splits if_splits)
  have failed: "apply_failure FailDeny ev why \<noteq> Allow r" for why
    by (simp add: apply_failure_def Let_def)
  have asked: "\<exists>v latency world. jv_decision v = JAllow \<and> r_message r = jv_reason v \<and>
      je_call env q (jd_prompt j) (jst_now s) (jst_world s) = (latency, Inr v, world) \<and>
      (case jd_timeout j of None \<Rightarrow> True | Some t \<Rightarrow> latency \<le> t)"
    if "fst (judge_ask env j q ev s) = Allow r" for q s
    using that failed assms(1,2)
    by (auto simp: judge_ask_def Let_def dest!: verdict
        split: prod.splits sum.splits if_splits option.splits)
  have scope: "scope_governs (jd_net j) (jd_scope j) (auth_host (rc_authority cx)) (rc_method cx)"
    using assms(3) by (auto simp: judge_eval_def split: if_splits)
  let ?r = "judge_request_of cx"
  obtain found cache where get: "je_get env (jst_cache st) (jst_now st) (cache_key ?r) = (found, cache)"
    by fastforce
  obtain ok b where ok: "allows_call (jst_now st) (jst_breaker st) = (ok, b)"
    by fastforce
  show ?thesis
  proof (cases found)
    case (Some v)
    with assms(3) scope get have "to_verdict v ev True = Allow r"
      by (simp add: judge_eval_def Let_def)
    from verdict [OF this] Some scope get show ?thesis
      by auto
  next
    case None
    let ?st = "st\<lparr>jst_cache := cache, jst_breaker := b\<rparr>"
    have "ok \<and> fst (judge_ask env j ?r ev ?st) = Allow r"
      using assms(1,3) scope get ok None failed
      by (auto simp: judge_eval_def Let_def split: if_splits prod.splits)
    with asked [of ?r ?st] scope ok show ?thesis
      by auto
  qed
qed

fun allowed_reason :: "core_error + verdict \<Rightarrow> reason option" where
  "allowed_reason (Inr (Allow r)) = Some r"
| "allowed_reason _ = None"

lemma allowed_reason_Some: "allowed_reason x = Some r \<longleftrightarrow> x = Inr (Allow r)"
  by (cases x rule: allowed_reason.cases) auto

text \<open>Out of scope, or answered from the cache, the provider is not asked and time stands still.\<close>

lemma judge_spares_the_provider:
  "snd (judge_eval env j cx ev st) = st' \<Longrightarrow>
    \<not> scope_governs (jd_net j) (jd_scope j) (auth_host (rc_authority cx)) (rc_method cx) \<or>
    fst (je_get env (jst_cache st) (jst_now st) (cache_key (judge_request_of cx))) \<noteq> None \<or>
    \<not> fst (allows_call (jst_now st) (jst_breaker st)) \<Longrightarrow>
    jst_world st' = jst_world st \<and> jst_now st' = jst_now st"
  by (auto simp: judge_eval_def Let_def split: prod.splits option.splits if_splits)

section \<open>The cache key\<close>

lemma split_space:
  "CHR '' '' \<notin> set a \<Longrightarrow> CHR '' '' \<notin> set a' \<Longrightarrow> a @ CHR '' '' # b = a' @ CHR '' '' # b' \<Longrightarrow>
     a = a' \<and> b = b'"
  by (metis option.inject prod.inject split_once_Some)

lemma split_on_word: "d \<notin> set w \<Longrightarrow> split_on d (w @ d # t) = w # split_on d t"
  by (induction w) auto

lemma split_on_join:
  "us \<noteq> [] \<Longrightarrow> \<forall>w \<in> set us. d \<notin> set w \<Longrightarrow> split_on d (join [d] us) = us"
  by (induction us rule: induct_list012) (simp_all add: split_on_single split_on_word)

lemma join_nonempty: "us \<noteq> [] \<Longrightarrow> \<forall>w \<in> set us. w \<noteq> [] \<Longrightarrow> join sep us \<noteq> []"
  by (cases us rule: remdups_adj.cases) simp_all

lemma join_comma_inject:
  assumes "\<forall>w \<in> set ws. w \<noteq> [] \<and> CHR '','' \<notin> set w" "\<forall>w \<in> set vs. w \<noteq> [] \<and> CHR '','' \<notin> set w"
    and "join '','' ws = join '','' vs"
  shows "ws = vs"
proof -
  have "us = (if join '','' us = [] then [] else split_on (CHR '','') (join '','' us))"
    if "\<forall>w \<in> set us. w \<noteq> [] \<and> CHR '','' \<notin> set w" for us
  proof (cases "us = []")
    case False
    with that have "split_on (CHR '','') (join '','' us) = us"
      by (intro split_on_join) auto
    moreover have "join '','' us \<noteq> []"
      using False that by (intro join_nonempty) auto
    ultimately show ?thesis
      by simp
  qed simp
  from this [OF assms(1)] this [OF assms(2)] show ?thesis
    unfolding assms(3) by (rule trans [OF _ sym])
qed

definition key_safe :: "judge_request \<Rightarrow> bool" where
  "key_safe r \<longleftrightarrow> CHR '' '' \<notin> set (jr_method r) \<and> CHR '' '' \<notin> set (jr_host r) \<and>
     CHR '' '' \<notin> set (jr_path r) \<and> (\<forall>n \<in> set (jr_header_names r). n \<noteq> [] \<and> CHR '','' \<notin> set n)"

text \<open>
  A cached verdict is only ever reused for the request it was given for: on
  requests whose method, host and path hold no space and whose header names are tokens, the
  cache key determines everything the judge was shown.
\<close>

lemma cache_key_identifies_request:
  assumes "key_safe r" and "key_safe r'" and "cache_key r = cache_key r'"
  shows "r = r'"
proof -
  have "jr_method r = jr_method r' \<and>
      jr_host r @ '' '' @ jr_path r @ '' ['' @ join '','' (jr_header_names r) @ '']'' =
      jr_host r' @ '' '' @ jr_path r' @ '' ['' @ join '','' (jr_header_names r') @ '']''"
    using assms by (intro split_space) (simp_all add: cache_key_def key_safe_def)
  moreover from this have "jr_host r = jr_host r' \<and>
      jr_path r @ '' ['' @ join '','' (jr_header_names r) @ '']'' =
      jr_path r' @ '' ['' @ join '','' (jr_header_names r') @ '']''"
    using assms by (intro split_space) (simp_all add: key_safe_def)
  moreover from this have "jr_path r = jr_path r' \<and>
      ''['' @ join '','' (jr_header_names r) @ '']'' = ''['' @ join '','' (jr_header_names r') @ '']''"
    using assms by (intro split_space) (simp_all add: key_safe_def)
  moreover from this have "jr_header_names r = jr_header_names r'"
    using assms by (intro join_comma_inject) (simp_all add: key_safe_def)
  ultimately show ?thesis
    by (cases r; cases r') simp
qed

text \<open>Without that, two different requests can share a verdict.\<close>

lemma cache_key_collision:
  "cache_key \<lparr>jr_method = ''GET'', jr_host = ''a b'', jr_path = ''/'', jr_header_names = []\<rparr> =
   cache_key \<lparr>jr_method = ''GET'', jr_host = ''a'', jr_path = ''b /'', jr_header_names = []\<rparr>"
  by code_simp

end
