(* ===== verification/Guard.thy ===== *)
theory Guard
  imports Core Hosts
begin

text \<open>
  \<open>crates/marshal-http/src\<close>: the upstream guard (\<open>guard.rs\<close>), the endpoint parser
  (\<open>endpoint.rs\<close>), the error type and the small client (\<open>client.rs\<close>). Name resolution, TCP,
  TLS and the HTTP exchange are the parameter \<open>net_env\<close> over a world; the guard's functions
  also return the list of the addresses they tried to connect to, in order.
\<close>

unbundle bit_operations_syntax

datatype guard_error =
    GResolve string string
  | GNoAddresses string
  | GBlocked string ip_addr string
  | GConnect string socket_addr string

record ('sock, 'w) net_env =
  ne_lookup :: "string \<Rightarrow> u16 \<Rightarrow> 'w \<Rightarrow> (string + socket_addr list) \<times> 'w"
  ne_connect :: "socket_addr \<Rightarrow> 'w \<Rightarrow> (string + 'sock) \<times> 'w"

record 'net guard =
  gd_net :: "'net ipnet"
  gd_deny :: "'net list"
  gd_allow_private :: bool

fun parse_nets :: "'net ipnet \<Rightarrow> string list \<Rightarrow> 'net list option" where
  "parse_nets net [] = Some []"
| "parse_nets net (c # cs) =
    (case net_parse net c of
       None \<Rightarrow> None
     | Some n \<Rightarrow> map_option (Cons n) (parse_nets net cs))"

definition guard_new :: "'net ipnet \<Rightarrow> string list \<Rightarrow> bool \<Rightarrow> 'net guard option" where
  "guard_new net deny_cidrs allow_private =
     map_option (\<lambda>deny. \<lparr>gd_net = net, gd_deny = deny, gd_allow_private = allow_private\<rparr>)
       (parse_nets net deny_cidrs)"

fun v4_private :: "byte \<Rightarrow> byte \<Rightarrow> byte \<Rightarrow> byte \<Rightarrow> bool" where
  "v4_private a b c d \<longleftrightarrow>
     v4_is_private a b \<or> a = 127 \<or> (a = 169 \<and> b = 254)
     \<or> (a = 255 \<and> b = 255 \<and> c = 255 \<and> d = 255) \<or> (a = 0 \<and> b = 0 \<and> c = 0 \<and> d = 0)
     \<or> v4_is_documentation a b c \<or> (a = 100 \<and> b AND 0xC0 = 64)"

fun is_private :: "ip_addr \<Rightarrow> bool" where
  "is_private (V4 a b c d) = v4_private a b c d"
| "is_private (V6 s0 s1 s2 s3 s4 s5 s6 s7) \<longleftrightarrow>
     (s0 = 0 \<and> s1 = 0 \<and> s2 = 0 \<and> s3 = 0 \<and> s4 = 0 \<and> s5 = 0 \<and> s6 = 0 \<and> s7 = 1)
     \<or> (s0 = 0 \<and> s1 = 0 \<and> s2 = 0 \<and> s3 = 0 \<and> s4 = 0 \<and> s5 = 0 \<and> s6 = 0 \<and> s7 = 0)
     \<or> s0 AND 0xFE00 = 0xFC00
     \<or> s0 AND 0xFFC0 = 0xFE80
     \<or> (case to_ipv4_mapped (V6 s0 s1 s2 s3 s4 s5 s6 s7) of
          Some (V4 a b c d) \<Rightarrow> v4_private a b c d
        | _ \<Rightarrow> False)"

definition guard_check :: "'net guard \<Rightarrow> ip_addr \<Rightarrow> string option" where
  "guard_check g addr =
    (case find (\<lambda>n. net_contains (gd_net g) n addr) (gd_deny g) of
       Some n \<Rightarrow> Some (net_show (gd_net g) n)
     | None \<Rightarrow>
         if \<not> gd_allow_private g \<and> is_private addr then Some ''upstream.allow_private=false''
         else None)"

definition prefer_ipv4 :: "socket_addr list \<Rightarrow> socket_addr list" where
  "prefer_ipv4 addrs = sort_key (\<lambda>a. \<not> is_ipv4 (sa_ip a)) addrs"

fun first_blocked :: "'net guard \<Rightarrow> string \<Rightarrow> socket_addr list \<Rightarrow> guard_error option" where
  "first_blocked g host [] = None"
| "first_blocked g host (a # addrs) =
    (case guard_check g (sa_ip a) of
       Some rule \<Rightarrow> Some (GBlocked host (sa_ip a) rule)
     | None \<Rightarrow> first_blocked g host addrs)"

text \<open>
  The connection loop. \<open>latest\<close> is the error of the last attempt; the source's \<open>expect\<close> on an
  empty list is the branch \<open>None\<close> of the result.
\<close>

fun connect_loop ::
  "('sock, 'w) net_env \<Rightarrow> string \<Rightarrow> socket_addr list \<Rightarrow> guard_error option \<Rightarrow> 'w
     \<Rightarrow> (guard_error + 'sock) option \<times> socket_addr list \<times> 'w" where
  "connect_loop env host [] latest w = (map_option Inl latest, [], w)"
| "connect_loop env host (a # addrs) latest w =
    (case ne_connect env a w of
       (Inr s, w') \<Rightarrow> (Some (Inr s), [a], w')
     | (Inl e, w') \<Rightarrow>
         (case connect_loop env host addrs (Some (GConnect host a e)) w' of
            (r, tried, w'') \<Rightarrow> (r, a # tried, w'')))"

definition resolve ::
  "('sock, 'w) net_env \<Rightarrow> authority \<Rightarrow> 'w \<Rightarrow> (guard_error + socket_addr list) \<times> 'w" where
  "resolve env au w =
    (case parse_ip (auth_host au) of
       Some ip \<Rightarrow> (Inr [\<lparr>sa_ip = ip, sa_port = auth_port au\<rparr>], w)
     | None \<Rightarrow>
         (case ne_lookup env (auth_host au) (auth_port au) w of
            (Inl e, w') \<Rightarrow> (Inl (GResolve (auth_host au) e), w')
          | (Inr addrs, w') \<Rightarrow> (Inr addrs, w')))"

definition try_connect ::
  "('sock, 'w) net_env \<Rightarrow> 'net guard \<Rightarrow> authority \<Rightarrow> 'w
     \<Rightarrow> (guard_error + 'sock) option \<times> socket_addr list \<times> 'w" where
  "try_connect env g au w =
    (case resolve env au w of
       (Inl e, w') \<Rightarrow> (Some (Inl e), [], w')
     | (Inr addrs, w') \<Rightarrow>
         if addrs = [] then (Some (Inl (GNoAddresses (auth_host au))), [], w')
         else (case first_blocked g (auth_host au) addrs of
            Some e \<Rightarrow> (Some (Inl e), [], w')
          | None \<Rightarrow> connect_loop env (auth_host au) (prefer_ipv4 addrs) None w'))"

fun is_blocked :: "guard_error \<Rightarrow> bool" where
  "is_blocked (GBlocked _ _ _) = True"
| "is_blocked _ = False"

definition guard_connect ::
  "('sock, 'w) net_env \<Rightarrow> 'net guard \<Rightarrow> authority \<Rightarrow> 'w
     \<Rightarrow> (guard_error + 'sock) option \<times> socket_addr list \<times> 'w" where
  "guard_connect env g au w =
    (case try_connect env g au w of
       (None, tried, w') \<Rightarrow> (None, tried, w')
     | (Some (Inr s), tried, w') \<Rightarrow> (Some (Inr s), tried, w')
     | (Some (Inl e), tried, w') \<Rightarrow>
         if is_blocked e then (Some (Inl e), tried, w')
         else (case try_connect env g au w' of
            (None, tried2, w'') \<Rightarrow> (None, tried @ tried2, w'')
          | (Some (Inr s), tried2, w'') \<Rightarrow> (Some (Inr s), tried @ tried2, w'')
          | (Some (Inl _), tried2, w'') \<Rightarrow> (Some (Inl e), tried @ tried2, w'')))"

section \<open>The guard's guarantees\<close>

lemma set_prefer_ipv4 [simp]: "set (prefer_ipv4 addrs) = set addrs"
  by (simp add: prefer_ipv4_def)

lemma prefer_ipv4_Nil [simp]: "prefer_ipv4 addrs = [] \<longleftrightarrow> addrs = []"
  by (metis set_prefer_ipv4 set_empty)

lemma first_blocked_None:
  "first_blocked g host addrs = None \<longleftrightarrow> (\<forall>a \<in> set addrs. guard_check g (sa_ip a) = None)"
  by (induction addrs) (auto split: option.split)

lemma connect_loop_tried:
  "connect_loop env host addrs latest w = (r, tried, w') \<Longrightarrow> prefix tried addrs"
  by (induction addrs arbitrary: latest w r tried w') (auto split: prod.splits sum.splits)

lemma connect_loop_result:
  "addrs \<noteq> [] \<or> latest \<noteq> None \<Longrightarrow> fst (connect_loop env host addrs latest w) \<noteq> None"
  by (induction addrs arbitrary: latest w)
    (simp_all add: case_prod_beta split: prod.split sum.split)

lemma try_connect_checked:
  assumes "try_connect env g au w = (r, tried, w')" and "a \<in> set tried"
  shows "\<exists>addrs w1. resolve env au w = (Inr addrs, w1) \<and> a \<in> set addrs \<and>
    (\<forall>b \<in> set addrs. guard_check g (sa_ip b) = None)"
proof (cases "resolve env au w")
  case (Pair res w1)
  show ?thesis
  proof (cases res)
    case (Inl e)
    with assms Pair show ?thesis
      by (simp add: try_connect_def)
  next
    case (Inr addrs)
    with assms Pair have ok: "first_blocked g (auth_host au) addrs = None"
        "connect_loop env (auth_host au) (prefer_ipv4 addrs) None w1 = (r, tried, w')"
      by (auto simp: try_connect_def split: if_splits option.splits)
    from set_mono_prefix [OF connect_loop_tried [OF ok(2)]] assms(2) have "a \<in> set addrs"
      by auto
    with ok(1) Pair Inr show ?thesis
      by (auto simp: first_blocked_None)
  qed
qed

lemma try_connect_total: "fst (try_connect env g au w) \<noteq> None"
proof (cases "resolve env au w")
  case (Pair res w1)
  show ?thesis
  proof (cases res)
    case (Inr addrs)
    show ?thesis
      using connect_loop_result [of "prefer_ipv4 addrs" None env "auth_host au" w1]
      by (simp add: try_connect_def Pair Inr split: option.split)
  qed (simp add: try_connect_def Pair)
qed

text \<open>
  C31 (safety, the guard's rule). However the resolver answers, and however differently it
  answers the second time, every address the guard ever connects to was checked and found
  acceptable, together with every other address of the same answer; a blocked name is not
  tried at all.
\<close>

theorem guard_connects_only_to_checked:
  assumes "guard_connect env g au w = (r, tried, w')" and "a \<in> set tried"
  shows "guard_check g (sa_ip a) = None \<and>
    (\<exists>w0 addrs w1. resolve env au w0 = (Inr addrs, w1) \<and> a \<in> set addrs \<and>
       (\<forall>b \<in> set addrs. guard_check g (sa_ip b) = None))"
proof -
  obtain r1 tried1 w1 where one: "try_connect env g au w = (r1, tried1, w1)"
    by (metis prod_cases3)
  obtain r2 tried2 w2 where two: "try_connect env g au w1 = (r2, tried2, w2)"
    by (metis prod_cases3)
  have "tried = tried1 \<or> tried = tried1 @ tried2"
    using assms(1) one two
    by (auto simp: guard_connect_def split: option.splits sum.splits if_splits)
  with assms(2) have "a \<in> set tried1 \<or> a \<in> set tried2"
    by auto
  then obtain w0 addrs w3 where "resolve env au w0 = (Inr addrs, w3)" "a \<in> set addrs"
      "\<forall>b \<in> set addrs. guard_check g (sa_ip b) = None"
    using try_connect_checked [OF one] try_connect_checked [OF two] by meson
  then show ?thesis
    by blast
qed

text \<open>Only one answer with a blocked address in it ends the attempt: there is no second try.\<close>

lemma blocked_is_final:
  assumes "try_connect env g au w = (Some (Inl (GBlocked h ip rule)), tried, w')"
  shows "guard_connect env g au w = (Some (Inl (GBlocked h ip rule)), tried, w')"
  using assms by (simp add: guard_connect_def)

lemma prefer_ipv4_eq:
  "prefer_ipv4 addrs = filter (\<lambda>a. is_ipv4 (sa_ip a)) addrs @ filter (\<lambda>a. \<not> is_ipv4 (sa_ip a)) addrs"
proof -
  have ins: "insort_key (\<lambda>a. \<not> is_ipv4 (sa_ip a)) x (xs @ ys) =
      (if is_ipv4 (sa_ip x) then x # xs @ ys else xs @ x # ys)"
    if "\<forall>a \<in> set xs. is_ipv4 (sa_ip a)" "\<forall>a \<in> set ys. \<not> is_ipv4 (sa_ip a)" for x xs ys
  proof -
    have "insort_key (\<lambda>a. \<not> is_ipv4 (sa_ip a)) x ys = x # ys"
      using that(2) by (cases ys) auto
    then show ?thesis
      using that(1) by (induction xs) auto
  qed
  show ?thesis
    unfolding prefer_ipv4_def by (induction addrs) (auto simp: ins)
qed


section \<open>Which addresses are private\<close>

definition v4_nat :: "byte \<Rightarrow> byte \<Rightarrow> byte \<Rightarrow> byte \<Rightarrow> nat" where
  "v4_nat a b c d = unat a * 2 ^ 24 + unat b * 2 ^ 16 + unat c * 2 ^ 8 + unat d"

definition in_block :: "nat \<Rightarrow> nat \<times> nat \<Rightarrow> bool" where
  "in_block ip block = (case block of (base, len) \<Rightarrow> ip div 2 ^ (32 - len) = base div 2 ^ (32 - len))"

definition private_blocks :: "(nat \<times> nat) list" where
  "private_blocks =
    [(v4_nat 10 0 0 0, 8), (v4_nat 172 16 0 0, 12), (v4_nat 192 168 0 0, 16),
     (v4_nat 127 0 0 0, 8), (v4_nat 169 254 0 0, 16), (v4_nat 255 255 255 255, 32),
     (v4_nat 0 0 0 0, 32), (v4_nat 192 0 2 0, 24), (v4_nat 198 51 100 0, 24),
     (v4_nat 203 0 113 0, 24), (v4_nat 100 64 0 0, 10)]"


lemma byte_top_bits: "(b :: byte) AND 0xC0 = push_bit 6 (drop_bit 6 b)"
proof (rule bit_word_eqI)
  fix n
  assume "n < LENGTH(8)"
  then have "n \<in> {0, 1, 2, 3, 4, 5, 6, 7}"
    by auto
  then show "bit (b AND 0xC0) n = bit (push_bit 6 (drop_bit 6 b)) n"
    by (auto simp: bit_and_iff bit_push_bit_iff bit_drop_bit_eq)
qed

lemma shared_space: "(b :: byte) AND 0xC0 = 64 \<longleftrightarrow> unat b div 64 = 1"
proof -
  have u: "unat (drop_bit 6 b) = unat b div 64"
    by (simp only: unsigned_drop_bit_eq) (simp add: drop_bit_eq_div take_bit_eq_mod)
  have "unat b div 64 * 64 < 256"
    using byte_lt_256 [of b] by linarith
  then have "unat (push_bit 6 (drop_bit 6 b)) = unat b div 64 * 64"
    by (simp only: push_bit_eq_mult unat_word_ariths u) simp
  then show ?thesis
    unfolding byte_top_bits word_unat_eq_iff by simp
qed
lemma v4_nat_div:
  "v4_nat a b c d div 2 ^ 24 = unat a"
  "v4_nat a b c d div 2 ^ 22 = unat a * 4 + unat b div 64"
  "v4_nat a b c d div 2 ^ 20 = unat a * 16 + unat b div 16"
  "v4_nat a b c d div 2 ^ 16 = unat a * 256 + unat b"
  "v4_nat a b c d div 2 ^ 8 = unat a * 65536 + unat b * 256 + unat c"
  using byte_lt_256 [of a] byte_lt_256 [of b] byte_lt_256 [of c] byte_lt_256 [of d]
  unfolding v4_nat_def by (simp, linarith)+

lemma digits:
  fixes k :: nat
  assumes "m < k" "n < k"
  shows "x * k + m = y * k + n \<longleftrightarrow> x = y \<and> m = n"
proof
  assume eq: "x * k + m = y * k + n"
  have "(x * k + m) div k = x" "(y * k + n) div k = y"
    using assms by simp_all
  with eq have "x = y"
    by simp
  with eq show "x = y \<and> m = n"
    by simp
qed simp

lemma in_block_v4:
  "in_block (v4_nat a b c d) (v4_nat a' b' c' d', 8) \<longleftrightarrow> a = a'"
  "in_block (v4_nat a b c d) (v4_nat a' b' c' d', 10) \<longleftrightarrow> a = a' \<and> unat b div 64 = unat b' div 64"
  "in_block (v4_nat a b c d) (v4_nat a' b' c' d', 12) \<longleftrightarrow> a = a' \<and> unat b div 16 = unat b' div 16"
  "in_block (v4_nat a b c d) (v4_nat a' b' c' d', 16) \<longleftrightarrow> a = a' \<and> b = b'"
  "in_block (v4_nat a b c d) (v4_nat a' b' c' d', 24) \<longleftrightarrow> a = a' \<and> b = b' \<and> c = c'"
  "in_block (v4_nat a b c d) (v4_nat a' b' c' d', 32) \<longleftrightarrow> a = a' \<and> b = b' \<and> c = c' \<and> d = d'"
proof -
  have small: "unat x div 64 < 4" "unat x div 16 < 16" for x :: byte
    using byte_lt_256 [of x] by linarith+
  have shift: "(32 :: nat) - 8 = 24" "(32 :: nat) - 10 = 22" "(32 :: nat) - 12 = 20"
      "(32 :: nat) - 16 = 16" "(32 :: nat) - 24 = 8" "(32 :: nat) - 32 = 0"
    by simp_all
  have c3: "unat a * 65536 + unat b * 256 + unat c = (unat a * 256 + unat b) * 256 + unat c"
    for a b c :: byte
    by simp
  have c4: "v4_nat a b c d = ((unat a * 256 + unat b) * 256 + unat c) * 256 + unat d"
    for a b c d
    by (simp add: v4_nat_def)
  show "in_block (v4_nat a b c d) (v4_nat a' b' c' d', 8) \<longleftrightarrow> a = a'"
    by (simp only: in_block_def prod.case shift v4_nat_div) (simp add: word_unat_eq_iff)
  show "in_block (v4_nat a b c d) (v4_nat a' b' c' d', 10) \<longleftrightarrow> a = a' \<and> unat b div 64 = unat b' div 64"
    by (simp only: in_block_def prod.case shift v4_nat_div digits [OF small(1) small(1)]) (simp add: word_unat_eq_iff)
  show "in_block (v4_nat a b c d) (v4_nat a' b' c' d', 12) \<longleftrightarrow> a = a' \<and> unat b div 16 = unat b' div 16"
    by (simp only: in_block_def prod.case shift v4_nat_div digits [OF small(2) small(2)]) (simp add: word_unat_eq_iff)
  show "in_block (v4_nat a b c d) (v4_nat a' b' c' d', 16) \<longleftrightarrow> a = a' \<and> b = b'"
    by (simp only: in_block_def prod.case shift v4_nat_div digits [OF byte_lt_256 byte_lt_256]) (simp add: word_unat_eq_iff)
  show "in_block (v4_nat a b c d) (v4_nat a' b' c' d', 24) \<longleftrightarrow> a = a' \<and> b = b' \<and> c = c'"
    by (simp only: in_block_def prod.case shift v4_nat_div c3 digits [OF byte_lt_256 byte_lt_256]) (simp add: word_unat_eq_iff)
  show "in_block (v4_nat a b c d) (v4_nat a' b' c' d', 32) \<longleftrightarrow> a = a' \<and> b = b' \<and> c = c' \<and> d = d'"
    by (simp only: in_block_def prod.case shift power_0 div_by_1 c4 digits [OF byte_lt_256 byte_lt_256]) (simp add: word_unat_eq_iff)
qed

lemma be16_parts: "ucast (drop_bit 8 (be16 a b)) = a" "ucast (be16 a b) = b"
  by (rule bit_word_eqI, auto simp: be16_def bit_simps dest: bit_imp_le_length)+

text \<open>
  The address classes the guard treats as private are exactly these blocks
  of the IPv4 space (RFC 1918, loopback, link-local with the metadata services, broadcast,
  unspecified, the documentation nets and 100.64.0.0/10), and a v4-mapped IPv6 address is
  judged as the IPv4 address in it.
\<close>

lemma private_is_these_blocks:
  "is_private (V4 a b c d) = list_ex (in_block (v4_nat a b c d)) private_blocks \<and>
   is_private (V6 0 0 0 0 0 0xFFFF (be16 a b) (be16 c d)) = is_private (V4 a b c d)"
proof
  have "16 \<le> b \<and> b \<le> 31 \<longleftrightarrow> unat b div 16 = 1"
    using byte_lt_256 [of b] by (auto simp: word_le_nat_alt)
  then show "is_private (V4 a b c d) = list_ex (in_block (v4_nat a b c d)) private_blocks"
    by (auto simp: private_blocks_def in_block_v4 shared_space)
  show "is_private (V6 0 0 0 0 0 0xFFFF (be16 a b) (be16 c d)) = is_private (V4 a b c d)"
    by (simp add: be16_parts)
qed

text \<open>
  The configured deny list is not applied that way: a network given in IPv4 notation does not
  contain the v4-mapped spelling of its addresses, so with private upstreams allowed the
  metadata service is refused under its own address and accepted under the mapped one.
\<close>

lemma mapped_address_escapes_deny_list:
  "guard_check \<lparr>gd_net = octet_nets, gd_deny = [[169, 254]], gd_allow_private = True\<rparr>
     (V4 169 254 169 254) \<noteq> None"
  "guard_check \<lparr>gd_net = octet_nets, gd_deny = [[169, 254]], gd_allow_private = True\<rparr>
     (V6 0 0 0 0 0 0xFFFF 0xA9FE 0xA9FE) = None"
  by (simp_all add: guard_check_def octet_nets_def)

theorem guard_connects_only_to_checked_witness:
  "guard_check \<lparr>gd_net = octet_nets, gd_deny = [[10]], gd_allow_private = False\<rparr> (V4 8 8 8 8) = None"
proof -
  let ?a = "\<lparr>sa_ip = V4 8 8 8 8, sa_port = 443\<rparr>"
  let ?env = "\<lparr>ne_lookup = (\<lambda>h p w. (Inr [\<lparr>sa_ip = V4 8 8 8 8, sa_port = p\<rparr>], w)),
      ne_connect = (\<lambda>a w. (Inr (), w))\<rparr> :: (unit, unit) net_env"
  let ?g = "\<lparr>gd_net = octet_nets, gd_deny = [[10]], gd_allow_private = False\<rparr>"
  have "guard_connect ?env ?g \<lparr>auth_host = ''dns.test'', auth_port = 443\<rparr> () =
      (Some (Inr ()), [?a], ())"
    by code_simp
  from guard_connects_only_to_checked [OF this, of ?a] show ?thesis
    by simp
qed

section \<open>Endpoints\<close>

datatype http_error =
    HResolve string
  | HConnect string
  | HTls string
  | HHttp string
  | HStatus nat string
  | HResponseTooLarge nat
  | HMalformedJson string
  | HInvalidUrl string
  | HBlocked guard_error

record endpoint =
  ep_https :: bool
  ep_host :: string
  ep_port :: u16

definition endpoint_parse :: "string \<Rightarrow> http_error + endpoint" where
  "endpoint_parse url =
    (case split_once_str ''://'' url of
       None \<Rightarrow> Inl (HInvalidUrl url)
     | Some (scheme, rest) \<Rightarrow>
         if scheme \<noteq> ''https'' \<and> scheme \<noteq> ''http''
         then Inl (HInvalidUrl (url @ '': unsupported scheme `'' @ scheme @ ''`, expected http or https''))
         else let https = (scheme = ''https'') in
           if CHR ''/'' \<in> set rest
           then Inl (HInvalidUrl (url @ '': expected `scheme://host[:port]` with no path''))
           else let bare = (if rest = [] then Inl (HInvalidUrl url)
                  else Inr \<lparr>ep_https = https, ep_host = rest, ep_port = (if https then 443 else 80)\<rparr>)
             in (case rsplit_once (CHR '':'') rest of
                   Some (h, p) \<Rightarrow>
                     if h \<noteq> [] \<and> list_all is_ascii_digit p
                     then (case parse_uint 65535 p of
                        None \<Rightarrow> Inl (HInvalidUrl (url @ '': bad port''))
                      | Some port \<Rightarrow>
                          Inr \<lparr>ep_https = https, ep_host = h, ep_port = word_of_nat port\<rparr>)
                     else bare
                 | None \<Rightarrow> bare))"

definition endpoint_parse_with_path :: "string \<Rightarrow> http_error + endpoint \<times> string" where
  "endpoint_parse_with_path url =
    (case split_once_str ''://'' url of
       None \<Rightarrow> Inl (HInvalidUrl url)
     | Some (scheme, rest) \<Rightarrow>
         (let auth = takeWhile (\<lambda>c. c \<noteq> CHR ''/'') rest;
              path = (if CHR ''/'' \<in> set rest then dropWhile (\<lambda>c. c \<noteq> CHR ''/'') rest else ''/'')
          in map_sum id (\<lambda>e. (e, path)) (endpoint_parse (scheme @ ''://'' @ auth))))"

definition endpoint_https :: "string \<Rightarrow> endpoint" where
  "endpoint_https host = \<lparr>ep_https = True, ep_host = host, ep_port = 443\<rparr>"

definition endpoint_uri :: "endpoint \<Rightarrow> string \<Rightarrow> string" where
  "endpoint_uri e path =
     (if ep_https e then ''https'' else ''http'') @ ''://'' @ ep_host e @ '':''
     @ show_nat (unat (ep_port e)) @ path"

definition endpoint_authority :: "endpoint \<Rightarrow> authority" where
  "endpoint_authority e = \<lparr>auth_host = ep_host e, auth_port = ep_port e\<rparr>"

definition host_header :: "endpoint \<Rightarrow> string" where
  "host_header e =
    (let default = (if ep_https e then 443 else 80) in
     if ep_port e = default then ep_host e
     else ep_host e @ '':'' @ show_nat (unat (ep_port e)))"

lemma u16_le [simp]: "unat (p :: u16) \<le> 65535"
  using unsigned_less [of p, where 'a = nat] by simp

lemma no_colon_in_digits: "CHR '':'' \<notin> set (show_nat n)"
  using show_nat_digits [of "CHR '':''" n]
  by (auto simp: is_ascii_digit_def less_eq_char_def)

lemma split_scheme:
  "split_once_str ''://'' (''https://'' @ r) = Some (''https'', r)"
  "split_once_str ''://'' (''http://'' @ r) = Some (''http'', r)"
  by (simp_all add: prefix_def)

lemma no_slash_in_digits: "CHR ''/'' \<notin> set (show_nat n)"
  using show_nat_digits [of "CHR ''/''" n]
  by (auto simp: is_ascii_digit_def less_eq_char_def)

lemma endpoint_parse_hostport:
  assumes "h \<noteq> []" and "CHR ''/'' \<notin> set h"
  shows "endpoint_parse ((if https then ''https'' else ''http'') @ ''://'' @ h @ '':''
      @ show_nat (unat (p :: u16)))
    = Inr \<lparr>ep_https = https, ep_host = h, ep_port = p\<rparr>"
proof -
  let ?rest = "h @ '':'' @ show_nat (unat p)"
  have rs: "rsplit_once (CHR '':'') ?rest = Some (h, show_nat (unat p))"
    using no_colon_in_digits [of "unat p"] by (simp add: rsplit_once_Some)
  have all: "list_all is_ascii_digit (show_nat (unat p))"
    using show_nat_digits [of _ "unat p"] by (simp add: list_all_iff)
  have ns: "CHR ''/'' \<notin> set ?rest"
    using assms(2) no_slash_in_digits [of "unat p"] by simp
  show ?thesis
    using split_scheme [of ?rest] rs all ns assms(1)
    by (cases https) (simp_all add: endpoint_parse_def parse_uint_show)
qed

text \<open>
  What the client prints as an endpoint's URI reads back as that endpoint and
  path, so a URL taken apart and put together again names the same server: scheme, host and
  port are never confused.
\<close>

lemma endpoint_uri_roundtrip:
  assumes "ep_host e \<noteq> []" and "CHR ''/'' \<notin> set (ep_host e)"
    and "path = [] \<or> hd path = CHR ''/''"
  shows "endpoint_parse_with_path (endpoint_uri e path) =
    Inr (e, if path = [] then ''/'' else path)"
proof -
  let ?rest = "ep_host e @ '':'' @ show_nat (unat (ep_port e))"
  have ns: "CHR ''/'' \<notin> set ?rest"
    using assms(2) no_slash_in_digits [of "unat (ep_port e)"] by simp
  have tw: "takeWhile (\<lambda>c. c \<noteq> CHR ''/'') (?rest @ path) = ?rest"
    "dropWhile (\<lambda>c. c \<noteq> CHR ''/'') (?rest @ path) = path"
    using ns assms(3)
    by (cases path; auto simp: takeWhile_append2 dropWhile_append2 takeWhile_append dropWhile_append)+
  have "split_once_str ''://'' (endpoint_uri e path) =
      Some (if ep_https e then ''https'' else ''http'', ?rest @ path)"
    using split_scheme [of "?rest @ path"] by (simp add: endpoint_uri_def)
  moreover have "CHR ''/'' \<in> set (?rest @ path) \<longleftrightarrow> path \<noteq> []"
    using ns assms(3) by (cases path) auto
  ultimately show ?thesis
    using endpoint_parse_hostport [OF assms(1,2), of "ep_https e" "ep_port e"] tw
    by (simp add: endpoint_parse_with_path_def Let_def)
qed

text \<open>Shapes the module's comment excludes and the parser accepts as host names.\<close>

lemma endpoint_accepts_other_shapes:
  "endpoint_parse ''https://user@host?x=1'' =
     Inr \<lparr>ep_https = True, ep_host = ''user@host?x=1'', ep_port = 443\<rparr>"
  "endpoint_parse ''https://:443'' = Inr \<lparr>ep_https = True, ep_host = '':443'', ep_port = 443\<rparr>"
  by code_simp+

end
