(* ===== verification/Client.thy ===== *)
theory Client
  imports Guard
begin

text \<open>
  \<open>crates/marshal-http/src/client.rs\<close> and \<open>Endpoint::connect\<close>: one request, one capped
  response, for the calls the proxy makes as itself. The TLS handshake and the HTTP exchange
  (crates \<open>rustls\<close> and \<open>hyper\<close>) extend the parameter \<open>net_env\<close>; a response is its status and the
  frames that arrive.
\<close>

datatype frame = FrameError string | FrameData "byte list" | FrameOther

record http_request =
  hq_method :: string
  hq_uri :: string
  hq_headers :: "(string \<times> string) list"
  hq_body :: "byte list"

record ('sock, 'conn, 'w) http_env = "('sock, 'w) net_env" +
  he_server_name_ok :: "string \<Rightarrow> bool"
  he_plain :: "'sock \<Rightarrow> 'conn"
  he_tls :: "string \<Rightarrow> 'sock \<Rightarrow> 'w \<Rightarrow> (string + 'conn) \<times> 'w"
  he_exchange :: "'conn \<Rightarrow> http_request \<Rightarrow> 'w \<Rightarrow> (string + nat \<times> frame list) \<times> 'w"
  he_uri_ok :: "string \<Rightarrow> bool"
  he_build_error :: "http_request \<Rightarrow> string"

definition max_response_bytes :: nat where
  "max_response_bytes = 256 * 1024"

text \<open>
  The result \<open>None\<close> is a panic: only the guard's \<open>expect\<close>, which it never reaches.
\<close>

definition endpoint_tcp ::
  "('sock, 'conn, 'w) http_env \<Rightarrow> endpoint \<Rightarrow> 'net guard option \<Rightarrow> 'w
     \<Rightarrow> (http_error + 'sock) option \<times> 'w" where
  "endpoint_tcp env e guard w =
    (case guard of
       Some g \<Rightarrow>
         (case guard_connect (net_env.truncate env) g (endpoint_authority e) w of
            (r, tried, w') \<Rightarrow> (map_option (map_sum HBlocked id) r, w'))
     | None \<Rightarrow>
         (case ne_lookup env (ep_host e) (ep_port e) w of
            (Inl err, w') \<Rightarrow> (Some (Inl (HResolve err)), w')
          | (Inr [], w') \<Rightarrow> (Some (Inl (HResolve (''no address for '' @ ep_host e))), w')
          | (Inr (a # _), w') \<Rightarrow>
              (case ne_connect env a w' of
                 (Inl err, w'') \<Rightarrow> (Some (Inl (HConnect err)), w'')
               | (Inr s, w'') \<Rightarrow> (Some (Inr s), w''))))"

definition endpoint_connect ::
  "('sock, 'conn, 'w) http_env \<Rightarrow> endpoint \<Rightarrow> 'net guard option \<Rightarrow> 'w
     \<Rightarrow> (http_error + 'conn) option \<times> 'w" where
  "endpoint_connect env e guard w =
    (case endpoint_tcp env e guard w of
       (None, w') \<Rightarrow> (None, w')
     | (Some (Inl err), w') \<Rightarrow> (Some (Inl err), w')
     | (Some (Inr tcp), w') \<Rightarrow>
         if \<not> ep_https e then (Some (Inr (he_plain env tcp)), w')
         else if \<not> he_server_name_ok env (ep_host e)
         then (Some (Inl (HInvalidUrl (''bad hostname: '' @ ep_host e))), w')
         else (case he_tls env (ep_host e) tcp w' of
            (Inl err, w'') \<Rightarrow> (Some (Inl (HTls err)), w'')
          | (Inr conn, w'') \<Rightarrow> (Some (Inr conn), w'')))"

fun read_frames :: "byte list \<Rightarrow> frame list \<Rightarrow> http_error + byte list" where
  "read_frames body [] = Inr body"
| "read_frames body (FrameError e # fs) = Inl (HHttp e)"
| "read_frames body (FrameOther # fs) = read_frames body fs"
| "read_frames body (FrameData d # fs) =
    (if max_response_bytes < length body + length d then Inl (HResponseTooLarge max_response_bytes)
     else read_frames (body @ d) fs)"

definition http_send ::
  "('sock, 'conn, 'w) http_env \<Rightarrow> endpoint \<Rightarrow> 'net guard option \<Rightarrow> http_request \<Rightarrow> 'w
     \<Rightarrow> (http_error + nat \<times> byte list) option \<times> 'w" where
  "http_send env e guard req w =
    (case endpoint_connect env e guard w of
       (None, w') \<Rightarrow> (None, w')
     | (Some (Inl err), w') \<Rightarrow> (Some (Inl err), w')
     | (Some (Inr conn), w') \<Rightarrow>
         (case he_exchange env conn req w' of
            (Inl err, w'') \<Rightarrow> (Some (Inl (HHttp err)), w'')
          | (Inr (status, frames), w'') \<Rightarrow>
              (Some (map_sum id (Pair status) (read_frames [] frames)), w'')))"

definition is_success :: "nat \<Rightarrow> bool" where
  "is_success status \<longleftrightarrow> 200 \<le> status \<and> status < 300"

definition post_json ::
  "('sock, 'conn, 'w) http_env \<Rightarrow> json_lib \<Rightarrow> endpoint \<Rightarrow> 'net guard option \<Rightarrow> http_request \<Rightarrow> 'w
     \<Rightarrow> (http_error + json) option \<times> 'w" where
  "post_json env js e guard req w =
    (case http_send env e guard req w of
       (None, w') \<Rightarrow> (None, w')
     | (Some (Inl err), w') \<Rightarrow> (Some (Inl err), w')
     | (Some (Inr (status, body)), w') \<Rightarrow>
         (Some (if \<not> is_success status then Inl (HStatus status (from_utf8_lossy body))
                else (case jl_parse js body of
                   Some v \<Rightarrow> Inr v
                 | None \<Rightarrow> Inl (HMalformedJson (jl_error js body)))), w'))"

text \<open>Header values the crate \<open>http\<close> accepts: no control character but the tab.\<close>

definition header_value_ok :: "string \<Rightarrow> bool" where
  "header_value_ok v \<longleftrightarrow>
     (\<forall>c \<in> set v. let n = (of_char c :: nat) in (32 \<le> n \<and> n \<noteq> 127) \<or> n = 9)"

definition request_builds ::
  "('sock, 'conn, 'w) http_env \<Rightarrow> http_request \<Rightarrow> bool" where
  "request_builds env req \<longleftrightarrow>
     he_uri_ok env (hq_uri req) \<and> list_all (\<lambda>(n, v). header_value_ok v) (hq_headers req)"

definition post_request ::
  "endpoint \<Rightarrow> string \<Rightarrow> (string \<times> string) list \<Rightarrow> byte list \<Rightarrow> http_request" where
  "post_request e path headers body =
     \<lparr>hq_method = ''POST'', hq_uri = endpoint_uri e path,
      hq_headers = (''host'', host_header e) # headers, hq_body = body\<rparr>"

definition post_body ::
  "('sock, 'conn, 'w) http_env \<Rightarrow> json_lib \<Rightarrow> endpoint \<Rightarrow> 'net guard option \<Rightarrow> string \<Rightarrow> string
     \<Rightarrow> (string \<times> string) list \<Rightarrow> byte list \<Rightarrow> 'w \<Rightarrow> (http_error + nat \<times> json) option \<times> 'w" where
  "post_body env js e guard path ctype extra body w =
    (let req = post_request e path
           ([(''content-type'', ctype), (''accept'', ''application/json'')] @ extra) body
     in if \<not> request_builds env req then (Some (Inl (HInvalidUrl (he_build_error env req))), w)
        else case http_send env e guard req w of
          (None, w') \<Rightarrow> (None, w')
        | (Some (Inl err), w') \<Rightarrow> (Some (Inl err), w')
        | (Some (Inr (status, reply)), w') \<Rightarrow>
            (Some (case jl_parse js reply of
               Some v \<Rightarrow> Inr (status, v)
             | None \<Rightarrow>
                 if is_success status then Inl (HMalformedJson (jl_error js reply))
                 else Inl (HStatus status (from_utf8_lossy reply))), w'))"

definition post_form ::
  "('sock, 'conn, 'w) http_env \<Rightarrow> json_lib \<Rightarrow> endpoint \<Rightarrow> 'net guard option \<Rightarrow> string
     \<Rightarrow> (string \<times> string) list \<Rightarrow> string \<Rightarrow> 'w \<Rightarrow> (http_error + nat \<times> json) option \<times> 'w" where
  "post_form env js e guard path extra form w =
     post_body env js e guard path ''application/x-www-form-urlencoded'' extra (bytes_of form) w"

text \<open>\<open>None\<close> is the panic of \<open>expect(''well-formed request'')\<close>.\<close>

definition json_post_request ::
  "('sock, 'conn, 'w) http_env \<Rightarrow> json_lib \<Rightarrow> endpoint \<Rightarrow> string \<Rightarrow> (string \<times> string) list \<Rightarrow> json
     \<Rightarrow> http_request option" where
  "json_post_request env js e path extra body =
    (let req = post_request e path ((''content-type'', ''application/json'') # extra)
           (bytes_of (jl_show js body))
     in if request_builds env req then Some req else None)"

section \<open>Facts\<close>

fun frame_data :: "frame \<Rightarrow> byte list" where
  "frame_data (FrameData d) = d"
| "frame_data _ = []"

fun is_frame_error :: "frame \<Rightarrow> bool" where
  "is_frame_error (FrameError _) = True"
| "is_frame_error _ = False"

lemma read_frames_acc:
  "length body \<le> max_response_bytes \<Longrightarrow> (read_frames body fs = Inr out) \<longleftrightarrow>
     (\<forall>f \<in> set fs. is_frame_error f = False) \<and> out = body @ concat (map frame_data fs) \<and>
     length out \<le> max_response_bytes"
proof (induction body fs rule: read_frames.induct)
  case (4 body d fs)
  then show ?case
    by (cases "max_response_bytes < length body + length d") auto
qed auto

text \<open>
  C32 (bounds). The client reads a response completely or not at all: it succeeds exactly when
  no frame fails and everything sent fits under the cap, and then returns all of it; an
  endpoint that never stops sending costs at most the cap.
\<close>

theorem response_is_whole_and_capped:
  "(read_frames [] fs = Inr body) =
     ((\<forall>f \<in> set fs. is_frame_error f = False) \<and> body = concat (map frame_data fs) \<and>
      length body \<le> max_response_bytes)"
  using read_frames_acc [of "[]" fs body] by simp

theorem response_is_whole_and_capped_witness:
  "(read_frames [] [FrameData [1, 2], FrameOther, FrameData [3]] = Inr [1, 2, 3]) =
     ((\<forall>f \<in> set [FrameData [1, 2], FrameOther, FrameData [3]]. is_frame_error f = False) \<and>
      [1, 2, 3] = concat (map frame_data [FrameData [1, 2], FrameOther, FrameData [3]]) \<and>
      length [1 :: byte, 2, 3] \<le> max_response_bytes)"
  by (rule response_is_whole_and_capped)

text \<open>A key with a line break in it makes the request builder panic while a request is served.\<close>

lemma api_key_with_newline_panics:
  "json_post_request env js e path [(''authorization'', ''Bearer k'' @ [CHR 0x0A])] body = None"
  by (simp add: json_post_request_def request_builds_def post_request_def header_value_ok_def)

end
