(* ===== verification/Build.thy ===== *)
theory Build
  imports Layers Mcp Transforms Judge Providers
begin

text \<open>
  \<open>crates/marshal-policy/src/build.rs\<close>: from the configuration of a profile to the chain and
  the transforms that run for it.
\<close>

section \<open>Errors\<close>

text \<open>
  The constructors of \<open>BuildError\<close>, and \<open>BuildPanics\<close> for the \<open>expect\<close> on a builtin pattern the
  regular expression library refuses.
\<close>

datatype build_error =
    UnknownTransformBundle string
  | InvalidRequestHeaderName string string
  | ManagedRequestHeader string string
  | InvalidRequestHeaderValue string string
  | BuildPattern string string pattern_error
  | UnknownBundle string string
  | AmbiguousHeaderFilter string string
  | Unimplemented string string
  | UnknownPattern string string string
  | BuildMcp string mcp_config_error
  | JudgeScopeError string pattern_error
  | JudgeProvider string provider_error
  | BuildRule string rule_compile_error
  | BuildPanics string

section \<open>Parameters\<close>

text \<open>
  The libraries, the environment, the provider and cache a judge is given, and the parser of
  header names of the crate \<open>http\<close>.
\<close>

record ('net, 're, 'gl, 'prog, 'c, 'w) build_env =
  be_mcp :: "('net, 're, 'gl) mcp_libs"
  be_cel :: "'prog cel_lib"
  be_environment :: environment
  be_judge :: "provider \<Rightarrow> ('c, 'w) judge_env"
  be_cache :: "cache_config \<Rightarrow> 'c"
  be_header_name :: "string \<Rightarrow> string option"

section \<open>The state of a chain\<close>

text \<open>
  The clock and the world are shared; every judge of the chain has a cache and a breaker of its
  own, at its position among the judges.
\<close>

type_synonym 'c judge_slot = "'c \<times> breaker"

record ('c, 'w) chain_state =
  cst_now :: nat
  cst_world :: 'w
  cst_judges :: "'c judge_slot list"

definition slot_load :: "nat \<Rightarrow> ('c, 'w) chain_state \<Rightarrow> ('c, 'w) judge_state" where
  "slot_load k st =
     \<lparr>jst_cache = fst (cst_judges st ! k), jst_breaker = snd (cst_judges st ! k),
      jst_now = cst_now st, jst_world = cst_world st\<rparr>"

definition slot_store ::
  "nat \<Rightarrow> ('c, 'w) judge_state \<Rightarrow> ('c, 'w) chain_state \<Rightarrow> ('c, 'w) chain_state" where
  "slot_store k js st =
     \<lparr>cst_now = jst_now js, cst_world = jst_world js,
      cst_judges = (cst_judges st)[k := (jst_cache js, jst_breaker js)]\<rparr>"

definition judge_at_eval ::
  "('c, 'w) judge_env \<Rightarrow> 'net judge \<Rightarrow> nat \<Rightarrow> request_context \<Rightarrow> evidence \<Rightarrow> ('c, 'w) chain_state
     \<Rightarrow> (core_error + verdict) \<times> ('c, 'w) chain_state" where
  "judge_at_eval env j k cx ev st =
    (case judge_eval env j cx ev (slot_load k st) of (v, js) \<Rightarrow> (v, slot_store k js st))"

definition judge_at ::
  "('c, 'w) judge_env \<Rightarrow> 'net judge \<Rightarrow> nat \<Rightarrow> ('c, 'w) chain_state layer" where
  "judge_at env j k =
     \<lparr>ly_name = ly_name (judge_layer env j), ly_cost = ly_cost (judge_layer env j),
      ly_needs_request = ly_needs_request (judge_layer env j),
      ly_body_requirement = ly_body_requirement (judge_layer env j),
      ly_on_error = ly_on_error (judge_layer env j), ly_eval = judge_at_eval env j k\<rparr>"

interpretation judge_at: policy_layer "judge_at_eval env j k" for env j k
proof
  fix cx ev st ev'
  assume "fst (judge_at_eval env j k cx ev st) = Inr (Pass ev')"
  then have "fst (judge_eval env j cx ev (slot_load k st)) = Inr (Pass ev')"
    by (simp add: judge_at_eval_def split: prod.splits)
  then show "ev_le ev ev'" "trail ev' = trail ev"
    by (rule judge.pass_extends, rule judge.pass_trail)
qed

section \<open>Host sets\<close>

fun expand_bundles ::
  "config \<Rightarrow> string \<Rightarrow> string list \<Rightarrow> string list \<Rightarrow> string list
     \<Rightarrow> build_error + string list \<times> string list" where
  "expand_bundles cfg profile [] domains cidrs = Inr (domains, cidrs)"
| "expand_bundles cfg profile (bundle # rest) domains cidrs =
    (case map_of (cf_bundles cfg) bundle of
       None \<Rightarrow> Inl (UnknownBundle profile bundle)
     | Some b \<Rightarrow>
         expand_bundles cfg profile rest (domains @ hs_domains b) (cidrs @ hs_cidrs b))"

definition matcher ::
  "'net ipnet \<Rightarrow> config \<Rightarrow> string \<Rightarrow> string \<Rightarrow> host_set \<Rightarrow> build_error + 'net host_matcher" where
  "matcher net cfg profile layer hs =
    (case expand_bundles cfg profile (hs_bundles hs) (hs_domains hs) (hs_cidrs hs) of
       Inl e \<Rightarrow> Inl e
     | Inr (domains, cidrs) \<Rightarrow> map_sum (BuildPattern profile layer) id (matcher_new net domains cidrs))"

section \<open>Transform bundles\<close>

definition absorb_bundle ::
  "transform_bundle \<Rightarrow> request_transforms \<times> response_transforms
     \<Rightarrow> request_transforms \<times> response_transforms" where
  "absorb_bundle b acc =
    (case acc of (request, response) \<Rightarrow>
       (\<lparr>rqt_headers =
            (if rqt_headers (tb_request b) \<noteq> None then rqt_headers (tb_request b)
             else rqt_headers request),
          rqt_set_headers =
            foldl (\<lambda>m (k, v). map_insert k v m) (rqt_set_headers request)
              (rqt_set_headers (tb_request b)),
          rqt_secrets = rqt_secrets request @ rqt_secrets (tb_request b),
          rqt_llm_router =
            (if rqt_llm_router (tb_request b) \<noteq> None then rqt_llm_router (tb_request b)
             else rqt_llm_router request)\<rparr>,
        \<lparr>rst_headers =
            (if rst_headers (tb_response b) \<noteq> None then rst_headers (tb_response b)
             else rst_headers response),
          rst_body = rst_body response @ rst_body (tb_response b)\<rparr>))"

fun absorb_bundles ::
  "config \<Rightarrow> string list \<Rightarrow> request_transforms \<times> response_transforms
     \<Rightarrow> build_error + request_transforms \<times> response_transforms" where
  "absorb_bundles cfg [] acc = Inr acc"
| "absorb_bundles cfg (name # names) acc =
    (case map_of (cf_transforms cfg) name of
       None \<Rightarrow> Inl (UnknownTransformBundle name)
     | Some b \<Rightarrow> absorb_bundles cfg names (absorb_bundle b acc))"

definition resolve_profile :: "config \<Rightarrow> profile \<Rightarrow> build_error + profile" where
  "resolve_profile cfg pf =
    (if pf_transforms pf = [] then Inr pf
     else case absorb_bundles cfg (pf_transforms pf)
                 (default_request_transforms, default_response_transforms) of
       Inl e \<Rightarrow> Inl e
     | Inr (request, response) \<Rightarrow>
         Inr (pf\<lparr>pf_request_transforms := request, pf_response_transforms := response\<rparr>))"

section \<open>The chain\<close>

fun build_patterns ::
  "('re, 'x) regex_lib_scheme \<Rightarrow> string \<Rightarrow> string list \<Rightarrow> build_error + 're cred_pattern list" where
  "build_patterns rl profile [] = Inr []"
| "build_patterns rl profile (name # names) =
    (case builtin rl name of
       NoSuchPattern \<Rightarrow> Inl (UnknownPattern profile name (join '', '' builtin_names))
     | PatternPanics \<Rightarrow> Inl (BuildPanics name)
     | BuiltPattern p \<Rightarrow> map_sum id (Cons p) (build_patterns rl profile names))"

fun dlp_oversize_of :: "cfg_oversize \<Rightarrow> oversize" where
  "dlp_oversize_of CfgDeny = OversizeDeny"
| "dlp_oversize_of CfgPassUnscanned = PassUnscanned"

definition build_dlp ::
  "'re regex_lib \<Rightarrow> string \<Rightarrow> dlp_config \<Rightarrow> build_error + 're dlp" where
  "build_dlp rl profile dc =
     map_sum id
       (\<lambda>ps. \<lparr>dlp_patterns = ps, dlp_scan_request = dc_scan_request dc,
              dlp_on_match = dc_on_match dc, dlp_annotate = dc_annotate dc,
              dlp_body_cap = dc_max_body_bytes dc, dlp_oversize = dlp_oversize_of (dc_on_oversize dc)\<rparr>)
       (build_patterns rl profile (dc_patterns dc))"

definition build_judge ::
  "('net, 're, 'gl, 'prog, 'c, 'w) build_env \<Rightarrow> string \<Rightarrow> judge_config
     \<Rightarrow> build_error + ('c, 'w) judge_env \<times> 'net judge \<times> 'c judge_slot" where
  "build_judge be profile jc =
    (case scope_compile (mcl_net (be_mcp be)) (jc_scope jc) of
       Inl e \<Rightarrow> Inl (JudgeScopeError profile e)
     | Inr scope \<Rightarrow>
         (case build_provider (be_environment be) (jc_provider jc) of
            Inl e \<Rightarrow> Inl (JudgeProvider profile e)
          | Inr p \<Rightarrow>
              Inr (be_judge be p,
                   judge_new (mcl_net (be_mcp be)) scope (jc_prompt jc) (jc_max_concurrent jc)
                     (jc_timeout jc) (jc_on_error jc) (jc_on_timeout jc),
                   (be_cache be (jc_cache jc),
                    breaker_new (of_nat (cb_consecutive_failures (jc_circuit_breaker jc)))
                      (cb_cooldown (jc_circuit_breaker jc))))))"

text \<open>One layer, with the slot it adds when it is a judge; \<open>k\<close> counts the judges before it.\<close>

definition build_layer ::
  "('net, 're, 'gl, 'prog, 'c, 'w) build_env \<Rightarrow> config \<Rightarrow> string \<Rightarrow> nat \<Rightarrow> layer_config
     \<Rightarrow> build_error + ('c, 'w) chain_state layer \<times> 'c judge_slot list" where
  "build_layer be cfg profile k lc =
    (let net = mcl_net (be_mcp be) in
     case lc of
       LDenylist deny \<Rightarrow>
         map_sum id (\<lambda>m. (denylist_layer net m, [])) (matcher net cfg profile ''denylist'' deny)
     | LAllowlist allow on_match on_miss \<Rightarrow>
         map_sum id
           (\<lambda>m. (allowlist_layer net
                   \<lparr>al_matcher = m, al_on_match = on_match, al_on_miss = on_miss\<rparr>, []))
           (matcher net cfg profile ''allowlist'' allow)
     | LDlp dc \<Rightarrow>
         map_sum id (\<lambda>d. (dlp_layer (mcl_re (be_mcp be)) d, []))
           (build_dlp (mcl_re (be_mcp be)) profile dc)
     | LRules exprs \<Rightarrow>
         map_sum (BuildRule profile) (\<lambda>rs. (rules_layer (be_cel be) rs, []))
           (rules_compile (be_cel be) 0 (map (\<lambda>e. (re_when e, re_verdict e, re_flags e)) exprs))
     | LMcp servers cap \<Rightarrow>
         map_sum (BuildMcp profile) (\<lambda>p. (mcp_layer (be_mcp be) p cap, []))
           (policy_compile net (mcl_re (be_mcp be)) (mcl_gl (be_mcp be)) servers)
     | LJudge jc \<Rightarrow>
         map_sum id (\<lambda>(env, j, slot). (judge_at env j k, [slot])) (build_judge be profile jc))"

fun build_layers ::
  "('net, 're, 'gl, 'prog, 'c, 'w) build_env \<Rightarrow> config \<Rightarrow> string \<Rightarrow> nat \<Rightarrow> layer_config list
     \<Rightarrow> build_error + ('c, 'w) chain_state layer list \<times> 'c judge_slot list" where
  "build_layers be cfg profile k [] = Inr ([], [])"
| "build_layers be cfg profile k (lc # lcs) =
    (case build_layer be cfg profile k lc of
       Inl e \<Rightarrow> Inl e
     | Inr (ly, slots) \<Rightarrow>
         map_sum id (\<lambda>(lys, more). (ly # lys, slots @ more))
           (build_layers be cfg profile (k + length slots) lcs))"

fun is_limit :: "body_transform \<Rightarrow> bool" where
  "is_limit (BtLimit _ _) = True"
| "is_limit _ = False"

definition build_chain ::
  "('net, 're, 'gl, 'prog, 'c, 'w) build_env \<Rightarrow> config \<Rightarrow> string \<Rightarrow> profile
     \<Rightarrow> (request_context \<Rightarrow> approval_request \<Rightarrow> verdict)
     \<Rightarrow> build_error + ('c, 'w) chain_state chain \<times> 'c judge_slot list" where
  "build_chain be cfg name pf0 decider =
    (case resolve_profile cfg pf0 of
       Inl e \<Rightarrow> Inl e
     | Inr pf \<Rightarrow>
         (case build_layers be cfg name 0 (pf_policy pf) of
            Inl e \<Rightarrow> Inl e
          | Inr (layers, slots) \<Rightarrow>
              (case find (\<lambda>t. \<not> is_limit t) (rst_body (pf_response_transforms pf)) of
                 Some t \<Rightarrow> Inl (Unimplemented name (body_transform_name t))
               | None \<Rightarrow>
                   Inr (warn_only (pf_mode pf = Warn)
                          (chain_new name layers (pf_default_action pf) decider), slots))))"

section \<open>Transforms\<close>

datatype request_transform = RtFilter header_filter_mode | RtSet "(string \<times> string) list"

datatype ('net, 're, 'gl) response_transform =
    RsToolFilter "('net, 're, 'gl) mcp_tool_filter"
  | RsLimit response_limiter
  | RsFilter header_filter_mode

definition header_filter_mode_of ::
  "header_filter_spec \<Rightarrow> string \<Rightarrow> string \<Rightarrow> build_error + header_filter_mode" where
  "header_filter_mode_of spec profile side =
    (if hf_allow spec \<noteq> [] \<and> hf_deny spec = [] then Inr (FilterAllow (hf_allow spec))
     else if hf_allow spec = [] \<and> hf_deny spec \<noteq> [] then Inr (FilterDeny (hf_deny spec))
     else Inl (AmbiguousHeaderFilter profile side))"

fun parse_set_headers ::
  "(string \<Rightarrow> string option) \<Rightarrow> string \<Rightarrow> (string \<times> string) list
     \<Rightarrow> build_error + (string \<times> string) list" where
  "parse_set_headers parse profile [] = Inr []"
| "parse_set_headers parse profile ((name, value) # hs) =
    (case parse name of
       None \<Rightarrow> Inl (InvalidRequestHeaderName profile name)
     | Some n \<Rightarrow>
         if request_header_is_managed n then Inl (ManagedRequestHeader profile name)
         else if \<not> header_value_ok value then Inl (InvalidRequestHeaderValue profile name)
         else map_sum id (Cons (n, value)) (parse_set_headers parse profile hs))"

definition opt_filter ::
  "header_filter_spec option \<Rightarrow> string \<Rightarrow> string \<Rightarrow> build_error + header_filter_mode list" where
  "opt_filter spec profile side =
    (case spec of
       None \<Rightarrow> Inr []
     | Some s \<Rightarrow> map_sum id (\<lambda>m. [m]) (header_filter_mode_of s profile side))"

definition build_request_transforms ::
  "('net, 're, 'gl, 'prog, 'c, 'w) build_env \<Rightarrow> config \<Rightarrow> string \<Rightarrow> profile
     \<Rightarrow> build_error + request_transform list" where
  "build_request_transforms be cfg name pf0 =
    (case resolve_profile cfg pf0 of
       Inl e \<Rightarrow> Inl e
     | Inr pf \<Rightarrow>
         (case opt_filter (rqt_headers (pf_request_transforms pf)) name ''request'' of
            Inl e \<Rightarrow> Inl e
          | Inr ms \<Rightarrow>
              (let hs = rqt_set_headers (pf_request_transforms pf) in
               if hs = [] then Inr (map RtFilter ms)
               else map_sum id (\<lambda>parsed. map RtFilter ms @ [RtSet parsed])
                      (parse_set_headers (be_header_name be) name hs))))"

fun build_tool_filters ::
  "('net, 're, 'gl) mcp_libs \<Rightarrow> string \<Rightarrow> layer_config list
     \<Rightarrow> build_error + ('net, 're, 'gl) response_transform list" where
  "build_tool_filters L profile [] = Inr []"
| "build_tool_filters L profile (LMcp servers cap # lcs) =
    (case policy_compile (mcl_net L) (mcl_re L) (mcl_gl L) servers of
       Inl e \<Rightarrow> Inl (BuildMcp profile e)
     | Inr policy \<Rightarrow>
         map_sum id
           (Cons (RsToolFilter \<lparr>tf_libs = L, tf_policy = policy, tf_body_cap = cap\<rparr>))
           (build_tool_filters L profile lcs))"
| "build_tool_filters L profile (_ # lcs) = build_tool_filters L profile lcs"

fun body_limits :: "body_transform list \<Rightarrow> response_limiter list" where
  "body_limits [] = []"
| "body_limits (BtLimit m a # ts) = \<lparr>rl_max_bytes = m, rl_on_oversize = a\<rparr> # body_limits ts"
| "body_limits (_ # ts) = body_limits ts"

definition limits_or_floor :: "config \<Rightarrow> body_transform list \<Rightarrow> response_limiter list" where
  "limits_or_floor cfg ts =
    (let explicit = body_limits ts; floor = up_max_response_bytes (cf_upstream cfg) in
     if explicit = [] \<and> 0 < floor
     then [\<lparr>rl_max_bytes = floor, rl_on_oversize = OsFail\<rparr>] else explicit)"

definition build_response_transforms ::
  "('net, 're, 'gl, 'prog, 'c, 'w) build_env \<Rightarrow> config \<Rightarrow> string \<Rightarrow> profile
     \<Rightarrow> build_error + ('net, 're, 'gl) response_transform list" where
  "build_response_transforms be cfg name pf0 =
    (case resolve_profile cfg pf0 of
       Inl e \<Rightarrow> Inl e
     | Inr pf \<Rightarrow>
         (case build_tool_filters (be_mcp be) name (pf_policy pf) of
            Inl e \<Rightarrow> Inl e
          | Inr filters \<Rightarrow>
              map_sum id
                (\<lambda>ms. filters @ map RsLimit (limits_or_floor cfg (rst_body (pf_response_transforms pf)))
                        @ map RsFilter ms)
                (opt_filter (rst_headers (pf_response_transforms pf)) name ''response'')))"

text \<open>What a transform does, and all of them in order.\<close>

fun apply_request_transform :: "request_transform \<Rightarrow> request_context \<Rightarrow> request_context" where
  "apply_request_transform (RtFilter m) cx = request_header_filter m cx"
| "apply_request_transform (RtSet hs) cx = set_request_headers hs cx"

fun apply_response_transform ::
  "json_lib \<Rightarrow> request_context \<Rightarrow> ('net, 're, 'gl) response_transform \<Rightarrow> response_parts
     \<Rightarrow> response_parts" where
  "apply_response_transform js cx (RsToolFilter tf) resp = tool_filter_apply tf cx resp"
| "apply_response_transform js cx (RsLimit rl) resp = limiter_apply js rl resp"
| "apply_response_transform js cx (RsFilter m) resp = response_header_filter m resp"

definition run_request_transforms ::
  "request_transform list \<Rightarrow> request_context \<Rightarrow> request_context" where
  "run_request_transforms ts cx = fold apply_request_transform ts cx"

definition run_response_transforms ::
  "json_lib \<Rightarrow> request_context \<Rightarrow> ('net, 're, 'gl) response_transform list \<Rightarrow> response_parts
     \<Rightarrow> response_parts" where
  "run_response_transforms js cx ts resp = fold (apply_response_transform js cx) ts resp"

section \<open>Facts\<close>

lemma map_sum_Inr_iff: "map_sum f g x = Inr y \<longleftrightarrow> (\<exists>z. x = Inr z \<and> y = g z)"
  by (cases x) auto

lemma resolve_policy:
  "resolve_profile cfg pf0 = Inr pf \<Longrightarrow>
     pf_policy pf = pf_policy pf0 \<and> pf_mode pf = pf_mode pf0
     \<and> pf_default_action pf = pf_default_action pf0"
  by (auto simp: resolve_profile_def split: if_splits sum.splits prod.splits)

lemma build_chain_layers:
  assumes "build_chain be cfg name pf decider = Inr (ch, slots)"
  shows "build_layers be cfg name 0 (pf_policy pf) = Inr (ch_layers ch, slots)"
    and "ch_warn_only ch \<longleftrightarrow> pf_mode pf = Warn"
    and "ch_default_action ch = pf_default_action pf"
  using assms resolve_policy [of cfg pf]
  by (auto simp: build_chain_def chain_new_def warn_only_def
      split: sum.splits prod.splits option.splits)

lemma layer_mirrors_config:
  "build_layer be cfg name k lc = Inr (ly, slots) \<Longrightarrow>
     ly_name ly = layer_name lc \<and> ly_cost ly = layer_cost lc \<and> policy_layer (ly_eval ly)"
  by (cases lc)
    (auto simp: build_layer_def Let_def map_sum_Inr_iff denylist_layer_def allowlist_layer_def
      dlp_layer_def rules_layer_def mcp_layer_def judge_at_def judge_layer_def
      intro: allowlist.policy_layer_axioms denylist.policy_layer_axioms dlp.policy_layer_axioms
        rules.policy_layer_axioms mcp.policy_layer_axioms judge_at.policy_layer_axioms)

lemma layers_mirror_config:
  "build_layers be cfg name k lcs = Inr (lys, slots) \<Longrightarrow>
     map ly_name lys = map layer_name lcs \<and> map ly_cost lys = map layer_cost lcs
     \<and> (\<forall>ly \<in> set lys. policy_layer (ly_eval ly))"
proof (induction lcs arbitrary: k lys slots)
  case (Cons lc lcs)
  then show ?case
    using layer_mirrors_config [of be cfg name k lc]
    by (auto simp: map_sum_Inr_iff split: sum.splits prod.splits)
qed simp

definition built_layers ::
  "('net, 're, 'gl, 'prog, 'c, 'w) build_env \<Rightarrow> config \<Rightarrow> string \<Rightarrow> layer_config list
     \<Rightarrow> ('c, 'w) chain_state layer list" where
  "built_layers be cfg name lcs =
    (case build_layers be cfg name 0 lcs of Inl _ \<Rightarrow> [] | Inr (lys, _) \<Rightarrow> lys)"

interpretation built: policy_chain "built_layers be cfg name lcs" for be cfg name lcs
proof (rule policy_chain.intro)
  fix ly
  assume "ly \<in> set (built_layers be cfg name lcs)"
  then obtain lys slots where "build_layers be cfg name 0 lcs = Inr (lys, slots)" "ly \<in> set lys"
    by (cases "build_layers be cfg name 0 lcs") (auto simp: built_layers_def)
  then show "policy_layer (ly_eval ly)"
    using layers_mirror_config [of be cfg name 0 lcs] by blast
qed

section \<open>The built chain\<close>

text \<open>
  The chain that runs is the one that is configured: its layers are those of the
  profile, in the configured order, under the configured names, and each in the cost class the
  configuration declares for it (two tables in two crates that nothing else keeps in step). Its
  default action and whether it only warns are the profile's.
\<close>

lemma built_chain_mirrors_profile:
  assumes "build_chain be cfg name pf decider = Inr (ch, slots)"
  shows "map ly_name (ch_layers ch) = map layer_name (pf_policy pf) \<and>
    map ly_cost (ch_layers ch) = map layer_cost (pf_policy pf) \<and>
    ch_default_action ch = pf_default_action pf \<and> (ch_warn_only ch \<longleftrightarrow> pf_mode pf = Warn)"
  using layers_mirror_config [OF build_chain_layers(1) [OF assms]] build_chain_layers(2,3) [OF assms]
  by simp

text \<open>
  The trail of a built chain is honest: the layers it names are the configured ones
  in the configured order, from the first on and without a gap, save those the connect phase
  skips; no layer, whatever libraries it uses, can add, drop or reorder an entry, and none can
  take back a fact or a flag it was given.
\<close>

lemma built_chain_trail:
  assumes "build_chain be cfg name pf decider = Inr (ch, slots)"
  shows "(\<exists>k. map lo_layer (trail (oc_evidence (fst (chain_evaluate us ch cx st)))) =
      map lo_layer (trail (rc_evidence cx)) @
      take k (map ly_name (filter (\<lambda>ly. \<not> skipped cx ly) (ch_layers ch)))) \<and>
    ev_le (rc_evidence cx) (oc_evidence (fst (chain_evaluate us ch cx st)))"
proof -
  have "built_layers be cfg name (pf_policy pf) = ch_layers ch"
    using build_chain_layers(1) [OF assms] by (simp add: built_layers_def)
  then have "set (ch_layers ch) \<subseteq> set (built_layers be cfg name (pf_policy pf))"
    by simp
  from built.run_trail [OF this] built.run_extends [OF this] show ?thesis
    unfolding chain_evaluate_def by blast
qed

lemma expand_bundles_domains:
  "expand_bundles cfg profile bs ds cs = Inr (ds', cs') \<Longrightarrow>
     set ds' = set ds \<union> (\<Union>b \<in> set bs. case map_of (cf_bundles cfg) b of
                          None \<Rightarrow> {} | Some h \<Rightarrow> set (hs_domains h))"
  by (induction bs arbitrary: ds cs) (auto split: option.splits)

definition host_set_covers :: "config \<Rightarrow> host_set \<Rightarrow> string \<Rightarrow> bool" where
  "host_set_covers cfg hs h \<longleftrightarrow>
     list_ex (\<lambda>d. covers d h)
       (hs_domains hs @ concat (map (\<lambda>b. case map_of (cf_bundles cfg) b of
                                           None \<Rightarrow> [] | Some h \<Rightarrow> hs_domains h) (hs_bundles hs)))"

lemma matcher_host_set:
  assumes "matcher net cfg profile layer hs = Inr m" and "parse_ip (normalise h) = None"
  shows "host_matches net m h \<noteq> None \<longleftrightarrow> host_set_covers cfg hs h"
proof -
  obtain ds cs where ds: "expand_bundles cfg profile (hs_bundles hs) (hs_domains hs) (hs_cidrs hs)
      = Inr (ds, cs)" and "matcher_new net ds cs = Inr m"
    using assms(1) by (auto simp: matcher_def map_sum_Inr_iff split: sum.splits)
  from matcher_new_matches [OF this(2), of h] assms(2)
  have "host_matches net m h \<noteq> None \<longleftrightarrow> (\<exists>d \<in> set ds. covers d h)"
    by simp
  also have "\<dots> \<longleftrightarrow> host_set_covers cfg hs h"
    unfolding expand_bundles_domains [OF ds]
    by (auto simp: host_set_covers_def list_ex_iff split: option.splits)
  finally show ?thesis .
qed


section \<open>A profile that is built\<close>

definition sample_build :: "(byte list, string, string, string, (string \<times> judge_verdict) list, nat) build_env" where
  "sample_build =
     \<lparr>be_mcp = sample_libs, 
      be_cel = \<lparr>cel_compile = Inr, cel_execute = (\<lambda>_ _. Inr (CBool True)), cel_debug = (\<lambda>_. [])\<rparr>,
      be_environment = \<lparr>en_process = (\<lambda>_. EnvNotPresent), en_overlay = None\<rparr>,
      be_judge = (\<lambda>_. sample_env), be_cache = (\<lambda>_. []),
      be_header_name = (\<lambda>n. if n = [] then None else Some (to_ascii_lowercase n))\<rparr>"

definition sample_config :: config where
  "sample_config = default_config\<lparr>cf_bundles :=
     [(''trackers'', \<lparr>hs_domains = [''*.bad.test''], hs_cidrs = [], hs_bundles = []\<rparr>)]\<rparr>"

definition sample_profile :: profile where
  "sample_profile = default_profile\<lparr>pf_default_action := DecAllow, pf_policy :=
     [LDenylist \<lparr>hs_domains = [], hs_cidrs = [''10.0.0.0/8''], hs_bundles = [''trackers'']\<rparr>,
      LAllowlist \<lparr>hs_domains = [''*.test''], hs_cidrs = [], hs_bundles = []\<rparr> OutAllow OutPass]\<rparr>"

lemma sample_profile_builds:
  "\<exists>ch slots. build_chain sample_build sample_config ''p'' sample_profile denying_decider = Inr (ch, slots)"
proof -
  have "isl (build_chain sample_build sample_config ''p'' sample_profile denying_decider) = False"
    by code_simp
  then show ?thesis
    by (cases "build_chain sample_build sample_config ''p'' sample_profile denying_decider") auto
qed


section \<open>What cannot be built\<close>

fun provider_key :: "provider_cfg \<Rightarrow> string option" where
  "provider_key (ProvOpenAi _ key _ _) = Some key"
| "provider_key (ProvAnthropic _ key _ _) = Some key"
| "provider_key (ProvSystemOne _ key _ _) = key"

text \<open>Every name a layer refers to exists.\<close>

fun names_known :: "('net, 're, 'gl, 'prog, 'c, 'w) build_env \<Rightarrow> config \<Rightarrow> layer_config \<Rightarrow> bool" where
  "names_known be cfg (LDenylist hs) \<longleftrightarrow>
     list_all (\<lambda>b. map_of (cf_bundles cfg) b \<noteq> None) (hs_bundles hs)"
| "names_known be cfg (LAllowlist hs _ _) \<longleftrightarrow>
     list_all (\<lambda>b. map_of (cf_bundles cfg) b \<noteq> None) (hs_bundles hs)"
| "names_known be cfg (LDlp dc) \<longleftrightarrow> list_all (\<lambda>n. n \<in> set builtin_names) (dc_patterns dc)"
| "names_known be cfg (LJudge jc) \<longleftrightarrow>
     (case provider_key (jc_provider jc) of
        None \<Rightarrow> True | Some key \<Rightarrow> env_is_set (be_environment be) key)"
| "names_known be cfg _ \<longleftrightarrow> True"

lemma expand_bundles_known:
  "expand_bundles cfg profile bs ds cs = Inr r \<Longrightarrow>
     list_all (\<lambda>b. map_of (cf_bundles cfg) b \<noteq> None) bs"
  by (induction bs arbitrary: ds cs) (auto split: option.splits)

lemma matcher_known:
  "matcher net cfg profile layer hs = Inr m \<Longrightarrow>
     list_all (\<lambda>b. map_of (cf_bundles cfg) b \<noteq> None) (hs_bundles hs)"
  by (auto simp: matcher_def dest: expand_bundles_known split: sum.splits)

lemma build_patterns_known:
  "build_patterns rl profile names = Inr ps \<Longrightarrow>
     list_all (\<lambda>n. n \<in> set builtin_names) names \<and> map pt_name ps = names"
proof (induction names arbitrary: ps)
  case (Cons n names)
  then show ?case
    using builtin_known_iff [of rl n] builtin_name [of rl n]
    by (auto simp: map_sum_Inr_iff split: builtin_result.splits)
qed simp

lemma build_provider_known:
  "build_provider en pc = Inr p \<Longrightarrow> provider_key pc = Some key \<Longrightarrow> env_is_set en key"
  by (cases pc) (auto simp: with_api_key_def env_is_set_def split: option.splits)

lemma build_layer_known:
  "build_layer be cfg name k lc = Inr r \<Longrightarrow> names_known be cfg lc"
  by (cases lc)
    (auto simp: build_layer_def Let_def map_sum_Inr_iff build_dlp_def build_judge_def
      dest: matcher_known build_patterns_known build_provider_known split: sum.splits option.splits)

lemma build_layers_known:
  "build_layers be cfg name k lcs = Inr r \<Longrightarrow> list_all (names_known be cfg) lcs"
proof (induction lcs arbitrary: k r)
  case (Cons lc lcs)
  then show ?case
    using build_layer_known [of be cfg name k lc]
    by (auto simp: map_sum_Inr_iff split: sum.splits prod.splits)
qed simp

text \<open>
  C35 (error). A profile that refers to something that is not there does not start: when a chain
  is built, every bundle a host set names is configured, every scanned pattern is a builtin one
  and every judge's key variable is set, and every body transform it asks for is one that is
  implemented. Nothing is skipped silently, which would make the chain more permissive than the
  one that was written.
\<close>

theorem built_chain_knows_its_names:
  assumes "build_chain be cfg name pf decider = Inr (ch, slots)"
  shows "list_all (names_known be cfg) (pf_policy pf) \<and>
    (\<exists>pf'. resolve_profile cfg pf = Inr pf' \<and>
       list_all is_limit (rst_body (pf_response_transforms pf')))"
proof
  show "list_all (names_known be cfg) (pf_policy pf)"
    using build_layers_known [OF build_chain_layers(1) [OF assms]] .
  show "\<exists>pf'. resolve_profile cfg pf = Inr pf' \<and> list_all is_limit (rst_body (pf_response_transforms pf'))"
    using assms
    by (auto simp: build_chain_def find_None_iff list_all_iff split: sum.splits prod.splits option.splits)
qed

theorem built_chain_knows_its_names_witness:
  "list_all (names_known sample_build sample_config) (pf_policy sample_profile)"
  using sample_profile_builds built_chain_knows_its_names by blast

section \<open>Built transforms\<close>

lemma parse_set_headers_ok:
  "parse_set_headers parse profile hs = Inr ps \<Longrightarrow> (n, v) \<in> set ps \<Longrightarrow>
     \<not> request_header_is_managed n \<and> header_value_ok v"
  by (induction hs arbitrary: ps) (auto simp: map_sum_Inr_iff split: option.splits if_splits)

lemma fold_insert_get_all:
  "hdr_get_all (fold (\<lambda>(n, v) h. hdr_insert n v h) hs h) k =
     (case map_of (rev hs) k of Some v \<Rightarrow> [v] | None \<Rightarrow> hdr_get_all h k)"
  by (induction hs arbitrary: h) (auto simp: map_add_def split: option.splits)

text \<open>
  Headers the operator sets are set, once and unconditionally: after the request
  transforms a configured header has exactly its configured value (the last one, when two
  spellings of one name are configured), whatever the client sent and whatever the header
  filter, which runs first, says about the name. It is never a framing header, and its value
  is one that can be sent.
\<close>

lemma set_headers_reach_upstream:
  assumes "build_request_transforms be cfg name pf = Inr ts"
    and "RtSet hs \<in> set ts" and "map_of (rev hs) n = Some v"
  shows "hdr_get_all (rc_headers (run_request_transforms ts cx)) n = [v] \<and>
    \<not> request_header_is_managed n \<and> header_value_ok v"
proof -
  obtain pf' ms raw where ts: "ts = map RtFilter ms @ [RtSet hs]"
      and raw: "parse_set_headers (be_header_name be) name raw = Inr hs"
    using assms(1,2)
    by (auto simp: build_request_transforms_def Let_def map_sum_Inr_iff split: sum.splits if_splits)
  have "rc_headers (run_request_transforms ts cx) =
      fold (\<lambda>(n, v) h. hdr_insert n v h) hs (rc_headers (fold apply_request_transform (map RtFilter ms) cx))"
    by (simp add: ts run_request_transforms_def set_request_headers_def)
  then have "hdr_get_all (rc_headers (run_request_transforms ts cx)) n = [v]"
    using assms(3) by (simp add: fold_insert_get_all)
  moreover have "(n, v) \<in> set hs"
    using map_of_SomeD [OF assms(3)] by simp
  ultimately show ?thesis
    using parse_set_headers_ok [OF raw] by blast
qed

section \<open>The listing and the gate\<close>

lemma build_tool_filters_gate:
  "build_tool_filters (be_mcp be) name lcs = Inr fs \<Longrightarrow>
   build_layers be cfg name k lcs = Inr (lys, slots) \<Longrightarrow>
   RsToolFilter tf \<in> set fs \<Longrightarrow>
     tf_libs tf = be_mcp be \<and> mcp_layer (tf_libs tf) (tf_policy tf) (tf_body_cap tf) \<in> set lys"
proof (induction lcs arbitrary: fs k lys slots)
  case (Cons lc lcs)
  then obtain ly s lys' more where ly: "build_layer be cfg name k lc = Inr (ly, s)"
      and rest: "build_layers be cfg name (k + length s) lcs = Inr (lys', more)" and "lys = ly # lys'"
    by (auto simp: map_sum_Inr_iff split: sum.splits prod.splits)
  have IH: "tf_libs tf = be_mcp be \<and> mcp_layer (tf_libs tf) (tf_policy tf) (tf_body_cap tf) \<in> set lys'"
    if "build_tool_filters (be_mcp be) name lcs = Inr fs'" "RsToolFilter tf \<in> set fs'" for fs'
    using Cons.IH [OF that(1) rest that(2)] .
  show ?case
  proof (cases lc)
    case (LMcp servers cap)
    with Cons.prems ly IH \<open>lys = ly # lys'\<close> show ?thesis
      by (auto simp: map_sum_Inr_iff build_layer_def Let_def split: sum.splits)
  qed (use Cons.prems IH \<open>lys = ly # lys'\<close> in auto)
qed simp

lemma hidden_call_denied:
  assumes "governs L policy (auth_host (rc_authority cx))"
    and "rc_body cx = Buffered bytes" and "parse_request (mcl_js L) bytes = Some (ToolsCall call)"
    and "\<not> tool_is_visible L policy (auth_host (rc_authority cx)) (tc_tool call)"
  shows "\<exists>r. mcp_eval L policy cap cx ev = Inr (Deny r) \<and> r_code r = refusal_code UnknownTool"
  using assms hidden_iff_unknown [of L policy "auth_host (rc_authority cx)" "tc_tool call"]
  by (simp add: mcp_eval_def Let_def with_rule_def reason_new_def)

text \<open>
  What is hidden cannot be called. The tool filter of the responses and the
  layer of the chain come out of one configuration: if a filter that was built hides a tool of a
  host it governs, then the chain built from the same profile holds a layer that denies every
  inspected call of that tool, as unknown, whatever the arguments.
\<close>

lemma hidden_tools_are_gated:
  assumes "build_chain be cfg name pf decider = Inr (ch, slots)"
    and "build_response_transforms be cfg name pf = Inr ts" and "RsToolFilter tf \<in> set ts"
    and "governs (tf_libs tf) (tf_policy tf) (auth_host (rc_authority cx))"
    and "\<not> tool_is_visible (tf_libs tf) (tf_policy tf) (auth_host (rc_authority cx)) (tc_tool call)"
    and "rc_body cx = Buffered bytes"
    and "parse_request (mcl_js (be_mcp be)) bytes = Some (ToolsCall call)"
  shows "\<exists>ly \<in> set (ch_layers ch). ly_name ly = ''mcp'' \<and>
    (\<exists>r. fst (ly_eval ly cx ev st) = Inr (Deny r) \<and> r_code r = refusal_code UnknownTool)"
proof -
  obtain pf' fs where pf': "resolve_profile cfg pf = Inr pf'"
      and fs: "build_tool_filters (be_mcp be) name (pf_policy pf') = Inr fs" and "RsToolFilter tf \<in> set fs"
    using assms(2,3)
    by (auto simp: build_response_transforms_def map_sum_Inr_iff split: sum.splits)
  moreover have "pf_policy pf' = pf_policy pf"
    using resolve_policy [OF pf'] by simp
  ultimately have layer: "tf_libs tf = be_mcp be"
      "mcp_layer (tf_libs tf) (tf_policy tf) (tf_body_cap tf) \<in> set (ch_layers ch)"
    using build_tool_filters_gate [OF _ build_chain_layers(1) [OF assms(1)], of fs tf] by auto
  from hidden_call_denied [OF assms(4,6) _ assms(5), of "tf_body_cap tf" ev] assms(7) layer(1)
  have "\<exists>r. fst (ly_eval (mcp_layer (tf_libs tf) (tf_policy tf) (tf_body_cap tf)) cx ev st) = Inr (Deny r)
      \<and> r_code r = refusal_code UnknownTool"
    by (auto simp: mcp_layer_def stateless_def)
  with layer(2) show ?thesis
    by (auto simp: mcp_layer_def intro!: bexI [of _ "mcp_layer _ _ _"])
qed

definition sample_call :: json where
  "sample_call = jobj [(''jsonrpc'', JStr ''2.0''), (''method'', JStr ''tools/call''),
     (''params'', jobj [(''name'', JStr ''delete'')])]"

definition sample_mcp_build ::
  "(byte list, string, string, string, (string \<times> judge_verdict) list, nat) build_env" where
  "sample_mcp_build = sample_build\<lparr>be_mcp := sample_libs\<lparr>mcl_js :=
     sample_json\<lparr>jl_parse := (\<lambda>_. Some sample_call)\<rparr>\<rparr>\<rparr>"

definition sample_mcp_profile :: profile where
  "sample_mcp_profile = default_profile\<lparr>pf_policy := [LMcp
     [\<lparr>ms_name = None, ms_rules = [\<lparr>mhr_host = Some ''mcp.test'', mhr_cidr = None\<rparr>],
       ms_tools = [\<lparr>mt_name = ''search'', mt_when = []\<rparr>]\<rparr>] 1024]\<rparr>"

fun hides_delete ::
  "build_error + (byte list, string, string) response_transform list \<Rightarrow> bool" where
  "hides_delete (Inr (RsToolFilter tf # _)) \<longleftrightarrow>
     governs (tf_libs tf) (tf_policy tf) ''mcp.test''
       \<and> \<not> tool_is_visible (tf_libs tf) (tf_policy tf) ''mcp.test'' ''delete''"
| "hides_delete _ \<longleftrightarrow> False"

end
