(* ===== verification/Redact.thy ===== *)
theory Redact
  imports Json Http
begin

text \<open>
  \<open>crates/marshal-core/src/redact.rs\<close>: the set of secrets in play and their removal from text
  and from JSON documents. A \<open>BTreeSet\<close> is a sorted list without duplicates, a \<open>BTreeMap\<close> an
  association list in key order. The shared lock is not modelled: every operation holds it
  throughout, so each is one step on the set.
\<close>

section \<open>The model\<close>

definition learned_per_label :: nat where "learned_per_label = 4"
definition min_length :: nat where "min_length = 4"

record redactor =
  rd_pinned :: "string list"
  rd_learned :: "(string \<times> string list) list"
  rd_sorted :: "string list"

definition redactor_rebuild :: "redactor \<Rightarrow> redactor" where
  "redactor_rebuild r =
     r\<lparr>rd_sorted := sort_key (\<lambda>v. - int (length v))
        (sort (remdups (rd_pinned r @ concat (map snd (rd_learned r)))))\<rparr>"

definition redactor_new :: "string list \<Rightarrow> redactor" where
  "redactor_new values =
     redactor_rebuild
       \<lparr>rd_pinned = sort (remdups (filter (\<lambda>v. min_length \<le> length v) values)),
        rd_learned = [], rd_sorted = []\<rparr>"

definition redactor_learn :: "string \<Rightarrow> string \<Rightarrow> redactor \<Rightarrow> redactor" where
  "redactor_learn label v r =
    (if length v < min_length then r
     else let ring = unwrap_or [] (map_of (rd_learned r) label) in
       if v \<in> set ring then r
       else let grown = ring @ [v] in
         redactor_rebuild
           (r\<lparr>rd_learned :=
                map_insert label (drop (length grown - learned_per_label) grown) (rd_learned r)\<rparr>))"

text \<open>The UTF-8 bytes of the word in guillemets.\<close>

definition placeholder :: string where
  "placeholder = [CHR 0xC2, CHR 0xAB] @ ''redacted'' @ [CHR 0xC2, CHR 0xBB]"

definition redact :: "redactor \<Rightarrow> string \<Rightarrow> string" where
  "redact r s =
     foldl (\<lambda>out v. if contains out v then replace_all v placeholder out else out) s (rd_sorted r)"

definition redact_keys :: "redactor \<Rightarrow> string list \<Rightarrow> jmap \<Rightarrow> jmap" where
  "redact_keys r values m =
    (if list_ex (\<lambda>kv. list_ex (contains (fst kv)) values) m
     then foldl (\<lambda>acc kv. map_insert (redact r (fst kv)) (snd kv) acc) [] m
     else m)"

text \<open>
  The source renames the keys of an object before it enters the values; the values do not
  depend on the keys, so they can be entered first.
\<close>

fun redact_json_with :: "redactor \<Rightarrow> string list \<Rightarrow> json \<Rightarrow> json" where
  "redact_json_with r values (JStr s) =
     JStr (if list_ex (contains s) values then redact r s else s)"
| "redact_json_with r values (JArr items) = JArr (map (redact_json_with r values) items)"
| "redact_json_with r values (JObj m) =
     JObj (redact_keys r values (map (\<lambda>kv. (fst kv, redact_json_with r values (snd kv))) m))"
| "redact_json_with r values v = v"

definition redact_json :: "redactor \<Rightarrow> json \<Rightarrow> json" where
  "redact_json r v = (if rd_sorted r = [] then v else redact_json_with r (rd_sorted r) v)"

section \<open>Replacing a text\<close>

text \<open>
  A value is clear of a replacement when the two cannot share a byte of a text: neither contains
  the other and they do not overlap at either end.
\<close>

definition clear_of :: "string \<Rightarrow> string \<Rightarrow> bool" where
  "clear_of v p \<longleftrightarrow>
     v \<noteq> [] \<and> \<not> sublist v p \<and> \<not> sublist p v \<and>
     (\<forall>u. u \<noteq> [] \<longrightarrow> \<not> (suffix u v \<and> prefix u p) \<and> \<not> (prefix u v \<and> suffix u p))"

lemma clear_sublist:
  assumes "clear_of v p" and "sublist v (p @ b)"
  shows "sublist v b"
proof -
  from assms(2) consider "sublist v p" | "sublist v b"
    | u w where "v = u @ w" "suffix u p" "prefix w b"
    by (auto simp: sublist_append)
  then show ?thesis
  proof cases
    case (3 u w)
    with assms(1) have "u = []"
      by (auto simp: clear_of_def)
    with 3 show ?thesis
      by (auto dest: prefix_imp_sublist)
  qed (use assms(1) in \<open>auto simp: clear_of_def\<close>)
qed

lemma clear_prefix:
  assumes "clear_of v p" and "suffix x v" and "prefix x (p @ b)"
  shows "x = []"
proof (rule ccontr)
  assume "x \<noteq> []"
  from assms(3) consider "prefix x p" | y where "x = p @ y"
    by (auto simp: prefix_append)
  then show False
  proof cases
    case 1
    with assms(1,2) \<open>x \<noteq> []\<close> show False
      by (auto simp: clear_of_def)
  next
    case 2
    with assms(2) have "sublist p v"
      by (auto simp: suffix_def intro: sublist_appendI)
    with assms(1) show False
      by (simp add: clear_of_def)
  qed
qed

lemma replace_all_hit:
  "v \<noteq> [] \<and> prefix v (c # t) \<Longrightarrow> replace_all v r (c # t) = r @ replace_all v r (drop (length v) (c # t))"
  by (subst replace_all.simps) (rule if_P)

lemma replace_all_miss:
  "\<not> (v \<noteq> [] \<and> prefix v (c # t)) \<Longrightarrow> replace_all v r (c # t) = c # replace_all v r t"
  by (subst replace_all.simps) (rule if_not_P)

declare replace_all.simps(2) [simp del]

lemma prefix_replace_all:
  "clear_of v p \<Longrightarrow> suffix x v \<Longrightarrow> prefix x (replace_all w p s) \<Longrightarrow> prefix x s"
proof (induction w p s arbitrary: x rule: replace_all.induct)
  case (2 w p c t)
  show ?case
  proof (cases "w \<noteq> [] \<and> prefix w (c # t)")
    case True
    with 2 have "x = []"
      using clear_prefix [of v p x] replace_all_hit by metis
    then show ?thesis
      by simp
  next
    case False
    note miss = replace_all_miss [OF False]
    show ?thesis
    proof (cases x)
      case (Cons a x')
      moreover from Cons 2(4) have "suffix x' v"
        by (auto simp: suffix_def)
      ultimately show ?thesis
        using miss False 2(2) [of x'] 2(3,5) by simp
    qed simp
  qed
qed simp

lemma sublist_replace_all:
  "clear_of v p \<Longrightarrow> sublist v (replace_all w p s) \<Longrightarrow> sublist v s"
proof (induction w p s rule: replace_all.induct)
  case (2 w p c t)
  show ?case
  proof (cases "w \<noteq> [] \<and> prefix w (c # t)")
    case True
    then have "sublist v (replace_all w p (drop (length w) (c # t)))"
      using clear_sublist [OF 2(3)] replace_all_hit 2(4) by metis
    with 2(1,3) True have "sublist v (drop (length w) (c # t))"
      by blast
    then show ?thesis
      by (metis append_take_drop_id sublist_append)
  next
    case False
    note miss = replace_all_miss [OF False]
    with 2(4) consider (start) "prefix v (replace_all w p (c # t))" | (later) "sublist v (replace_all w p t)"
      by (auto simp: sublist_Cons_right)
    then show ?thesis
    proof cases
      case start
      with 2(3) show ?thesis
        using prefix_replace_all [of v p v w "c # t"] by simp
    next
      case later
      with False 2(2,3) show ?thesis
        by (simp add: sublist_Cons_right)
    qed
  qed
qed simp

lemma replace_all_removes: "clear_of v p \<Longrightarrow> \<not> sublist v (replace_all v p s)"
proof (induction v p s rule: replace_all.induct)
  case (1 v p)
  then show ?case
    by (simp add: clear_of_def)
next
  case (2 v p c t)
  show ?case
  proof (cases "v \<noteq> [] \<and> prefix v (c # t)")
    case True
    moreover have "\<not> sublist v (replace_all v p (drop (length v) (c # t)))"
      using 2(1,3) True by blast
    ultimately show ?thesis
      using clear_sublist [OF 2(3)] replace_all_hit by metis
  next
    case False
    note miss = replace_all_miss [OF False]
    have "v \<noteq> []"
      using 2(3) by (simp add: clear_of_def)
    then have "\<not> prefix v (replace_all v p (c # t))"
      using prefix_replace_all [of v p v v "c # t"] 2(3) False by auto
    moreover have "\<not> sublist v (replace_all v p t)"
      using 2(2,3) False by blast
    ultimately show ?thesis
      using miss by (simp add: sublist_Cons_right)
  qed
qed

section \<open>Secrets and the placeholder\<close>

definition ascii_text :: "string \<Rightarrow> bool" where
  "ascii_text v \<longleftrightarrow> list_all (\<lambda>c. of_char c < (128 :: nat)) v"

text \<open>The secrets the redactor is able to remove: ASCII, and no part of the word itself.\<close>

definition removable :: "string \<Rightarrow> bool" where
  "removable v \<longleftrightarrow> v \<noteq> [] \<and> ascii_text v \<and> \<not> contains ''redacted'' v"

lemma sublist_around:
  assumes "sublist v (xs @ x # ys)" and "x \<notin> set v"
  shows "sublist v xs \<or> sublist v ys"
proof -
  have front: "w = []" if "set w \<subseteq> set v" "prefix w (x # ys)" for w
    using that assms(2) by (cases w) auto
  from assms(1) consider "sublist v xs" | "sublist v (x # ys)"
    | u w where "v = u @ w" "suffix u xs" "prefix w (x # ys)"
    by (auto simp: sublist_append)
  then show ?thesis
  proof cases
    case 2
    with front [of v] show ?thesis
      by (auto simp: sublist_Cons_right)
  next
    case (3 u w)
    with front [of w] show ?thesis
      by (auto dest: suffix_imp_sublist)
  qed auto
qed

lemma removable_clear:
  assumes "removable v"
  shows "clear_of v placeholder"
proof -
  have not_in: "CHR 0xC2 \<notin> set v" "CHR 0xAB \<notin> set v" "CHR 0xBB \<notin> set v"
    using assms by (auto simp: removable_def ascii_text_def list_all_iff)
  have v: "v \<noteq> []" "\<not> sublist v ''redacted''"
    using assms by (auto simp: removable_def contains_iff_sublist)
  have p: "placeholder = [] @ CHR 0xC2 # CHR 0xAB # (''redacted'' @ CHR 0xC2 # [CHR 0xBB])"
    by (simp add: placeholder_def)
  have "\<not> sublist v placeholder"
  proof
    assume "sublist v placeholder"
    with not_in v have "sublist v ([] @ CHR 0xAB # (''redacted'' @ CHR 0xC2 # [CHR 0xBB]))"
      unfolding p using sublist_around [of v "[]" "CHR 0xC2"] by auto
    with not_in v have "sublist v (''redacted'' @ CHR 0xC2 # [CHR 0xBB])"
      using sublist_around [of v "[]" "CHR 0xAB"] by auto
    with not_in v have "sublist v ([] @ CHR 0xBB # [])"
      using sublist_around [of v "''redacted''" "CHR 0xC2"] by auto
    with not_in v show False
      using sublist_around [of v "[]" "CHR 0xBB" "[]"] by auto
  qed
  moreover have "\<not> sublist placeholder v"
    using not_in(1) set_mono_sublist [of placeholder v] by (auto simp: placeholder_def)
  moreover have "\<not> (suffix u v \<and> prefix u placeholder)" if "u \<noteq> []" for u
  proof
    assume u: "suffix u v \<and> prefix u placeholder"
    with that have "hd u = CHR 0xC2"
      unfolding p by (cases u) auto
    with u that not_in(1) show False
      by (metis hd_in_set set_mono_suffix subsetD)
  qed
  moreover have "\<not> (prefix u v \<and> suffix u placeholder)" if "u \<noteq> []" for u
  proof
    assume u: "prefix u v \<and> suffix u placeholder"
    with that have "last u = last placeholder"
      by (metis last_appendR suffix_def)
    then have "last u = CHR 0xBB"
      by (simp add: placeholder_def)
    with u that not_in(3) show False
      by (metis last_in_set set_mono_prefix subsetD)
  qed
  ultimately show ?thesis
    using v(1) by (auto simp: clear_of_def)
qed

section \<open>What redaction removes\<close>

lemma redact_fold_clear:
  "clear_of v placeholder \<Longrightarrow> \<not> sublist v s \<Longrightarrow>
     \<not> sublist v (foldl (\<lambda>out w. if contains out w then replace_all w placeholder out else out) s ws)"
  by (induction ws arbitrary: s) (auto dest: sublist_replace_all)

lemma redact_clears:
  assumes "v \<in> set (rd_sorted r)" and "removable v"
  shows "\<not> sublist v (redact r s)"
proof -
  note clear = removable_clear [OF assms(2)]
  obtain ws ws' where "rd_sorted r = ws @ v # ws'"
    using assms(1) by (auto simp: in_set_conv_decomp)
  moreover have "\<not> sublist v (if contains out v then replace_all v placeholder out else out)" for out
    using replace_all_removes [OF clear] by (simp add: contains_iff_sublist)
  ultimately show ?thesis
    using redact_fold_clear [OF clear] by (simp add: redact_def)
qed

text \<open>Every text of a document: its strings and the keys of its objects.\<close>

fun json_texts :: "json \<Rightarrow> string list" where
  "json_texts (JStr s) = [s]"
| "json_texts (JArr items) = concat (map json_texts items)"
| "json_texts (JObj m) = concat (map (\<lambda>kv. fst kv # json_texts (snd kv)) m)"
| "json_texts _ = []"

lemma foldl_insert_entries:
  "set (foldl (\<lambda>acc kv. map_insert (f (fst kv)) (snd kv) acc) acc0 m)
     \<subseteq> set acc0 \<union> (\<lambda>kv. (f (fst kv), snd kv)) ` set m"
proof (induction m arbitrary: acc0)
  case (Cons kv m)
  then show ?case
    using set_map_insert [of "f (fst kv)" "snd kv" acc0] by fastforce
qed simp

lemma redact_keys_entries:
  assumes "kv \<in> set (redact_keys r values m)"
  shows "(\<exists>k. fst kv = redact r k \<and> (k, snd kv) \<in> set m)
    \<or> (kv \<in> set m \<and> \<not> list_ex (contains (fst kv)) values)"
proof (cases "list_ex (\<lambda>kv. list_ex (contains (fst kv)) values) m")
  case True
  with assms have "kv \<in> set (foldl (\<lambda>acc kv. map_insert (redact r (fst kv)) (snd kv) acc) [] m)"
    by (simp add: redact_keys_def)
  then have "kv \<in> (\<lambda>kv. (redact r (fst kv), snd kv)) ` set m"
    using foldl_insert_entries [of "redact r" "[]" m] by auto
  then show ?thesis
    by auto
next
  case False
  with assms show ?thesis
    by (auto simp: redact_keys_def list_ex_iff)
qed

lemma redact_json_with_clears:
  assumes "v \<in> set (rd_sorted r)" and "removable v"
  shows "t \<in> set (json_texts (redact_json_with r (rd_sorted r) doc)) \<Longrightarrow> \<not> sublist v t"
proof (induction doc arbitrary: t)
  case (JStr s)
  then show ?case
    using redact_clears [OF assms] assms(1)
    by (auto simp: list_ex_iff contains_iff_sublist split: if_splits)
next
  case (JObj m)
  let ?f = "\<lambda>kv. (fst kv, redact_json_with r (rd_sorted r) (snd kv))"
  obtain kv where kv: "kv \<in> set (redact_keys r (rd_sorted r) (map ?f m))"
      and t: "t = fst kv \<or> t \<in> set (json_texts (snd kv))"
    using JObj.prems by auto
  from redact_keys_entries [OF kv] have "\<not> sublist v (fst kv)"
    using redact_clears [OF assms] assms(1) by (auto simp: list_ex_iff contains_iff_sublist)
  moreover have "\<exists>w \<in> set m. snd kv = redact_json_with r (rd_sorted r) (snd w)"
    using redact_keys_entries [OF kv] by force
  ultimately show ?case
    using t JObj.IH by (metis prod.collapse snds.intros)
qed auto



text \<open>A secret that is a part of the placeholder survives its own redaction.\<close>

lemma placeholder_word_survives:
  "contains (redact (redactor_new [''dact'']) ''dact'') ''dact''"
  by code_simp

section \<open>What the set holds\<close>

definition redactor_wf :: "redactor \<Rightarrow> bool" where
  "redactor_wf r \<longleftrightarrow>
     set (rd_sorted r) = set (rd_pinned r) \<union> (\<Union>ring \<in> snd ` set (rd_learned r). set ring) \<and>
     sorted_keys (rd_learned r) \<and>
     (\<forall>ring \<in> snd ` set (rd_learned r). length ring \<le> learned_per_label) \<and>
     (\<forall>v \<in> set (rd_sorted r). min_length \<le> length v)"

definition ring_of :: "redactor \<Rightarrow> string \<Rightarrow> string list" where
  "ring_of r label = unwrap_or [] (map_of (rd_learned r) label)"

text \<open>The redactors a run of the program can hold: the configured values, then what it learns.\<close>

inductive redactor_history :: "string list \<Rightarrow> (string \<times> string) list \<Rightarrow> redactor \<Rightarrow> bool" for vs :: "string list" where
  start: "redactor_history vs [] (redactor_new vs)"
| learn: "redactor_history vs es r \<Longrightarrow>
     redactor_history vs (es @ [(label, v)]) (redactor_learn label v r)"

lemma if_if_same: "(if a then x else if b then x else y) = (if a \<or> b then x else y)"
  by simp

lemma redactor_learn_eq:
  "redactor_learn label v r =
     (if length v < min_length \<or> v \<in> set (ring_of r label) then r
      else redactor_rebuild (r\<lparr>rd_learned := map_insert label
        (drop (Suc (length (ring_of r label)) - learned_per_label) (ring_of r label @ [v]))
        (rd_learned r)\<rparr>))"
  unfolding redactor_learn_def ring_of_def Let_def length_append_singleton by (rule if_if_same)

lemma set_rd_sorted_rebuild [simp]:
  "set (rd_sorted (redactor_rebuild r)) =
     set (rd_pinned r) \<union> (\<Union>ring \<in> snd ` set (rd_learned r). set ring)"
  by (auto simp: redactor_rebuild_def)

lemma rebuild_fields [simp]:
  "rd_pinned (redactor_rebuild r) = rd_pinned r" "rd_learned (redactor_rebuild r) = rd_learned r"
  by (simp_all add: redactor_rebuild_def)

lemma rd_pinned_learn [simp]: "rd_pinned (redactor_learn label v r) = rd_pinned r"
  by (simp add: redactor_learn_eq)

lemma ring_of_learn:
  "ring_of (redactor_learn label v r) l =
     (if l = label \<and> min_length \<le> length v \<and> v \<notin> set (ring_of r label)
      then drop (Suc (length (ring_of r label)) - learned_per_label) (ring_of r label @ [v])
      else ring_of r l)"
proof -
  have "ring_of (redactor_rebuild (r\<lparr>rd_learned := map_insert label ring (rd_learned r)\<rparr>)) l =
      (if l = label then ring else ring_of r l)" for ring
    by (simp add: ring_of_def)
  then show ?thesis
    by (auto simp: redactor_learn_eq)
qed

lemma redactor_wf_new: "redactor_wf (redactor_new values)"
  by (auto simp: redactor_wf_def redactor_new_def)

lemma ring_of_known:
  assumes "redactor_wf r"
  shows "set (ring_of r label) \<subseteq> set (rd_sorted r)"
proof (cases "map_of (rd_learned r) label")
  case (Some ring)
  then have "ring \<in> snd ` set (rd_learned r)"
    by (metis image_eqI map_of_SomeD snd_conv)
  with assms Some show ?thesis
    unfolding redactor_wf_def ring_of_def by auto
qed (simp add: ring_of_def)

lemma redactor_wf_learn:
  assumes "redactor_wf r"
  shows "redactor_wf (redactor_learn label v r)"
proof (cases "min_length \<le> length v \<and> v \<notin> set (ring_of r label)")
  case True
  define ring where
    "ring = drop (Suc (length (ring_of r label)) - learned_per_label) (ring_of r label @ [v])"
  let ?learned = "map_insert label ring (rd_learned r)"
  have eq: "redactor_learn label v r = redactor_rebuild (r\<lparr>rd_learned := ?learned\<rparr>)"
    using True by (simp add: redactor_learn_eq ring_def)
  have len: "length ring \<le> learned_per_label"
    by (simp add: ring_def learned_per_label_def)
  have sub: "set ring \<subseteq> insert v (set (rd_sorted r))"
    using ring_of_known [OF assms] by (auto simp: ring_def dest: in_set_dropD)
  have entries: "x = ring \<or> x \<in> snd ` set (rd_learned r)" if "x \<in> snd ` set ?learned" for x
    using that set_map_insert [of label ring "rd_learned r"] by force
  have "length x \<le> learned_per_label" if "x \<in> snd ` set ?learned" for x
    using entries [OF that] len assms by (auto simp: redactor_wf_def)
  moreover have "min_length \<le> length w"
    if "w \<in> set (rd_pinned r) \<union> (\<Union>x \<in> snd ` set ?learned. set x)" for w
  proof -
    have held: "set (rd_sorted r) = set (rd_pinned r) \<union> (\<Union>x \<in> snd ` set (rd_learned r). set x)"
      using assms by (simp add: redactor_wf_def)
    from that consider "w \<in> set (rd_pinned r)" | x where "x \<in> snd ` set ?learned" "w \<in> set x"
      by blast
    then have "w = v \<or> w \<in> set (rd_sorted r)"
    proof cases
      case (2 x)
      with entries [OF 2(1)] sub held show ?thesis
        by blast
    qed (use held in blast)
    with True assms show ?thesis
      unfolding redactor_wf_def by blast
  qed
  moreover have "sorted_keys ?learned"
    using assms by (simp add: redactor_wf_def sorted_map_insert)
  ultimately show ?thesis
    unfolding eq redactor_wf_def by simp
next
  case False
  then have "redactor_learn label v r = r"
    by (auto simp: redactor_learn_eq)
  with assms show ?thesis
    by simp
qed

lemma redactor_history_wf: "redactor_history vs es r \<Longrightarrow> redactor_wf r"
  by (induction rule: redactor_history.induct) (auto intro: redactor_wf_new redactor_wf_learn)

lemma redactor_history_pinned:
  "redactor_history vs es r \<Longrightarrow> set (rd_pinned r) = {v \<in> set vs. min_length \<le> length v}"
  by (induction rule: redactor_history.induct) (auto simp: redactor_new_def)

definition learn_all :: "(string \<times> string) list \<Rightarrow> redactor \<Rightarrow> redactor" where
  "learn_all es r = fold (\<lambda>(label, v). redactor_learn label v) es r"

lemma learn_all_wf: "redactor_wf r \<Longrightarrow> redactor_wf (learn_all es r)"
  by (induction es arbitrary: r) (auto simp: learn_all_def redactor_wf_learn)

lemma ring_keeps:
  "ring_of r label = xs @ v # ys \<Longrightarrow>
   length ys + length (filter (\<lambda>e. fst e = label) es) < learned_per_label \<Longrightarrow>
     v \<in> set (ring_of (learn_all es r) label)"
proof (induction es arbitrary: r xs ys)
  case Nil
  then show ?case
    by (simp add: learn_all_def)
next
  case (Cons e es)
  obtain l w where e: "e = (l, w)"
    by (cases e)
  let ?r = "redactor_learn l w r"
  have more: "learn_all (e # es) r = learn_all es ?r"
    by (simp add: learn_all_def e)
  show ?case
  proof (cases "ring_of ?r label = ring_of r label")
    case True
    with Cons.prems Cons.IH [of ?r xs ys] show ?thesis
      unfolding more by (auto simp: e split: if_splits)
  next
    case False
    let ?n = "Suc (length (ring_of r label)) - learned_per_label"
    have l: "l = label" "ring_of ?r label = drop ?n (ring_of r label @ [w])"
      using False by (auto simp: ring_of_learn split: if_splits)
    then have "length ys + length (filter (\<lambda>e. fst e = label) es) + 1 < learned_per_label"
      using Cons.prems(2) by (simp add: e)
    moreover from this have "ring_of ?r label = drop ?n xs @ v # (ys @ [w])"
      using l(2) Cons.prems(1) by (simp add: learned_per_label_def)
    ultimately show ?thesis
      unfolding more using Cons.IH [of ?r "drop ?n xs" "ys @ [w]"] by simp
  qed
qed

text \<open>
  What the program knows to be secret stays known. A configured value is in the
  set in every history; a value that is new to its label, once learned, is still in the set
  after up to three more values have been learned for that label and any number for others;
  and the set stays bounded, with at most four learned values to a label.
\<close>

lemma known_secrets_stay_known:
  assumes "redactor_history vs es r" and "min_length \<le> length v"
  shows "(v \<in> set vs \<longrightarrow> v \<in> set (rd_sorted r)) \<and>
    (v \<notin> set (ring_of r label) \<and> length (filter (\<lambda>e. fst e = label) later) < learned_per_label
       \<longrightarrow> v \<in> set (rd_sorted (learn_all later (redactor_learn label v r)))) \<and>
    length (ring_of r label) \<le> learned_per_label"
proof (intro conjI impI)
  note wf = redactor_history_wf [OF assms(1)]
  show "v \<in> set (rd_sorted r)" if "v \<in> set vs"
  proof -
    have "v \<in> set (rd_pinned r)"
      using that assms(2) unfolding redactor_history_pinned [OF assms(1)] by simp
    with wf show ?thesis
      unfolding redactor_wf_def by blast
  qed
  show "length (ring_of r label) \<le> learned_per_label"
  proof (cases "map_of (rd_learned r) label")
    case (Some ring)
    then have "ring \<in> snd ` set (rd_learned r)"
      by (metis image_eqI map_of_SomeD snd_conv)
    with wf have "length ring \<le> learned_per_label"
      unfolding redactor_wf_def by blast
    with Some show ?thesis
      by (simp add: ring_of_def)
  qed (simp add: ring_of_def)
  assume new: "v \<notin> set (ring_of r label) \<and> length (filter (\<lambda>e. fst e = label) later) < learned_per_label"
  let ?r = "redactor_learn label v r" and ?n = "Suc (length (ring_of r label)) - learned_per_label"
  have "?n \<le> length (ring_of r label)"
    by (simp add: learned_per_label_def)
  then have "ring_of ?r label = drop ?n (ring_of r label) @ v # []"
    using new assms(2) by (simp add: ring_of_learn)
  then have "v \<in> set (ring_of (learn_all later ?r) label)"
    using ring_keeps [of ?r label _ v "[]" later] new by simp
  then show "v \<in> set (rd_sorted (learn_all later ?r))"
    using ring_of_known [OF learn_all_wf [OF redactor_wf_learn [OF wf]]] by blast
qed

text \<open>
  The condition that the value is new matters: learning a value again does not renew it, so the
  one that is current can be the next to be forgotten.
\<close>

lemma relearning_does_not_renew:
  "''current'' \<notin> set (rd_sorted (learn_all
     [(''t'', ''current''), (''t'', ''aaaa''), (''t'', ''bbbb''), (''t'', ''cccc''), (''t'', ''current''), (''t'', ''dddd'')]
     (redactor_new [])))"
  by code_simp

end
