(* ===== verification/AuditLog.thy ===== *)
theory AuditLog
  imports Redact Core
begin

text \<open>
  \<open>crates/marshal-core/src/audit.rs\<close> and \<open>crates/marshal-audit/src/lib.rs\<close>: the record of a
  request, what of its headers may be shown, and the sinks that write it.
\<close>

section \<open>Headers\<close>

definition safe_header_values :: "string list" where
  "safe_header_values =
     [''content-type'', ''content-encoding'', ''content-length'', ''transfer-encoding'', ''accept'',
      ''accept-encoding'', ''accept-language'', ''cache-control'', ''connection'', ''date'',
      ''server'', ''vary'', ''via'', ''retry-after'', ''user-agent'']"

definition redacted_header_value :: string where
  "redacted_header_value = ''[redacted]''"

definition shown_value :: "headers \<Rightarrow> string \<Rightarrow> string" where
  "shown_value h name =
    (if to_ascii_lowercase name \<in> set safe_header_values
     then join '', '' (map (\<lambda>v. from_utf8_lossy (bytes_of v)) (hdr_get_all h name))
     else redacted_header_value)"

definition redact_headers :: "headers \<Rightarrow> (string \<times> string) list" where
  "redact_headers h =
     foldl (\<lambda>out name. map_insert (to_ascii_lowercase name) (shown_value h name) out) [] (hdr_keys h)"

section \<open>The record\<close>

record audit_record =
  ar_identity :: string
  ar_attributed :: bool
  ar_resolver :: "string option"
  ar_profile :: string
  ar_ingress :: string
  ar_host :: string
  ar_method :: string
  ar_path :: string
  ar_action :: action
  ar_reason :: reason
  ar_would_deny :: bool
  ar_trail :: "layer_outcome list"
  ar_facts :: jmap
  ar_flags :: "string list"
  ar_status_code :: "nat option"
  ar_duration_ms :: nat
  ar_request_headers :: "(string \<times> string) list"
  ar_response_headers :: "(string \<times> string) list"

text \<open>\<open>serde_json::to_value\<close> of a record, with the fields its attributes leave out.\<close>

definition opt_field :: "string \<Rightarrow> json option \<Rightarrow> jmap" where
  "opt_field k v = (case v of None \<Rightarrow> [] | Some x \<Rightarrow> [(k, x)])"

definition field_if :: "bool \<Rightarrow> string \<Rightarrow> json \<Rightarrow> jmap" where
  "field_if b k v = (if b then [(k, v)] else [])"

definition texts_json :: "(string \<times> string) list \<Rightarrow> json" where
  "texts_json m = jobj (map (\<lambda>(k, v). (k, JStr v)) m)"

fun action_json :: "action \<Rightarrow> json" where
  "action_json ActAllow = JStr ''allow''"
| "action_json ActDeny = JStr ''deny''"

definition reason_json :: "reason \<Rightarrow> json" where
  "reason_json r =
     jobj ([(''layer'', JStr (r_layer r)), (''code'', JStr (r_code r)), (''message'', JStr (r_message r))]
       @ opt_field ''rule'' (map_option JStr (r_rule r)) @ [(''cached'', JBool (r_cached r))])"

definition outcome_json :: "layer_outcome \<Rightarrow> json" where
  "outcome_json o1 =
     jobj ([(''layer'', JStr (lo_layer o1)), (''verdict'', JStr (lo_verdict o1)),
        (''duration_us'', JNum (PosInt (lo_duration_us o1)))]
       @ opt_field ''detail'' (map_option JStr (lo_detail o1)) @ [(''cached'', JBool (lo_cached o1))])"

definition record_json :: "audit_record \<Rightarrow> json" where
  "record_json r =
     jobj ([(''identity'', JStr (ar_identity r)), (''attributed'', JBool (ar_attributed r))]
       @ opt_field ''resolver'' (map_option JStr (ar_resolver r))
       @ [(''profile'', JStr (ar_profile r)), (''ingress'', JStr (ar_ingress r)),
          (''host'', JStr (ar_host r)), (''method'', JStr (ar_method r)), (''path'', JStr (ar_path r)),
          (''action'', action_json (ar_action r)), (''reason'', reason_json (ar_reason r))]
       @ field_if (ar_would_deny r) ''would_deny'' (JBool True)
       @ [(''trail'', JArr (map outcome_json (ar_trail r)))]
       @ field_if (ar_facts r \<noteq> []) ''facts'' (JObj (ar_facts r))
       @ field_if (ar_flags r \<noteq> []) ''flags'' (JArr (map JStr (ar_flags r)))
       @ opt_field ''status_code'' (map_option (\<lambda>n. JNum (PosInt n)) (ar_status_code r))
       @ [(''duration_ms'', JNum (PosInt (ar_duration_ms r)))]
       @ field_if (ar_request_headers r \<noteq> []) ''request_headers'' (texts_json (ar_request_headers r))
       @ field_if (ar_response_headers r \<noteq> []) ''response_headers''
           (texts_json (ar_response_headers r)))"

section \<open>Sinks\<close>

text \<open>
  Printing: JSON values, and the structures the sources serialise without going through one. A
  writer appends to a world or fails; \<open>tracing\<close> takes a level, fields and a message.
\<close>

record 'w audit_env =
  ae_json :: json_lib
  ae_record :: "audit_record \<Rightarrow> string"
  ae_trail :: "layer_outcome list \<Rightarrow> string"
  ae_write :: "byte list \<Rightarrow> 'w \<Rightarrow> 'w"

definition json_line :: "'w audit_env \<Rightarrow> redactor \<Rightarrow> audit_record \<Rightarrow> byte list" where
  "json_line env rd r =
     bytes_of (if rd_sorted rd = [] then ae_record env r
               else jl_show (ae_json env) (redact_json rd (record_json r))) @ [10]"

definition json_emit :: "'w audit_env \<Rightarrow> redactor \<Rightarrow> audit_record \<Rightarrow> 'w \<Rightarrow> 'w" where
  "json_emit env rd r w = ae_write env (json_line env rd r) w"

datatype request_detail = Access | AuditDetail
datatype log_level = LevelInfo | LevelWarn

record log_line =
  ll_level :: log_level
  ll_fields :: "(string \<times> string) list"
  ll_message :: string

definition show_bool :: "bool \<Rightarrow> string" where
  "show_bool b = (if b then ''true'' else ''false'')"

definition access_fields :: "audit_record \<Rightarrow> (string \<times> string) list" where
  "access_fields r =
     [(''identity'', ar_identity r), (''profile'', ar_profile r), (''host'', ar_host r),
      (''method'', ar_method r), (''layer'', r_layer (ar_reason r))]"

definition audit_fields ::
  "'w audit_env \<Rightarrow> redactor \<Rightarrow> audit_record \<Rightarrow> (string \<times> string) list" where
  "audit_fields env rd r =
     [(''identity'', ar_identity r), (''attributed'', show_bool (ar_attributed r)),
      (''resolver'', unwrap_or [] (ar_resolver r)), (''profile'', ar_profile r),
      (''ingress'', ar_ingress r), (''host'', ar_host r), (''method'', ar_method r),
      (''path'', ar_path r), (''layer'', r_layer (ar_reason r)), (''code'', r_code (ar_reason r)),
      (''cached'', show_bool (r_cached (ar_reason r))), (''would_deny'', show_bool (ar_would_deny r)),
      (''status_code'', show_nat (unwrap_or 0 (ar_status_code r))),
      (''duration_ms'', show_nat (ar_duration_ms r)),
      (''trail'', redact rd (ae_trail env (ar_trail r))),
      (''facts'', redact rd (jl_show (ae_json env) (JObj (ar_facts r)))),
      (''flags'', redact rd (jl_show (ae_json env) (JArr (map JStr (ar_flags r)))))]"

definition tracing_line ::
  "'w audit_env \<Rightarrow> request_detail \<Rightarrow> redactor \<Rightarrow> audit_record \<Rightarrow> log_line" where
  "tracing_line env detail rd r =
    (let message = redact rd (r_message (ar_reason r)) in
     case ar_action r of
       ActAllow \<Rightarrow>
         \<lparr>ll_level = LevelInfo,
          ll_fields =
            (if detail = Access then access_fields r @ [(''duration_ms'', show_nat (ar_duration_ms r))]
             else audit_fields env rd r),
          ll_message = ''allow''\<rparr>
     | ActDeny \<Rightarrow>
         \<lparr>ll_level = LevelWarn,
          ll_fields =
            (if detail = Access then access_fields r @ [(''code'', r_code (ar_reason r))]
             else audit_fields env rd r),
          ll_message = ''deny: '' @ message\<rparr>)"

definition multi_emit :: "(audit_record \<Rightarrow> 'w \<Rightarrow> 'w) list \<Rightarrow> audit_record \<Rightarrow> 'w \<Rightarrow> 'w" where
  "multi_emit sinks r w = fold (\<lambda>sink. sink r) sinks w"

section \<open>Facts\<close>

lemma map_of_foldl_names:
  "map_of (foldl (\<lambda>out n. map_insert n (f n) out) acc ns) k =
     (if k \<in> set ns then Some (f k) else map_of acc k)"
  by (induction ns arbitrary: acc) auto

text \<open>
  What a record shows of the headers: every header's name, and a value only for the
  fifteen names listed as safe, whose values it joins; for every other name, whatever it is,
  the fixed text and nothing that depends on the value.
\<close>

lemma shown_headers_exact:
  assumes "hdr_wf h"
  shows "map_of (redact_headers h) n =
    (if n \<notin> set (hdr_keys h) then None
     else if n \<in> set safe_header_values
     then Some (join '', '' (map (\<lambda>v. from_utf8_lossy (bytes_of v)) (hdr_get_all h n)))
     else Some ''[redacted]'')"
proof -
  have lower: "to_ascii_lowercase k = k" if "k \<in> set (hdr_keys h)" for k
    using that assms by (auto simp: hdr_keys_def hdr_wf_def)
  have "redact_headers h = foldl (\<lambda>out n. map_insert n (shown_value h n) out) [] (hdr_keys h)"
    unfolding redact_headers_def by (rule foldl_cong) (simp_all add: lower)
  then show ?thesis
    using lower [of n] by (simp add: map_of_foldl_names shown_value_def redacted_header_value_def)
qed

lemma json_line_clean:
  assumes "v \<in> set (rd_sorted rd)" and "removable v"
  shows "\<exists>doc. json_line env rd r = bytes_of (jl_show (ae_json env) doc) @ [10] \<and>
    (\<forall>t \<in> set (json_texts doc). \<not> sublist v t)"
proof -
  have "rd_sorted rd \<noteq> []"
    using assms(1) by auto
  then show ?thesis
    using redact_json_with_clears [OF assms, of _ "record_json r"]
    by (auto simp: json_line_def redact_json_def)
qed

text \<open>The line for the log shows the path as it is, unlike the JSON document.\<close>

lemma tracing_path_not_redacted:
  "(''path'', ar_path r) \<in> set (ll_fields (tracing_line env AuditDetail rd r))"
  by (simp add: tracing_line_def audit_fields_def split: action.split)

end
