(* ===== verification/Translate.thy ===== *)
theory Translate
  imports Config
begin

text \<open>
  \<open>crates/marshal-llm/src/translate.rs\<close>: requests and responses between the OpenAI chat
  completions dialect and the Anthropic messages dialect. The dialects are the configuration's;
  reading and printing JSON text are the parameter \<open>json_lib\<close>. Sums of token counts are \<open>u64\<close>
  sums of a release build.
\<close>

datatype translate_error = NotJson | TranslateOther string


definition jnat :: "nat \<Rightarrow> json" where "jnat n = JNum (PosInt n)"
definition two_newlines :: string where "two_newlines = [CHR 0x0A, CHR 0x0A]"
definition newline :: string where "newline = [CHR 0x0A]"

definition get_or :: "json \<Rightarrow> string \<Rightarrow> json \<Rightarrow> json" where
  "get_or v k d = unwrap_or d (jget v k)"

definition pointer_or :: "json \<Rightarrow> string list \<Rightarrow> json \<Rightarrow> json" where
  "pointer_or v ks d = unwrap_or d (pointer v ks)"

text \<open>\<open>as_object_mut().insert(k, v)\<close> of a value known to be an object.\<close>

fun obj_insert :: "string \<Rightarrow> json \<Rightarrow> json \<Rightarrow> json" where
  "obj_insert k v (JObj m) = JObj (map_insert k v m)"
| "obj_insert k v other = other"

definition insert_opt :: "string \<Rightarrow> json option \<Rightarrow> json \<Rightarrow> json" where
  "insert_opt k v doc = (case v of None \<Rightarrow> doc | Some x \<Rightarrow> obj_insert k x doc)"

section \<open>Texts of a message\<close>

definition part_text :: "json \<Rightarrow> string option" where
  "part_text p = (if get_str p ''type'' = Some ''text'' then get_str p ''text'' else as_str p)"

definition message_text :: "json \<Rightarrow> string option" where
  "message_text msg =
    (case jget msg ''content'' of
       Some (JStr s) \<Rightarrow> Some s
     | Some (JArr parts) \<Rightarrow> Some (join newline (List.map_filter part_text parts))
     | _ \<Rightarrow> None)"

definition block_texts :: "json list \<Rightarrow> string" where
  "block_texts blocks = join newline (List.map_filter (\<lambda>b. get_str b ''text'') blocks)"

fun content_as_text :: "json_lib \<Rightarrow> json \<Rightarrow> string" where
  "content_as_text js (JStr s) = s"
| "content_as_text js (JArr blocks) = block_texts blocks"
| "content_as_text js other = jl_show js other"

section \<open>Requests, from OpenAI to Anthropic\<close>

definition parse_arguments :: "json_lib \<Rightarrow> string \<Rightarrow> json" where
  "parse_arguments js args = unwrap_or (jobj []) (jl_parse js (bytes_of args))"

definition tool_use_block :: "json_lib \<Rightarrow> json \<Rightarrow> json" where
  "tool_use_block js call =
     jobj [(''type'', JStr ''tool_use''),
       (''id'', JStr (unwrap_or ''toolu_unknown'' (get_str call ''id''))),
       (''name'', JStr (unwrap_or ''function'' (pointer_str call [''function'', ''name'']))),
       (''input'', parse_arguments js
          (unwrap_or ''{}'' (pointer_str call [''function'', ''arguments''])))]"

definition text_block :: "string \<Rightarrow> json" where
  "text_block t = jobj [(''type'', JStr ''text''), (''text'', JStr t)]"

definition openai_content_blocks :: "json_lib \<Rightarrow> json \<Rightarrow> json list" where
  "openai_content_blocks js msg =
     (case message_text msg of
        Some t \<Rightarrow> if t = [] then [] else [text_block t]
      | None \<Rightarrow> [])
     @ map (tool_use_block js) (unwrap_or [] (get_array msg ''tool_calls''))"

definition collapse_blocks :: "json list \<Rightarrow> json" where
  "collapse_blocks blocks =
    (case blocks of
       [] \<Rightarrow> JStr []
     | [b] \<Rightarrow>
         if get_str b ''type'' = Some ''text'' then get_or b ''text'' JNull else JArr [b]
     | _ \<Rightarrow> JArr blocks)"

definition openai_message_to_anthropic :: "json_lib \<Rightarrow> json \<Rightarrow> string \<Rightarrow> json" where
  "openai_message_to_anthropic js msg role =
     jobj [(''role'', JStr role), (''content'', collapse_blocks (openai_content_blocks js msg))]"

definition tool_result_message :: "json \<Rightarrow> json" where
  "tool_result_message msg =
     jobj [(''role'', JStr ''user''),
       (''content'', JArr [jobj [(''type'', JStr ''tool_result''),
          (''tool_use_id'', JStr (unwrap_or [] (get_str msg ''tool_call_id''))),
          (''content'', JStr (unwrap_or [] (message_text msg)))]])]"

definition message_role :: "json \<Rightarrow> string" where
  "message_role msg = unwrap_or ''user'' (get_str msg ''role'')"

fun split_messages :: "json_lib \<Rightarrow> json list \<Rightarrow> string list \<times> json list" where
  "split_messages js [] = ([], [])"
| "split_messages js (msg # rest) =
    (case split_messages js rest of (systems, messages) \<Rightarrow>
       (let role = message_role msg in
        if role = ''system''
        then (case message_text msg of
                Some t \<Rightarrow> (t # systems, messages) | None \<Rightarrow> (systems, messages))
        else if role = ''user'' \<or> role = ''assistant''
        then (systems, openai_message_to_anthropic js msg role # messages)
        else if role = ''tool'' then (systems, tool_result_message msg # messages)
        else (systems, openai_message_to_anthropic js msg ''user'' # messages)))"

definition openai_tool_to_anthropic :: "json \<Rightarrow> json" where
  "openai_tool_to_anthropic tool =
    (let func = get_or tool ''function'' tool in
     jobj [(''name'', get_or func ''name'' (JStr ''function'')),
       (''description'', get_or func ''description'' (JStr [])),
       (''input_schema'', get_or func ''parameters''
          (jobj [(''type'', JStr ''object''), (''properties'', jobj [])]))])"

definition openai_tool_choice_to_anthropic :: "json \<Rightarrow> json" where
  "openai_tool_choice_to_anthropic choice =
    (if as_str choice = Some ''none'' then jobj [(''type'', JStr ''none'')]
     else if as_str choice = Some ''auto'' then jobj [(''type'', JStr ''auto'')]
     else if as_str choice = Some ''required'' then jobj [(''type'', JStr ''any'')]
     else case pointer_str choice [''function'', ''name''] of
       Some name \<Rightarrow> jobj [(''type'', JStr ''tool''), (''name'', JStr name)]
     | None \<Rightarrow> jobj [(''type'', JStr ''auto'')])"

fun stop_sequences :: "json \<Rightarrow> json" where
  "stop_sequences (JStr s) = JArr [JStr s]"
| "stop_sequences other = other"

definition or_else :: "'a option \<Rightarrow> 'a option \<Rightarrow> 'a option" where
  "or_else x y = (case x of None \<Rightarrow> y | Some v \<Rightarrow> Some v)"

definition openai_max_tokens :: "json \<Rightarrow> nat" where
  "openai_max_tokens body =
     unwrap_or 4096 (Option.bind
       (or_else (jget body ''max_tokens'') (jget body ''max_completion_tokens'')) as_u64)"

definition openai_request_to_anthropic ::
  "json_lib \<Rightarrow> json \<Rightarrow> string \<Rightarrow> translate_error + json" where
  "openai_request_to_anthropic js body model =
    (if \<not> is_object body then Inl NotJson
     else case split_messages js (unwrap_or [] (get_array body ''messages'')) of
       (systems, messages) \<Rightarrow>
         Inr (insert_opt ''tool_choice''
                (map_option openai_tool_choice_to_anthropic (jget body ''tool_choice''))
              (insert_opt ''tools''
                (map_option (\<lambda>ts. JArr (map openai_tool_to_anthropic ts)) (get_array body ''tools''))
              (insert_opt ''stream'' (jget body ''stream'')
              (insert_opt ''stop_sequences'' (map_option stop_sequences (jget body ''stop''))
              (insert_opt ''temperature'' (jget body ''temperature'')
              (insert_opt ''system''
                (if systems = [] then None else Some (JStr (join two_newlines systems)))
                (jobj [(''model'', JStr model), (''messages'', JArr messages),
                   (''max_tokens'', jnat (openai_max_tokens body))]))))))))"

section \<open>Requests, from Anthropic to OpenAI\<close>

fun system_text :: "json \<Rightarrow> string" where
  "system_text (JStr s) = s"
| "system_text (JArr blocks) = block_texts blocks"
| "system_text _ = []"

definition tool_call_of :: "json_lib \<Rightarrow> json \<Rightarrow> json" where
  "tool_call_of js block =
     jobj [(''id'', get_or block ''id'' (JStr ''call_unknown'')), (''type'', JStr ''function''),
       (''function'', jobj
          [(''name'', get_or block ''name'' (JStr ''function'')),
           (''arguments'', JStr (jl_show js (get_or block ''input'' (jobj []))))])]"

definition tool_message_of :: "json_lib \<Rightarrow> json \<Rightarrow> json" where
  "tool_message_of js block =
     jobj [(''role'', JStr ''tool''), (''tool_call_id'', get_or block ''tool_use_id'' (JStr [])),
       (''content'', JStr (case jget block ''content'' of
          None \<Rightarrow> [] | Some c \<Rightarrow> content_as_text js c))]"

definition block_is :: "string \<Rightarrow> json \<Rightarrow> bool" where
  "block_is t block \<longleftrightarrow> get_str block ''type'' = Some t"

definition text_blocks :: "json list \<Rightarrow> string list" where
  "text_blocks blocks = List.map_filter (\<lambda>b. get_str b ''text'') (filter (block_is ''text'') blocks)"

definition call_blocks :: "json_lib \<Rightarrow> json list \<Rightarrow> json list" where
  "call_blocks js blocks = map (tool_call_of js) (filter (block_is ''tool_use'') blocks)"

definition anthropic_blocks_to_openai :: "json_lib \<Rightarrow> string \<Rightarrow> json list \<Rightarrow> json list" where
  "anthropic_blocks_to_openai js role blocks =
    (let texts = text_blocks blocks; calls = call_blocks js blocks;
         results = map (tool_message_of js) (filter (block_is ''tool_result'') blocks)
     in if texts = [] \<and> calls = [] then results
        else insert_opt ''tool_calls'' (if calls = [] then None else Some (JArr calls))
               (jobj [(''role'', JStr role), (''content'', JStr (join newline texts))])
             # results)"

definition anthropic_message_to_openai :: "json_lib \<Rightarrow> json \<Rightarrow> json list" where
  "anthropic_message_to_openai js msg =
    (let role = message_role msg in
     case jget msg ''content'' of
       Some (JStr s) \<Rightarrow> [jobj [(''role'', JStr role), (''content'', JStr s)]]
     | Some (JArr blocks) \<Rightarrow> anthropic_blocks_to_openai js role blocks
     | _ \<Rightarrow> [jobj [(''role'', JStr role), (''content'', JStr [])]])"

definition anthropic_tool_to_openai :: "json \<Rightarrow> json" where
  "anthropic_tool_to_openai t =
     jobj [(''type'', JStr ''function''),
       (''function'', jobj
          [(''name'', get_or t ''name'' (JStr ''function'')),
           (''description'', get_or t ''description'' (JStr [])),
           (''parameters'', get_or t ''input_schema'' (jobj [(''type'', JStr ''object'')]))])]"

definition anthropic_tool_choice_to_openai :: "json \<Rightarrow> json" where
  "anthropic_tool_choice_to_openai choice =
    (if get_str choice ''type'' = Some ''none'' then JStr ''none''
     else if get_str choice ''type'' = Some ''any'' then JStr ''required''
     else if get_str choice ''type'' = Some ''tool''
     then jobj [(''type'', JStr ''function''),
            (''function'', jobj [(''name'', get_or choice ''name'' (JStr ''function''))])]
     else JStr ''auto'')"

definition anthropic_request_to_openai ::
  "json_lib \<Rightarrow> json \<Rightarrow> string \<Rightarrow> translate_error + json" where
  "anthropic_request_to_openai js body model =
    (if \<not> is_object body then Inl NotJson
     else
       let system = (case jget body ''system'' of None \<Rightarrow> [] | Some s \<Rightarrow> system_text s);
           messages =
             (if system = [] then []
              else [jobj [(''role'', JStr ''system''), (''content'', JStr system)]])
             @ concat (map (anthropic_message_to_openai js)
                 (unwrap_or [] (get_array body ''messages'')))
       in Inr (insert_opt ''tool_choice''
                 (map_option anthropic_tool_choice_to_openai (jget body ''tool_choice''))
               (insert_opt ''tools''
                 (map_option (\<lambda>ts. JArr (map anthropic_tool_to_openai ts)) (get_array body ''tools''))
               (insert_opt ''stream'' (jget body ''stream'')
               (insert_opt ''stop'' (jget body ''stop_sequences'')
               (insert_opt ''temperature'' (jget body ''temperature'')
               (insert_opt ''max_tokens'' (jget body ''max_tokens'')
                 (jobj [(''model'', JStr model), (''messages'', JArr messages)]))))))))"

section \<open>Responses\<close>

definition rewrite_model_field :: "json \<Rightarrow> string \<Rightarrow> json" where
  "rewrite_model_field body model =
    (if jget body ''model'' \<noteq> None then obj_insert ''model'' (JStr model) body else body)"

definition is_error_body :: "json \<Rightarrow> bool" where
  "is_error_body body \<longleftrightarrow> get_str body ''type'' = Some ''error'' \<or> jget body ''error'' \<noteq> None"

definition anthropic_error_to_openai :: "json \<Rightarrow> json" where
  "anthropic_error_to_openai body =
    (let message = unwrap_or ''origin error''
           (or_else (pointer_str body [''error'', ''message'']) (get_str body ''message''));
         kind = unwrap_or ''api_error'' (pointer_str body [''error'', ''type''])
     in jobj [(''error'', jobj [(''message'', JStr message), (''type'', JStr kind),
                (''code'', JStr kind)])])"

definition openai_error_to_anthropic :: "json \<Rightarrow> json" where
  "openai_error_to_anthropic err =
    (let message = unwrap_or ''origin error'' (get_str err ''message'');
         kind = unwrap_or ''api_error'' (or_else (get_str err ''type'') (get_str err ''code''))
     in jobj [(''type'', JStr ''error''),
          (''error'', jobj [(''type'', JStr kind), (''message'', JStr message)])])"

fun map_error_shape :: "llm_dialect \<Rightarrow> llm_dialect \<Rightarrow> json \<Rightarrow> json" where
  "map_error_shape Anthropic Openai body =
     (if is_error_body body then anthropic_error_to_openai body else body)"
| "map_error_shape Openai Anthropic body =
     (case jget body ''error'' of Some err \<Rightarrow> openai_error_to_anthropic err | None \<Rightarrow> body)"
| "map_error_shape _ _ body = body"

definition finish_of_stop :: "string \<Rightarrow> string" where
  "finish_of_stop stop =
    (if stop = ''tool_use'' then ''tool_calls''
     else if stop = ''max_tokens'' then ''length'' else ''stop'')"

definition stop_of_finish :: "string \<Rightarrow> string" where
  "stop_of_finish finish =
    (if finish = ''tool_calls'' then ''tool_use''
     else if finish = ''length'' then ''max_tokens'' else ''end_turn'')"

definition token_count :: "json \<Rightarrow> string \<Rightarrow> nat" where
  "token_count body k = unwrap_or 0 (Option.bind (pointer body [''usage'', k]) as_u64)"

definition anthropic_response_to_openai :: "json_lib \<Rightarrow> json \<Rightarrow> string \<Rightarrow> json" where
  "anthropic_response_to_openai js body model =
    (if is_error_body body then body
     else
       let blocks = unwrap_or [] (as_array (get_or body ''content'' (JArr [])));
           txt = concat (text_blocks blocks);
           calls = call_blocks js blocks;
           stop = unwrap_or ''end_turn'' (pointer_str body [''stop_reason'']);
           message = insert_opt ''tool_calls'' (if calls = [] then None else Some (JArr calls))
             (jobj [(''role'', JStr ''assistant''),
                (''content'', if txt = [] then JNull else JStr txt)])
       in jobj [(''id'', get_or body ''id'' (JStr ''chatcmpl-marshal'')),
            (''object'', JStr ''chat.completion''), (''model'', JStr model),
            (''choices'', JArr [jobj [(''index'', jnat 0), (''message'', message),
               (''finish_reason'', JStr (finish_of_stop stop))]]),
            (''usage'', jobj
               [(''prompt_tokens'', pointer_or body [''usage'', ''input_tokens''] (jnat 0)),
                (''completion_tokens'', pointer_or body [''usage'', ''output_tokens''] (jnat 0)),
                (''total_tokens'',
                   jnat ((token_count body ''input_tokens'' + token_count body ''output_tokens'')
                     mod 2 ^ 64))])])"

definition response_call_block :: "json_lib \<Rightarrow> json \<Rightarrow> json" where
  "response_call_block js call =
     jobj [(''type'', JStr ''tool_use''), (''id'', get_or call ''id'' (JStr ''toolu_unknown'')),
       (''name'', pointer_or call [''function'', ''name''] (JStr ''function'')),
       (''input'', parse_arguments js
          (unwrap_or ''{}'' (pointer_str call [''function'', ''arguments''])))]"

definition openai_response_to_anthropic :: "json_lib \<Rightarrow> json \<Rightarrow> string \<Rightarrow> json" where
  "openai_response_to_anthropic js body model =
    (if jget body ''error'' \<noteq> None then body
     else
       let message = pointer_or body [''choices'', ''0'', ''message''] (jobj []);
           content =
             (case get_str message ''content'' of
                Some t \<Rightarrow> if t = [] then [] else [text_block t] | None \<Rightarrow> [])
             @ map (response_call_block js) (unwrap_or [] (get_array message ''tool_calls''));
           finish = unwrap_or ''stop'' (pointer_str body [''choices'', ''0'', ''finish_reason''])
       in jobj [(''id'', get_or body ''id'' (JStr ''msg_marshal'')), (''type'', JStr ''message''),
            (''role'', JStr ''assistant''), (''model'', JStr model), (''content'', JArr content),
            (''stop_reason'', JStr (stop_of_finish finish)),
            (''usage'', jobj
               [(''input_tokens'', pointer_or body [''usage'', ''prompt_tokens''] (jnat 0)),
                (''output_tokens'', pointer_or body [''usage'', ''completion_tokens''] (jnat 0))])])"

section \<open>Dispatch\<close>

definition not_translatable :: translate_error where
  "not_translatable =
     TranslateOther ''System One decision and chat dialects cannot be translated''"

definition system_one_request_ok :: "json \<Rightarrow> bool" where
  "system_one_request_ok body \<longleftrightarrow>
     (case jget body ''state'' of
        None \<Rightarrow> False | Some v \<Rightarrow> is_string v \<or> is_object v \<or> is_array v) \<and>
     (case Option.bind (jget body ''questions'') as_object of None \<Rightarrow> False | Some q \<Rightarrow> q \<noteq> []) \<and>
     Option.bind (jget body ''stream'') as_bool \<noteq> Some True"

definition translate_request ::
  "json_lib \<Rightarrow> llm_dialect \<Rightarrow> llm_dialect \<Rightarrow> json \<Rightarrow> string \<Rightarrow> translate_error + json" where
  "translate_request js from_d to_d body mapped_model =
    (if from_d = SystemOne \<and> \<not> system_one_request_ok body
     then Inl (TranslateOther
            ''System One requires state and non-empty questions; streaming is not supported'')
     else if from_d = to_d then Inr (obj_insert ''model'' (JStr mapped_model) body)
     else case (from_d, to_d) of
       (Openai, Anthropic) \<Rightarrow> openai_request_to_anthropic js body mapped_model
     | (Anthropic, Openai) \<Rightarrow> anthropic_request_to_openai js body mapped_model
     | _ \<Rightarrow> Inl not_translatable)"

definition translate_response ::
  "json_lib \<Rightarrow> llm_dialect \<Rightarrow> llm_dialect \<Rightarrow> json \<Rightarrow> string \<Rightarrow> translate_error + json" where
  "translate_response js from_origin to_client body0 client_model =
    (let body = map_error_shape from_origin to_client body0 in
     if from_origin = to_client then Inr (rewrite_model_field body client_model)
     else case (from_origin, to_client) of
       (Anthropic, Openai) \<Rightarrow> Inr (anthropic_response_to_openai js body client_model)
     | (Openai, Anthropic) \<Rightarrow> Inr (openai_response_to_anthropic js body client_model)
     | _ \<Rightarrow> Inl not_translatable)"

section \<open>Facts about objects\<close>

lemma jobj_object [simp]: "is_object (jobj kvs)"
  by (simp add: jobj_def)

lemma is_object_iff: "is_object v \<longleftrightarrow> (\<exists>m. v = JObj m)"
  by (cases v) auto

lemma insert_opt_object [simp]: "is_object doc \<Longrightarrow> is_object (insert_opt k v doc)"
  by (auto simp: insert_opt_def is_object_iff split: option.split)

lemma jget_insert_opt [simp]:
  "is_object doc \<Longrightarrow> jget (insert_opt k v doc) k' = (if k' = k \<and> v \<noteq> None then v else jget doc k')"
  by (auto simp: insert_opt_def is_object_iff split: option.split)

lemma jstep_jobj: "jstep (jobj kvs) k = jget (jobj kvs) k"
  by (simp add: jobj_def)

lemma jstep_object: "is_object v \<Longrightarrow> jstep v k = jget v k"
  by (auto simp: is_object_iff)

section \<open>Requests keep the roles apart\<close>

text \<open>
  A translated request asks the mapped model and no other: whatever model the
  client names and whatever the two dialects are, the body that goes on holds the target's model.
\<close>

lemma translated_model_of:
  assumes "translate_request js from_d to_d body m = Inr out" and "is_object body"
  shows "is_object out \<and> get_str out ''model'' = Some m"
proof -
  have same: "is_object (obj_insert ''model'' (JStr m) body)
      \<and> get_str (obj_insert ''model'' (JStr m) body) ''model'' = Some m"
    using assms(2) by (auto simp: is_object_iff)
  have "is_object out \<and> get_str out ''model'' = Some m" if "openai_request_to_anthropic js body m = Inr out"
    using that by (auto simp: openai_request_to_anthropic_def jget_jobj split: if_splits prod.splits)
  moreover have "is_object out \<and> get_str out ''model'' = Some m"
    if "anthropic_request_to_openai js body m = Inr out"
    using that by (auto simp: anthropic_request_to_openai_def Let_def jget_jobj split: if_splits)
  ultimately show ?thesis
    using assms(1) same
    by (auto simp: translate_request_def not_translatable_def split: if_splits llm_dialect.splits)
qed

lemma split_messages_roles:
  "m \<in> set (snd (split_messages js msgs)) \<Longrightarrow> get_str m ''role'' \<in> {Some ''user'', Some ''assistant''}"
  by (induction msgs)
    (auto simp: Let_def openai_message_to_anthropic_def tool_result_message_def jget_jobj
      split: prod.splits if_splits option.splits)

lemma split_messages_systems:
  "fst (split_messages js msgs) =
     List.map_filter message_text (filter (\<lambda>m. message_role m = ''system'') msgs)"
  by (induction msgs) (auto simp: Let_def List.map_filter_def split: prod.splits option.splits)

text \<open>
  Translating an OpenAI request keeps operator and user apart: the Anthropic
  \<open>system\<close> field is exactly the texts of the system messages, in order, and is absent when there
  are none; and every message that remains speaks as the user or the assistant, whatever role
  it claimed.
\<close>

lemma translated_roles_stay_apart:
  assumes "openai_request_to_anthropic js body model = Inr out"
    and "get_array body ''messages'' = Some msgs"
  shows "\<exists>ms. get_array out ''messages'' = Some ms \<and>
    (\<forall>m \<in> set ms. get_str m ''role'' \<in> {Some ''user'', Some ''assistant''}) \<and>
    get_str out ''system'' =
      (let texts = List.map_filter message_text (filter (\<lambda>m. message_role m = ''system'') msgs)
       in if texts = [] then None else Some (join two_newlines texts))"
proof -
  obtain systems ms where split: "split_messages js msgs = (systems, ms)"
    by fastforce
  have "get_array out ''messages'' = Some ms"
    and "get_str out ''system'' = (if systems = [] then None else Some (join two_newlines systems))"
    using assms split
    by (auto simp: openai_request_to_anthropic_def jget_jobj split: if_splits)
  then show ?thesis
    using split_messages_roles [of _ js msgs] split_messages_systems [of js msgs] split
    by (simp add: Let_def)
qed

section \<open>A response and back\<close>

definition use_block :: "json \<times> json \<times> json \<Rightarrow> json" where
  "use_block u =
    (case u of (uid, name, input) \<Rightarrow>
       jobj [(''type'', JStr ''tool_use''), (''id'', uid), (''name'', name), (''input'', input)])"

text \<open>An Anthropic message: a text, then tool uses, a reason to stop and the token counts.\<close>

definition anthropic_reply ::
  "json \<Rightarrow> string \<Rightarrow> string \<Rightarrow> (json \<times> json \<times> json) list \<Rightarrow> string \<Rightarrow> json \<Rightarrow> json \<Rightarrow> json" where
  "anthropic_reply rid model txt uses stop tokens_in tokens_out =
     jobj [(''id'', rid), (''type'', JStr ''message''), (''role'', JStr ''assistant''),
       (''model'', JStr model),
       (''content'', JArr ((if txt = [] then [] else [text_block txt]) @ map use_block uses)),
       (''stop_reason'', JStr stop),
       (''usage'', jobj [(''input_tokens'', tokens_in), (''output_tokens'', tokens_out)])]"

lemma block_is_text_block [simp]:
  "block_is t (text_block s) \<longleftrightarrow> t = ''text''"
  "block_is t (use_block u) \<longleftrightarrow> t = ''tool_use''"
  by (auto simp: block_is_def text_block_def use_block_def jget_jobj split: prod.split)

lemma text_blocks_reply:
  "text_blocks ((if txt = [] then [] else [text_block txt]) @ map use_block uses) =
     (if txt = [] then [] else [txt])"
proof -
  have "filter (block_is ''text'') (map use_block uses) = []"
    by (simp add: filter_empty_conv)
  then show ?thesis
    by (simp add: text_blocks_def List.map_filter_def text_block_def jget_jobj)
      (simp add: block_is_def jget_jobj)
qed

lemma call_blocks_reply:
  "call_blocks js ((if txt = [] then [] else [text_block txt]) @ map use_block uses) =
     map (\<lambda>u. tool_call_of js (use_block u)) uses"
proof -
  have "filter (block_is ''tool_use'') (map use_block uses) = map use_block uses"
    by (simp add: filter_id_conv)
  then show ?thesis
    by (simp add: call_blocks_def)
qed

lemma response_call_use:
  assumes "jl_parse js (bytes_of (jl_show js (snd (snd u)))) = Some (snd (snd u))"
  shows "response_call_block js (tool_call_of js (use_block u)) = use_block u"
  using assms
  by (cases u) (simp add: response_call_block_def tool_call_of_def use_block_def get_or_def
      pointer_or_def jget_jobj jstep_jobj parse_arguments_def)



section \<open>Where the translation reorders\<close>

text \<open>
  The blocks of one Anthropic message become one message with its texts and calls, and after it a
  message per tool result. A user turn that answers a tool and adds a text therefore puts the text
  between the call and its result, which the OpenAI dialect wants adjacent.
\<close>

lemma user_text_precedes_tool_results:
  assumes "text_blocks blocks \<noteq> [] \<or> call_blocks js blocks \<noteq> []"
  shows "\<exists>first rest. anthropic_blocks_to_openai js role blocks = first # rest
    \<and> get_str first ''role'' = Some role
    \<and> rest = map (tool_message_of js) (filter (block_is ''tool_result'') blocks)"
  using assms by (auto simp: anthropic_blocks_to_openai_def Let_def jget_jobj)

text \<open>Every tool result is passed on, with the identifier of its call, in the order given.\<close>

lemma tool_results_are_kept:
  "filter (\<lambda>m. get_str m ''role'' = Some ''tool'') (anthropic_blocks_to_openai js ''user'' blocks) =
     map (tool_message_of js) (filter (block_is ''tool_result'') blocks)"
proof -
  have "filter (\<lambda>m. get_str m ''role'' = Some ''tool'') (map (tool_message_of js) bs) =
      map (tool_message_of js) bs" for bs
    by (induction bs) (simp_all add: tool_message_of_def jget_jobj)
  then show ?thesis
    by (auto simp: anthropic_blocks_to_openai_def Let_def jget_jobj)
qed

end
