(* ===== verification/Sse.thy ===== *)
theory Sse
  imports Translate
begin

text \<open>
  \<open>crates/marshal-llm/src/sse.rs\<close>: rewriting one event stream of an origin into the dialect of the
  client, chunk by chunk. A step returns the events it emits as data and their texts are put
  together at the end, in the order the code pushes them; \<open>None\<close> is the panic of the one
  \<open>expect\<close>. Block indices are counted from 0 by one per block, so \<open>i64\<close> is \<open>int\<close> here.
\<close>

definition jint :: "int \<Rightarrow> json" where
  "jint i = JNum (if 0 \<le> i then PosInt (nat i) else NegInt i)"

lemma as_i64_jint [simp]: "- (2 ^ 63) \<le> i \<Longrightarrow> i < 2 ^ 63 \<Longrightarrow> as_i64 (jint i) = Some i"
  by (auto simp: jint_def)

record dialect_sse =
  ds_from :: llm_dialect
  ds_to :: llm_dialect
  ds_model :: string
  ds_id :: string
  ds_started :: bool
  ds_text_started :: bool
  ds_text_block :: "int option"
  ds_next_block :: int
  ds_tool_blocks :: "(int \<times> int) list"
  ds_open :: "int list"
  ds_tool_calls :: "(int \<times> int) list"
  ds_next_call :: int

definition dialect_sse_new :: "llm_dialect \<Rightarrow> llm_dialect \<Rightarrow> string \<Rightarrow> dialect_sse" where
  "dialect_sse_new from_d to_d model =
     \<lparr>ds_from = from_d, ds_to = to_d, ds_model = model, ds_id = ''chatcmpl-marshal'',
      ds_started = False, ds_text_started = False, ds_text_block = None, ds_next_block = 0,
      ds_tool_blocks = [], ds_open = [], ds_tool_calls = [], ds_next_call = 0\<rparr>"

section \<open>The model name in a stream of the client's own dialect\<close>

definition rewrite_data_line :: "json_lib \<Rightarrow> string \<Rightarrow> string \<Rightarrow> string" where
  "rewrite_data_line js model line =
    (case strip_prefix ''data: '' line of
       None \<Rightarrow> line
     | Some rest \<Rightarrow>
         if trim rest = ''[DONE]'' then line
         else case jl_parse js (bytes_of rest) of
           None \<Rightarrow> line
         | Some v \<Rightarrow> ''data: '' @ jl_show js (rewrite_model_field v model))"

definition rewrite_one_data_event :: "json_lib \<Rightarrow> string \<Rightarrow> string \<Rightarrow> string" where
  "rewrite_one_data_event js model event =
     join newline (map (rewrite_data_line js model) (str_lines event)) @ two_newlines"

definition ended :: "string \<Rightarrow> string" where
  "ended s = (if suffix two_newlines s then s else s @ two_newlines)"

definition rewrite_model_in_sse :: "json_lib \<Rightarrow> string \<Rightarrow> string \<Rightarrow> string" where
  "rewrite_model_in_sse js model chunk =
     concat (map (\<lambda>event. ended (rewrite_one_data_event js model event))
       (filter (\<lambda>event. trim event \<noteq> []) (split_str two_newlines chunk)))"

section \<open>From OpenAI chunks to Anthropic events\<close>

type_synonym sse_event = "string \<times> json"

definition anthropic_event :: "json_lib \<Rightarrow> sse_event \<Rightarrow> string" where
  "anthropic_event js e =
     ''event: '' @ fst e @ newline @ ''data: '' @ jl_show js (snd e) @ two_newlines"

definition block_stop :: "int \<Rightarrow> sse_event" where
  "block_stop i = (''content_block_stop'', jobj [(''index'', jint i)])"

definition close_anthropic_blocks :: "dialect_sse \<Rightarrow> dialect_sse \<times> sse_event list" where
  "close_anthropic_blocks st =
     (st\<lparr>ds_open := [], ds_text_started := False, ds_text_block := None\<rparr>,
      map block_stop (ds_open st))"

definition message_start :: "dialect_sse \<Rightarrow> sse_event" where
  "message_start st =
     (''message_start'', jobj [(''type'', JStr ''message_start''),
        (''message'', jobj [(''id'', JStr (ds_id st)), (''type'', JStr ''message''),
           (''role'', JStr ''assistant''), (''model'', JStr (ds_model st)), (''content'', JArr [])])])"

definition start_once :: "dialect_sse \<Rightarrow> dialect_sse \<times> sse_event list" where
  "start_once st =
     (if ds_started st then (st, []) else (st\<lparr>ds_started := True\<rparr>, [message_start st]))"

definition block_start :: "int \<Rightarrow> json \<Rightarrow> sse_event" where
  "block_start i content = (''content_block_start'',
     jobj [(''type'', JStr ''content_block_start''), (''index'', jint i), (''content_block'', content)])"

definition block_delta :: "int \<Rightarrow> json \<Rightarrow> sse_event" where
  "block_delta i delta = (''content_block_delta'',
     jobj [(''type'', JStr ''content_block_delta''), (''index'', jint i), (''delta'', delta)])"

definition text_delta :: "string \<Rightarrow> json" where
  "text_delta t = jobj [(''type'', JStr ''text_delta''), (''text'', JStr t)]"

definition arguments_delta :: "string \<Rightarrow> json" where
  "arguments_delta a = jobj [(''type'', JStr ''input_json_delta''), (''partial_json'', JStr a)]"

definition open_text :: "dialect_sse \<Rightarrow> dialect_sse \<times> sse_event list" where
  "open_text st =
    (if ds_text_started st then (st, [])
     else let index = ds_next_block st in
       (st\<lparr>ds_text_started := True, ds_next_block := index + 1, ds_text_block := Some index,
          ds_open := insort_insert index (ds_open st)\<rparr>,
        [block_start index (text_block [])]))"

definition text_step :: "dialect_sse \<Rightarrow> string \<Rightarrow> (dialect_sse \<times> sse_event list) option" where
  "text_step st t =
    (case open_text st of (st', evs) \<Rightarrow>
       map_option (\<lambda>index. (st', evs @ [block_delta index (text_delta t)])) (ds_text_block st'))"

definition call_index :: "json \<Rightarrow> int" where
  "call_index call = unwrap_or 0 (Option.bind (jget call ''index'') as_i64)"

definition tool_block :: "dialect_sse \<Rightarrow> int \<Rightarrow> int \<times> dialect_sse" where
  "tool_block st openai_idx =
    (case map_of (ds_tool_blocks st) openai_idx of
       Some idx \<Rightarrow> (idx, st)
     | None \<Rightarrow> let idx = ds_next_block st in
         (idx, st\<lparr>ds_next_block := idx + 1,
                  ds_tool_blocks := map_insert openai_idx idx (ds_tool_blocks st)\<rparr>))"

definition call_start :: "dialect_sse \<Rightarrow> json \<Rightarrow> dialect_sse \<times> sse_event list" where
  "call_start st call =
    (case pointer call [''function'', ''name''] of
       None \<Rightarrow> (st, [])
     | Some name \<Rightarrow>
         (case tool_block st (call_index call) of (idx, st') \<Rightarrow>
            (st'\<lparr>ds_open := insort_insert idx (ds_open st')\<rparr>,
             [block_start idx (jobj [(''type'', JStr ''tool_use''),
                (''id'', get_or call ''id'' (JStr ''toolu_x'')), (''name'', name),
                (''input'', jobj [])])])))"

definition call_arguments :: "dialect_sse \<Rightarrow> json \<Rightarrow> sse_event list" where
  "call_arguments st call =
    (case pointer_str call [''function'', ''arguments''] of
       None \<Rightarrow> []
     | Some args \<Rightarrow>
         if args = [] then []
         else [block_delta (unwrap_or (call_index call) (map_of (ds_tool_blocks st) (call_index call)))
                 (arguments_delta args)])"

fun calls_step :: "dialect_sse \<Rightarrow> json list \<Rightarrow> dialect_sse \<times> sse_event list" where
  "calls_step st [] = (st, [])"
| "calls_step st (call # calls) =
    (case call_start st call of (st1, evs1) \<Rightarrow>
     case calls_step st1 calls of (st2, evs2) \<Rightarrow>
       (st2, evs1 @ call_arguments st1 call @ evs2))"

definition finish_step :: "dialect_sse \<Rightarrow> json \<Rightarrow> dialect_sse \<times> sse_event list" where
  "finish_step st v =
    (case pointer_str v [''choices'', ''0'', ''finish_reason''] of
       None \<Rightarrow> (st, [])
     | Some finish \<Rightarrow>
         (case close_anthropic_blocks st of (st', evs) \<Rightarrow>
            (st', evs @ [(''message_delta'', jobj [(''type'', JStr ''message_delta''),
               (''delta'', jobj [(''stop_reason'', JStr (stop_of_finish finish))])])])))"

definition chunk_delta :: "json \<Rightarrow> json" where
  "chunk_delta v = unwrap_or (jobj []) (pointer v [''choices'', ''0'', ''delta''])"

definition chunk_text :: "json \<Rightarrow> string option" where
  "chunk_text v = get_str (chunk_delta v) ''content''"

definition set_id :: "dialect_sse \<Rightarrow> string option \<Rightarrow> dialect_sse" where
  "set_id st i = (case i of None \<Rightarrow> st | Some s \<Rightarrow> st\<lparr>ds_id := s\<rparr>)"

definition openai_data_step ::
  "dialect_sse \<Rightarrow> json \<Rightarrow> (dialect_sse \<times> sse_event list) option" where
  "openai_data_step st0 v =
    (case start_once (set_id st0 (get_str v ''id'')) of (st1, evs1) \<Rightarrow>
       Option.bind (case chunk_text v of None \<Rightarrow> Some (st1, []) | Some t \<Rightarrow> text_step st1 t)
         (\<lambda>(st2, evs2).
            (case calls_step st2 (unwrap_or [] (get_array (chunk_delta v) ''tool_calls'')) of
               (st3, evs3) \<Rightarrow>
             case finish_step st3 v of (st4, evs4) \<Rightarrow> Some (st4, evs1 @ evs2 @ evs3 @ evs4))))"

definition data_line :: "string \<Rightarrow> string option" where
  "data_line raw =
     (case List.map_filter (strip_prefix ''data: '') (str_lines raw) of
        [] \<Rightarrow> None | d # _ \<Rightarrow> Some d)"

text \<open>What one piece between blank lines asks for, and the step it causes.\<close>

datatype sse_item = Skipped | DoneItem | DataItem json

definition openai_item :: "json_lib \<Rightarrow> string \<Rightarrow> sse_item" where
  "openai_item js raw =
    (if trim raw = [] then Skipped
     else case data_line raw of
       None \<Rightarrow> Skipped
     | Some data \<Rightarrow>
         if trim data = ''[DONE]'' then DoneItem
         else case jl_parse js (bytes_of data) of None \<Rightarrow> Skipped | Some v \<Rightarrow> DataItem v)"

fun openai_item_step ::
  "dialect_sse \<Rightarrow> sse_item \<Rightarrow> (dialect_sse \<times> sse_event list) option" where
  "openai_item_step st Skipped = Some (st, [])"
| "openai_item_step st DoneItem =
     (case close_anthropic_blocks st of (st', evs) \<Rightarrow>
        Some (st', evs @ [(''message_stop'', jobj [])]))"
| "openai_item_step st (DataItem v) = openai_data_step st v"

fun openai_items ::
  "dialect_sse \<Rightarrow> sse_item list \<Rightarrow> (dialect_sse \<times> sse_event list) option" where
  "openai_items st [] = Some (st, [])"
| "openai_items st (i # is) =
     Option.bind (openai_item_step st i) (\<lambda>(st', evs).
       map_option (\<lambda>(st'', evs'). (st'', evs @ evs')) (openai_items st' is))"

definition openai_chunk_to_anthropic ::
  "json_lib \<Rightarrow> dialect_sse \<Rightarrow> string \<Rightarrow> (dialect_sse \<times> string) option" where
  "openai_chunk_to_anthropic js st chunk =
     map_option (\<lambda>(st', evs). (st', concat (map (anthropic_event js) evs)))
       (openai_items st (map (openai_item js) (split_str two_newlines chunk)))"

section \<open>From Anthropic events to OpenAI chunks\<close>

datatype openai_out = OutData json | OutDone

fun openai_data :: "json_lib \<Rightarrow> openai_out \<Rightarrow> string" where
  "openai_data js (OutData v) = ''data: '' @ jl_show js v @ two_newlines"
| "openai_data js OutDone = ''data: [DONE]'' @ two_newlines"

definition openai_chunk :: "dialect_sse \<Rightarrow> json \<Rightarrow> json \<Rightarrow> openai_out" where
  "openai_chunk st delta finish =
     OutData (jobj [(''id'', JStr (ds_id st)), (''object'', JStr ''chat.completion.chunk''),
       (''model'', JStr (ds_model st)),
       (''choices'', JArr [jobj [(''index'', jnat 0), (''delta'', delta),
          (''finish_reason'', finish)]])])"

fun parse_lines :: "string option \<times> string option \<Rightarrow> string list \<Rightarrow> string option \<times> string option" where
  "parse_lines acc [] = acc"
| "parse_lines (event, data) (line # lines) =
     (case strip_prefix ''event: '' line of
        Some rest \<Rightarrow> parse_lines (Some (trim rest), data) lines
      | None \<Rightarrow>
          (case strip_prefix ''data: '' line of
             Some rest \<Rightarrow> parse_lines (event, Some rest) lines
           | None \<Rightarrow> parse_lines (event, data) lines))"

definition parse_sse_event :: "string \<Rightarrow> string option \<times> string option" where
  "parse_sse_event raw = parse_lines (None, None) (str_lines raw)"

definition event_index :: "json \<Rightarrow> int" where
  "event_index v = unwrap_or 0 (Option.bind (jget v ''index'') as_i64)"

definition call_slot :: "dialect_sse \<Rightarrow> int \<Rightarrow> int \<times> dialect_sse" where
  "call_slot st block_idx =
    (case map_of (ds_tool_calls st) block_idx of
       Some idx \<Rightarrow> (idx, st)
     | None \<Rightarrow> let idx = ds_next_call st in
         (idx, st\<lparr>ds_next_call := idx + 1,
                  ds_tool_calls := map_insert block_idx idx (ds_tool_calls st)\<rparr>))"

definition on_message_start :: "dialect_sse \<Rightarrow> json \<Rightarrow> dialect_sse \<times> openai_out list" where
  "on_message_start st0 v =
    (let st = (set_id st0 (pointer_str v [''message'', ''id'']))\<lparr>ds_started := True\<rparr>
     in (st, [openai_chunk st (jobj [(''role'', JStr ''assistant'')]) JNull]))"

definition on_block_start :: "dialect_sse \<Rightarrow> json \<Rightarrow> dialect_sse \<times> openai_out list" where
  "on_block_start st v =
    (if pointer_str v [''content_block'', ''type''] = Some ''tool_use''
     then (case call_slot st (event_index v) of (idx, st') \<Rightarrow>
       (st', [openai_chunk st'
          (jobj [(''tool_calls'', JArr [jobj [(''index'', jint idx),
             (''id'', pointer_or v [''content_block'', ''id''] (JStr ''call_x'')),
             (''type'', JStr ''function''),
             (''function'', jobj
                [(''name'', pointer_or v [''content_block'', ''name''] (JStr ''function'')),
                 (''arguments'', JStr [])])]])]) JNull]))
     else (st, []))"

definition on_block_delta :: "dialect_sse \<Rightarrow> json \<Rightarrow> dialect_sse \<times> openai_out list" where
  "on_block_delta st v =
    (case pointer_str v [''delta'', ''text''] of
       Some t \<Rightarrow>
         (st\<lparr>ds_text_started := True\<rparr>,
          [openai_chunk st (jobj [(''content'', JStr t)]) JNull])
     | None \<Rightarrow>
         (case pointer_str v [''delta'', ''partial_json''] of
            None \<Rightarrow> (st, [])
          | Some partial \<Rightarrow>
              (st, [openai_chunk st
                 (jobj [(''tool_calls'', JArr [jobj
                    [(''index'', jint (unwrap_or 0 (map_of (ds_tool_calls st) (event_index v)))),
                     (''function'', jobj [(''arguments'', JStr partial)])]])]) JNull])))"

definition on_message_delta :: "dialect_sse \<Rightarrow> json \<Rightarrow> openai_out list" where
  "on_message_delta st v =
    (case pointer_str v [''delta'', ''stop_reason''] of
       None \<Rightarrow> []
     | Some stop \<Rightarrow> [openai_chunk st (jobj []) (JStr (finish_of_stop stop))])"

definition anthropic_event_step ::
  "dialect_sse \<Rightarrow> string option \<Rightarrow> json \<Rightarrow> dialect_sse \<times> openai_out list" where
  "anthropic_event_step st name v =
    (if name = Some ''message_start'' then on_message_start st v
     else if name = Some ''content_block_start'' then on_block_start st v
     else if name = Some ''content_block_delta'' then on_block_delta st v
     else if name = Some ''message_delta'' then (st, on_message_delta st v)
     else if name = Some ''message_stop'' then (st, [OutDone])
     else (st, []))"

definition anthropic_item :: "json_lib \<Rightarrow> string \<Rightarrow> (string option \<times> json) option" where
  "anthropic_item js raw =
    (if trim raw = [] then None
     else case parse_sse_event raw of
       (name, None) \<Rightarrow> None
     | (name, Some data) \<Rightarrow>
         if trim data = [] then None
         else map_option (\<lambda>v. (name, v)) (jl_parse js (bytes_of data)))"

fun anthropic_items ::
  "dialect_sse \<Rightarrow> (string option \<times> json) list \<Rightarrow> dialect_sse \<times> openai_out list" where
  "anthropic_items st [] = (st, [])"
| "anthropic_items st ((name, v) # is) =
     (case anthropic_event_step st name v of (st', outs) \<Rightarrow>
      case anthropic_items st' is of (st'', outs') \<Rightarrow> (st'', outs @ outs'))"

definition anthropic_chunk_to_openai ::
  "json_lib \<Rightarrow> dialect_sse \<Rightarrow> string \<Rightarrow> dialect_sse \<times> string" where
  "anthropic_chunk_to_openai js st chunk =
     (case anthropic_items st (List.map_filter (anthropic_item js) (split_str two_newlines chunk)) of
        (st', outs) \<Rightarrow> (st', concat (map (openai_data js) outs)))"

section \<open>The session\<close>

definition sse_rewrite ::
  "json_lib \<Rightarrow> dialect_sse \<Rightarrow> string \<Rightarrow> (dialect_sse \<times> string) option" where
  "sse_rewrite js st chunk =
    (if ds_from st = ds_to st then Some (st, rewrite_model_in_sse js (ds_model st) chunk)
     else case (ds_from st, ds_to st) of
       (Anthropic, Openai) \<Rightarrow> Some (anthropic_chunk_to_openai js st chunk)
     | (Openai, Anthropic) \<Rightarrow> openai_chunk_to_anthropic js st chunk
     | _ \<Rightarrow> Some (st, chunk))"

section \<open>What an Anthropic client accepts\<close>

text \<open>
  The client's side of the messages stream as a step relation: whether the message has started,
  and which content blocks are open. Text may only be added to an open block, only an open block
  may be closed, and the message ends when no block is open. Tool arguments are let through for
  any block, because the code falls back to the origin's index when no name came before them.
\<close>

type_synonym client_state = "bool \<times> int set"

fun json_int :: "json \<Rightarrow> int" where
  "json_int (JNum (PosInt n)) = int n"
| "json_int (JNum (NegInt i)) = i"
| "json_int _ = 0"

definition event_block :: "json \<Rightarrow> int" where
  "event_block d = (case jget d ''index'' of None \<Rightarrow> 0 | Some i \<Rightarrow> json_int i)"

inductive client_step :: "client_state \<Rightarrow> sse_event \<Rightarrow> client_state \<Rightarrow> bool" where
  Start: "client_step (False, B) (''message_start'', d) (True, B)"
| Open: "client_step (True, B) (''content_block_start'', d) (True, insert (event_block d) B)"
| AddText: "event_block d \<in> B \<Longrightarrow> client_step (True, B) (''content_block_delta'', d) (True, B)"
| AddArguments: "pointer_str d [''delta'', ''type''] = Some ''input_json_delta'' \<Longrightarrow>
    client_step (True, B) (''content_block_delta'', d) (True, B)"
| Close: "event_block d \<in> B \<Longrightarrow>
    client_step (s, B) (''content_block_stop'', d) (s, B - {event_block d})"
| Finish: "client_step (True, {}) (''message_delta'', d) (True, {})"
| Stop: "client_step (s, {}) (''message_stop'', d) (s, {})"

inductive client_run :: "client_state \<Rightarrow> sse_event list \<Rightarrow> client_state \<Rightarrow> bool" where
  none [intro]: "client_run c [] c"
| more: "client_step c e c' \<Longrightarrow> client_run c' es c'' \<Longrightarrow> client_run c (e # es) c''"

inductive_cases text_stepE: "client_step c (''content_block_delta'', d) c'"
inductive_cases stop_stepE: "client_step c (''message_stop'', d) c'"

lemma client_run_one: "client_step c e c' \<Longrightarrow> client_run c [e] c'"
  by (blast intro: client_run.intros)

lemma client_run_append:
  "client_run c es c' \<Longrightarrow> client_run c' es' c'' \<Longrightarrow> client_run c (es @ es') c''"
  by (induction rule: client_run.induct) (auto intro: client_run.intros)

text \<open>The state of the rewriter as the client sees it, and what holds between chunks.\<close>

definition client_view :: "dialect_sse \<Rightarrow> client_state" where
  "client_view st = (ds_started st, set (ds_open st))"

definition sse_inv :: "dialect_sse \<Rightarrow> bool" where
  "sse_inv st \<longleftrightarrow> sorted (ds_open st) \<and> distinct (ds_open st) \<and>
     (ds_open st \<noteq> [] \<longrightarrow> ds_started st) \<and>
     (ds_text_started st \<longrightarrow> (\<exists>i. ds_text_block st = Some i \<and> i \<in> set (ds_open st)))"

text \<open>A step that keeps the invariant and whose events the client accepts.\<close>

definition accepted :: "dialect_sse \<Rightarrow> dialect_sse \<times> sse_event list \<Rightarrow> bool" where
  "accepted st r \<longleftrightarrow> sse_inv (fst r) \<and> client_run (client_view st) (snd r) (client_view (fst r)) \<and>
     ds_from (fst r) = ds_from st \<and> ds_to (fst r) = ds_to st"

lemma accepted_nil: "sse_inv st \<Longrightarrow> accepted st (st, [])"
  by (auto simp: accepted_def)

lemma accepted_append:
  "accepted st (st1, evs1) \<Longrightarrow> accepted st1 (st2, evs2) \<Longrightarrow> accepted st (st2, evs1 @ evs2)"
  by (auto simp: accepted_def intro: client_run_append)

lemma accepted_inv: "accepted st r \<Longrightarrow> sse_inv (fst r)"
  by (simp add: accepted_def)

lemma json_int_jint [simp]: "json_int (jint i) = i"
  by (simp add: jint_def)

lemma event_block_simps [simp]:
  "event_block (snd (block_stop i)) = i"
  "event_block (snd (block_start i c)) = i"
  "event_block (snd (block_delta i c)) = i"
  by (simp_all add: event_block_def block_stop_def block_start_def block_delta_def jget_jobj)

lemma client_open: "client_step (True, B) (block_start i c) (True, insert i B)"
  using Open [of B "snd (block_start i c)"] by (simp add: block_start_def event_block_def jget_jobj)

lemma client_text: "i \<in> B \<Longrightarrow> client_step (True, B) (block_delta i c) (True, B)"
  using AddText [of "snd (block_delta i c)" B] by (simp add: block_delta_def event_block_def jget_jobj)

lemma client_arguments: "client_step (True, B) (block_delta i (arguments_delta a)) (True, B)"
  using AddArguments [of "snd (block_delta i (arguments_delta a))" B]
  by (simp add: block_delta_def arguments_delta_def jget_jobj jstep_jobj)

lemma client_close: "i \<in> B \<Longrightarrow> client_step (s, B) (block_stop i) (s, B - {i})"
  using Close [of "snd (block_stop i)" B s] by (simp add: block_stop_def event_block_def jget_jobj)

lemma client_close_all:
  "distinct is \<Longrightarrow> set is \<subseteq> B \<Longrightarrow> client_run (s, B) (map block_stop is) (s, B - set is)"
proof (induction "is" arbitrary: B)
  case (Cons i "is")
  then have "set is \<subseteq> B - {i}" and "distinct is"
    by auto
  then have "client_run (s, B - {i}) (map block_stop is) (s, B - {i} - set is)"
    by (intro Cons.IH)
  moreover have "B - {i} - set is = B - set (i # is)"
    by auto
  ultimately show ?case
    using Cons.prems client_close [of i B s] by (auto intro: client_run.more)
qed auto

lemma accepted_close:
  assumes "sse_inv st"
  shows "accepted st (close_anthropic_blocks st)"
  using assms client_close_all [of "ds_open st" "set (ds_open st)" "ds_started st"]
  by (auto simp: accepted_def close_anthropic_blocks_def sse_inv_def client_view_def)

lemma accepted_start_once:
  assumes "sse_inv st"
  shows "accepted st (start_once st)" "ds_started (fst (start_once st))"
  using assms Start client_run_one
  by (auto simp: accepted_def start_once_def sse_inv_def client_view_def message_start_def)

lemma accepted_open_text:
  assumes "sse_inv st" and "ds_started st"
  shows "accepted st (open_text st) \<and> ds_started (fst (open_text st)) \<and>
    (\<exists>i. ds_text_block (fst (open_text st)) = Some i \<and> i \<in> set (ds_open (fst (open_text st))))"
proof (cases "ds_text_started st")
  case True
  then show ?thesis
    using assms by (auto simp: open_text_def accepted_nil sse_inv_def)
next
  case False
  have "client_run (True, set (ds_open st)) [block_start (ds_next_block st) (text_block [])]
      (True, insert (ds_next_block st) (set (ds_open st)))"
    by (rule client_run_one [OF client_open])
  with False assms show ?thesis
    by (auto simp: open_text_def Let_def accepted_def sse_inv_def client_view_def set_insort_insert
        sorted_insort_insert distinct_insort_insert)
qed

lemma accepted_text_step:
  assumes "sse_inv st" and "ds_started st"
  shows "\<exists>r. text_step st t = Some r \<and> accepted st r \<and> ds_started (fst r)"
proof -
  obtain st' evs where split: "open_text st = (st', evs)"
    by fastforce
  with accepted_open_text [OF assms] obtain i where ok: "accepted st (st', evs)" "ds_started st'"
      and i: "ds_text_block st' = Some i" "i \<in> set (ds_open st')"
    by auto
  then have "accepted st' (st', [block_delta i (text_delta t)])"
    using client_run_one [OF client_text [OF i(2)]] by (auto simp: accepted_def client_view_def)
  with ok i split show ?thesis
    by (auto simp: text_step_def intro: accepted_append)
qed

lemma tool_block_keeps [simp]:
  "ds_open (snd (tool_block st i)) = ds_open st"
  "ds_started (snd (tool_block st i)) = ds_started st"
  "ds_text_started (snd (tool_block st i)) = ds_text_started st"
  "ds_text_block (snd (tool_block st i)) = ds_text_block st"
  "ds_from (snd (tool_block st i)) = ds_from st"
  "ds_to (snd (tool_block st i)) = ds_to st"
  by (auto simp: tool_block_def Let_def split: option.split)

lemma accepted_call_start:
  assumes "sse_inv st" and "ds_started st"
  shows "accepted st (call_start st call) \<and> ds_started (fst (call_start st call))"
proof (cases "pointer call [''function'', ''name'']")
  case None
  with assms show ?thesis
    by (simp add: call_start_def accepted_nil)
next
  case (Some name)
  obtain idx st' where block: "tool_block st (call_index call) = (idx, st')"
    by fastforce
  then have keeps: "ds_open st' = ds_open st" "ds_started st' = ds_started st"
      "ds_text_started st' = ds_text_started st" "ds_text_block st' = ds_text_block st"
      "ds_from st' = ds_from st" "ds_to st' = ds_to st"
    using tool_block_keeps [of st "call_index call"] by simp_all
  from Some block keeps assms show ?thesis
    by (auto simp: call_start_def accepted_def sse_inv_def client_view_def set_insort_insert
        sorted_insort_insert distinct_insort_insert simp del: pointer.simps
        intro!: client_run_one client_open)
qed

lemma accepted_call_arguments:
  assumes "sse_inv st" and "ds_started st"
  shows "accepted st (st, call_arguments st call)"
  using assms
  by (auto simp: call_arguments_def accepted_nil accepted_def client_view_def
      intro!: client_run_one client_arguments split: option.split)

lemma accepted_calls_step:
  "sse_inv st \<Longrightarrow> ds_started st \<Longrightarrow>
     accepted st (calls_step st calls) \<and> ds_started (fst (calls_step st calls))"
proof (induction calls arbitrary: st)
  case (Cons call calls)
  obtain st1 evs1 where start: "call_start st call = (st1, evs1)"
    by fastforce
  obtain st2 evs2 where rest: "calls_step st1 calls = (st2, evs2)"
    by fastforce
  from accepted_call_start [OF Cons.prems, of call] start
  have one: "accepted st (st1, evs1)" "sse_inv st1" "ds_started st1"
    by (auto dest: accepted_inv)
  from Cons.IH [OF one(2,3)] rest have "accepted st1 (st2, evs2)" "ds_started st2"
    by auto
  with one accepted_call_arguments [OF one(2,3)] start rest show ?case
    by (auto intro: accepted_append)
qed (simp add: accepted_nil)

lemma accepted_finish_step:
  assumes "sse_inv st" and "ds_started st"
  shows "accepted st (finish_step st v)"
proof (cases "pointer_str v [''choices'', ''0'', ''finish_reason'']")
  case None
  then show ?thesis
    using assms by (simp add: finish_step_def accepted_nil del: pointer.simps)
next
  case (Some finish)
  obtain st' evs where close: "close_anthropic_blocks st = (st', evs)"
    by fastforce
  then have "ds_open st' = []" "ds_started st'"
    using assms by (auto simp: close_anthropic_blocks_def)
  then have "client_view st' = (True, {})"
    by (simp add: client_view_def)
  moreover have ok: "accepted st (st', evs)"
    using accepted_close [OF assms(1)] close by simp
  ultimately have "accepted st' (st', [(''message_delta'', d)])" for d
    using accepted_inv [OF ok] client_run_one [OF Finish] by (simp add: accepted_def)
  with ok close Some show ?thesis
    by (auto simp: finish_step_def simp del: pointer.simps intro: accepted_append)
qed

lemma sse_inv_set_id [simp]:
  "sse_inv (set_id st i) = sse_inv st" "client_view (set_id st i) = client_view st"
  "ds_from (set_id st i) = ds_from st" "ds_to (set_id st i) = ds_to st"
  by (auto simp: sse_inv_def client_view_def set_id_def split: option.split)

lemma accepted_data_step:
  assumes "sse_inv st"
  shows "\<exists>r. openai_data_step st v = Some r \<and> accepted st r"
proof -
  let ?st0 = "set_id st (get_str v ''id'')"
  obtain st1 evs1 where start: "start_once ?st0 = (st1, evs1)"
    by fastforce
  have one: "accepted st (st1, evs1)" "sse_inv st1" "ds_started st1"
    using accepted_start_once [of ?st0] start assms by (auto simp: accepted_def)
  obtain st2 evs2 where says:
      "(case chunk_text v of None \<Rightarrow> Some (st1, []) | Some t \<Rightarrow> text_step st1 t) = Some (st2, evs2)"
      "accepted st1 (st2, evs2)" "ds_started st2"
  proof (cases "chunk_text v")
    case None
    then show ?thesis
      using that accepted_nil [OF one(2)] one(3) by simp
  next
    case (Some t)
    then show ?thesis
      using that accepted_text_step [OF one(2,3), of t] by fastforce
  qed
  obtain st3 evs3 where calls:
      "calls_step st2 (unwrap_or [] (get_array (chunk_delta v) ''tool_calls'')) = (st3, evs3)"
    by fastforce
  with accepted_calls_step [of st2] says have three: "accepted st2 (st3, evs3)" "ds_started st3"
    by (auto dest!: accepted_inv simp del: pointer.simps) (metis fst_conv)+
  obtain st4 evs4 where finish: "finish_step st3 v = (st4, evs4)"
    by fastforce
  with accepted_finish_step [of st3 v] accepted_inv [OF three(1)] three(2)
  have "accepted st3 (st4, evs4)"
    by simp
  with one says three have "accepted st (st4, evs1 @ evs2 @ evs3 @ evs4)"
    by (blast intro: accepted_append)
  with start says(1) calls finish show ?thesis
    by (simp add: openai_data_step_def)
qed

lemma accepted_item_step:
  assumes "sse_inv st"
  shows "\<exists>r. openai_item_step st i = Some r \<and> accepted st r"
proof (cases i)
  case DoneItem
  obtain st' evs where close: "close_anthropic_blocks st = (st', evs)"
    by fastforce
  then have "client_view st' = (ds_started st', {})"
    by (auto simp: close_anthropic_blocks_def client_view_def)
  moreover have ok: "accepted st (st', evs)"
    using accepted_close [OF assms] close by simp
  ultimately have "accepted st' (st', [(''message_stop'', jobj [])])"
    using accepted_inv [OF ok] client_run_one [OF Stop] by (simp add: accepted_def)
  with ok close DoneItem show ?thesis
    by (auto intro: accepted_append)
qed (use assms accepted_data_step [OF assms] in \<open>simp_all add: accepted_nil\<close>)

lemma accepted_items:
  "sse_inv st \<Longrightarrow> \<exists>r. openai_items st is = Some r \<and> accepted st r"
proof (induction "is" arbitrary: st)
  case (Cons i "is")
  from accepted_item_step [OF Cons.prems] obtain st1 evs1 where one:
      "openai_item_step st i = Some (st1, evs1)" "accepted st (st1, evs1)"
    by fastforce
  moreover from Cons.IH accepted_inv [OF one(2)] obtain st2 evs2 where
      "openai_items st1 is = Some (st2, evs2)" "accepted st1 (st2, evs2)"
    by fastforce
  ultimately show ?case
    by (auto intro: accepted_append)
qed (simp add: accepted_nil)

section \<open>The text of a stream\<close>

definition event_text :: "sse_event \<Rightarrow> string" where
  "event_text e = (if fst e = ''content_block_delta''
     then unwrap_or [] (pointer_str (snd e) [''delta'', ''text'']) else [])"

definition events_text :: "sse_event list \<Rightarrow> string" where
  "events_text evs = concat (map event_text evs)"

fun item_text :: "sse_item \<Rightarrow> string" where
  "item_text (DataItem v) = unwrap_or [] (chunk_text v)"
| "item_text _ = []"

lemma events_text_append [simp]: "events_text (es @ es') = events_text es @ events_text es'"
  by (simp add: events_text_def)

lemma events_text_simps [simp]:
  "events_text [] = []"
  "events_text (block_start i c # es) = events_text es"
  "events_text (message_start st # es) = events_text es"
  "events_text (block_delta i (text_delta t) # es) = t @ events_text es"
  "events_text (block_delta i (arguments_delta a) # es) = events_text es"
  "events_text ((''message_delta'', d) # es) = events_text es"
  "events_text ((''message_stop'', d) # es) = events_text es"
  by (simp_all add: events_text_def event_text_def block_start_def message_start_def block_delta_def
      text_delta_def arguments_delta_def jget_jobj jstep_jobj)

lemma events_text_stops [simp]: "events_text (map block_stop is) = []"
  by (induction "is") (simp_all add: events_text_def event_text_def block_stop_def)

lemma text_silent [simp]:
  "events_text (snd (start_once st)) = []"
  "events_text (snd (open_text st)) = []"
  "events_text (snd (call_start st call)) = []"
  "events_text (call_arguments st call) = []"
  "events_text (snd (close_anthropic_blocks st)) = []"
  by (auto simp: start_once_def open_text_def call_start_def call_arguments_def
      close_anthropic_blocks_def Let_def simp del: pointer.simps split: option.split prod.split)

lemma text_silent_calls [simp]: "events_text (snd (calls_step st calls)) = []"
proof (induction calls arbitrary: st)
  case (Cons call calls)
  obtain st1 evs1 where start: "call_start st call = (st1, evs1)"
    by fastforce
  obtain st2 evs2 where rest: "calls_step st1 calls = (st2, evs2)"
    by fastforce
  from start rest text_silent(3) [of st call] Cons.IH [of st1] show ?case
    by simp
qed simp

lemma text_silent_finish [simp]: "events_text (snd (finish_step st v)) = []"
  using text_silent(5) [of st]
  by (auto simp: finish_step_def simp del: pointer.simps text_silent split: option.split prod.split)

lemma text_step_text: "text_step st t = Some (st', evs) \<Longrightarrow> events_text evs = t"
  using text_silent(2) [of st] by (auto simp: text_step_def simp del: text_silent split: prod.splits)

lemma data_step_text:
  assumes "openai_data_step st v = Some (st', evs)"
  shows "events_text evs = unwrap_or [] (chunk_text v)"
proof -
  obtain st1 evs1 where start: "start_once (set_id st (get_str v ''id'')) = (st1, evs1)"
    by fastforce
  from assms start obtain st2 evs2 where says:
      "(case chunk_text v of None \<Rightarrow> Some (st1, []) | Some t \<Rightarrow> text_step st1 t) = Some (st2, evs2)"
    by (auto simp: openai_data_step_def split: Option.bind_splits)
  obtain st3 evs3 where calls:
      "calls_step st2 (unwrap_or [] (get_array (chunk_delta v) ''tool_calls'')) = (st3, evs3)"
    by fastforce
  obtain st4 evs4 where finish: "finish_step st3 v = (st4, evs4)"
    by fastforce
  have "events_text evs1 = []" "events_text evs3 = []" "events_text evs4 = []"
    using text_silent(1) text_silent_calls text_silent_finish start calls finish by (metis snd_conv)+
  moreover have "events_text evs2 = unwrap_or [] (chunk_text v)"
    using says by (auto dest: text_step_text split: option.splits)
  ultimately show ?thesis
    using assms start says calls finish by (auto simp: openai_data_step_def)
qed

lemma item_step_text:
  "openai_item_step st i = Some (st', evs) \<Longrightarrow> events_text evs = item_text i"
  using text_silent(5) [of st]
  by (cases i) (auto simp: data_step_text simp del: text_silent split: prod.splits)

lemma items_text:
  "openai_items st is = Some (st', evs) \<Longrightarrow> events_text evs = concat (map item_text is)"
proof (induction "is" arbitrary: st evs)
  case (Cons i "is")
  then show ?case
    by (auto simp: item_step_text split: Option.bind_splits)
qed simp

section \<open>A whole stream\<close>

text \<open>The chunks of one response, in order; the proxy keeps one session for them.\<close>

fun sse_stream :: "json_lib \<Rightarrow> dialect_sse \<Rightarrow> string list \<Rightarrow> (dialect_sse \<times> string) option" where
  "sse_stream js st [] = Some (st, [])"
| "sse_stream js st (chunk # chunks) =
     Option.bind (sse_rewrite js st chunk) (\<lambda>(st', out).
       map_option (\<lambda>(st'', out'). (st'', out @ out')) (sse_stream js st' chunks))"

definition stream_items :: "json_lib \<Rightarrow> string list \<Rightarrow> sse_item list" where
  "stream_items js chunks =
     concat (map (\<lambda>chunk. map (openai_item js) (split_str two_newlines chunk)) chunks)"

lemma openai_items_append:
  "openai_items st (xs @ ys) =
     Option.bind (openai_items st xs) (\<lambda>(st', evs).
       map_option (\<lambda>(st'', evs'). (st'', evs @ evs')) (openai_items st' ys))"
proof (induction xs arbitrary: st)
  case Nil
  then show ?case
    by (cases "openai_items st ys") auto
next
  case (Cons x xs)
  then show ?case
    by (cases "openai_item_step st x") (auto split: Option.bind_splits simp: option.map_comp comp_def
        case_prod_unfold map_option_case split: option.splits)
qed

lemma openai_stream_items:
  assumes "sse_inv st" and "ds_from st = Openai" and "ds_to st = Anthropic"
  shows "\<exists>st' evs. openai_items st (stream_items js chunks) = Some (st', evs) \<and>
    sse_stream js st chunks = Some (st', concat (map (anthropic_event js) evs))"
  using assms
proof (induction chunks arbitrary: st)
  case Nil
  then show ?case
    by (simp add: stream_items_def)
next
  case (Cons chunk chunks)
  from accepted_items [OF Cons.prems(1)] obtain st1 evs1 where one:
      "openai_items st (map (openai_item js) (split_str two_newlines chunk)) = Some (st1, evs1)"
      "accepted st (st1, evs1)"
    by fastforce
  then have "sse_inv st1" "ds_from st1 = Openai" "ds_to st1 = Anthropic"
    using Cons.prems by (auto simp: accepted_def)
  from Cons.IH [OF this] obtain st2 evs2 where
      "openai_items st1 (stream_items js chunks) = Some (st2, evs2)"
      "sse_stream js st1 chunks = Some (st2, concat (map (anthropic_event js) evs2))"
    by blast
  with one Cons.prems show ?case
    by (simp add: stream_items_def openai_items_append sse_rewrite_def openai_chunk_to_anthropic_def)
qed

lemma sse_inv_new [simp]: "sse_inv (dialect_sse_new from_d to_d m)"
  by (simp add: sse_inv_def dialect_sse_new_def)


section \<open>The text of an Anthropic stream\<close>

fun anthropic_text :: "string option \<times> json \<Rightarrow> string" where
  "anthropic_text (name, v) =
     (if name = Some ''content_block_delta''
      then unwrap_or [] (pointer_str v [''delta'', ''text'']) else [])"

text \<open>What the emitted data is to a reader of the OpenAI dialect.\<close>

fun out_item :: "openai_out \<Rightarrow> sse_item" where
  "out_item (OutData v) = DataItem v"
| "out_item OutDone = DoneItem"

lemma index_zero [simp]: "array_index ''0'' = Some 0"
  by code_simp

lemma chunk_text_openai_chunk [simp]:
  "item_text (out_item (openai_chunk st delta finish)) = unwrap_or [] (get_str delta ''content'')"
  by (simp add: openai_chunk_def chunk_text_def chunk_delta_def jstep_jobj jget_jobj)

lemma event_step_text:
  "concat (map (item_text \<circ> out_item) (snd (anthropic_event_step st name v))) = anthropic_text (name, v)"
proof -
  have "concat (map (item_text \<circ> out_item) (snd (on_block_delta st v))) =
      unwrap_or [] (pointer_str v [''delta'', ''text''])"
    by (auto simp: on_block_delta_def jget_jobj simp del: pointer.simps split: option.split)
  moreover have "concat (map (item_text \<circ> out_item) (snd (on_message_start st v))) = []"
    by (simp add: on_message_start_def Let_def jget_jobj del: pointer.simps)
  moreover have "concat (map (item_text \<circ> out_item) (snd (on_block_start st v))) = []"
    by (auto simp: on_block_start_def jget_jobj simp del: pointer.simps split: prod.split)
  moreover have "concat (map (item_text \<circ> out_item) (on_message_delta st v)) = []"
    by (auto simp: on_message_delta_def jget_jobj simp del: pointer.simps split: option.split)
  ultimately show ?thesis
    by (simp add: anthropic_event_step_def del: pointer.simps)
qed

lemma anthropic_items_text:
  "concat (map (item_text \<circ> out_item) (snd (anthropic_items st is))) = concat (map anthropic_text is)"
proof (induction "is" arbitrary: st)
  case (Cons i "is")
  obtain name v where i: "i = (name, v)"
    by fastforce
  obtain st1 outs1 where one: "anthropic_event_step st name v = (st1, outs1)"
    by fastforce
  obtain st2 outs2 where two: "anthropic_items st1 is = (st2, outs2)"
    by fastforce
  from event_step_text [of st name v] Cons.IH [of st1] one two i show ?case
    by (simp add: comp_def del: anthropic_text.simps)
qed simp

text \<open>
  An Anthropic stream read as OpenAI chunks and turned back into Anthropic events
  delivers the same text, and again as a run of the client's protocol, whatever the events were.
\<close>

lemma streamed_text_survives_both_ways:
  "\<exists>st evs. openai_items (dialect_sse_new Openai Anthropic m2)
       (map out_item (snd (anthropic_items (dialect_sse_new Anthropic Openai m1) is))) = Some (st, evs)
     \<and> client_run (False, {}) evs (ds_started st, set (ds_open st))
     \<and> events_text evs = concat (map anthropic_text is)"
proof -
  let ?new = "dialect_sse_new Openai Anthropic m2"
  let ?outs = "snd (anthropic_items (dialect_sse_new Anthropic Openai m1) is)"
  from accepted_items [OF sse_inv_new] obtain st evs where run:
      "openai_items ?new (map out_item ?outs) = Some (st, evs)" "accepted ?new (st, evs)"
    by fastforce
  then have "client_run (False, {}) evs (client_view st)"
    by (simp add: accepted_def client_view_def dialect_sse_new_def)
  moreover have "events_text evs = concat (map anthropic_text is)"
    using items_text [OF run(1)] anthropic_items_text [of "dialect_sse_new Anthropic Openai m1" "is"]
    by (simp add: comp_def)
  ultimately show ?thesis
    using run(1) by (auto simp: client_view_def)
qed

section \<open>Where the rewriting is not exact\<close>

text \<open>
  A fragment of a tool call that repeats the function's name, or has it as \<open>null\<close>, starts the
  block again although it is open; a client that keeps blocks by index drops the arguments
  received before.
\<close>

lemma repeated_name_restarts_block:
  assumes "pointer call [''function'', ''name''] = Some name"
    and "map_of (ds_tool_blocks st) (call_index call) = Some idx" and "idx \<in> set (ds_open st)"
  shows "\<exists>content. snd (call_start st call) = [block_start idx content] \<and>
    idx \<in> snd (client_view st)"
  using assms by (auto simp: call_start_def tool_block_def client_view_def simp del: pointer.simps)

text \<open>Arguments that come before any name go to the block with the origin's own index.\<close>

lemma unnamed_arguments_take_origin_index:
  assumes "pointer_str call [''function'', ''arguments''] = Some args" and "args \<noteq> []"
    and "map_of (ds_tool_blocks st) (call_index call) = None"
  shows "call_arguments st call = [block_delta (call_index call) (arguments_delta args)]"
  using assms by (simp add: call_arguments_def del: pointer.simps)

text \<open>The events that close a block or the message lack the \<open>type\<close> field of all others.\<close>

lemma closing_events_lack_type:
  "jget (snd (block_stop i)) ''type'' = None"
  "jget (snd (block_start i c)) ''type'' = Some (JStr (fst (block_start i c)))"
  by (simp_all add: block_stop_def block_start_def jget_jobj)

end
