(* ===== verification/Relay.thy ===== *)
theory Relay
  imports Client Sse Transforms
begin

text \<open>
  The bodies and heads that \<open>crates/marshal-proxy/src/mitm.rs\<close> moves between a client and its origin:
  buffering a body up to a cap, cutting an event stream into whole events, and the headers of one
  hop. A body is the list of the frames it will yield, an error being its last; \<open>FrameOther\<close> is
  a frame of trailers.
\<close>

section \<open>Buffering a body\<close>

text \<open>The loop of \<open>materialise\<close>: the frames read, their bytes, and the unread rest on overflow.\<close>

fun collect_frames ::
  "nat \<Rightarrow> nat \<Rightarrow> frame list \<Rightarrow> string + frame list \<times> nat \<times> frame list option" where
  "collect_frames cap seen [] = Inr ([], seen, None)"
| "collect_frames cap seen (f # rest) =
    (case f of
       FrameError e \<Rightarrow> Inl e
     | _ \<Rightarrow>
         (let seen' = seen + (case f of FrameData d \<Rightarrow> length d | _ \<Rightarrow> 0) in
          if cap < seen' then Inr ([f], seen', Some rest)
          else map_sum id (\<lambda>(fs, n, left). (f # fs, n, left)) (collect_frames cap seen' rest)))"

fun bounded_prefix :: "nat \<Rightarrow> byte list \<Rightarrow> frame list \<Rightarrow> byte list" where
  "bounded_prefix cap bounded [] = bounded"
| "bounded_prefix cap bounded (FrameData d # fs) =
    (let bounded' = bounded @ take (min (cap - length bounded) (length d)) d in
     if length bounded' = cap then bounded' else bounded_prefix cap bounded' fs)"
| "bounded_prefix cap bounded (_ # fs) = bounded_prefix cap bounded fs"

fun frames_data :: "frame list \<Rightarrow> byte list" where
  "frames_data [] = []"
| "frames_data (FrameData d # fs) = d @ frames_data fs"
| "frames_data (FrameOther # fs) = frames_data fs"
| "frames_data (FrameError _ # fs) = []"

definition materialise ::
  "frame list \<Rightarrow> body_requirement \<Rightarrow> string + body_handle \<times> frame list" where
  "materialise incoming requirement =
    (case requirement of
       StreamBody \<Rightarrow> Inr (Streaming, incoming)
     | BufferBody cap \<Rightarrow>
         (case collect_frames cap 0 incoming of
            Inl e \<Rightarrow> Inl e
          | Inr (collected, seen, Some rest) \<Rightarrow>
              Inr (OverLimit (bounded_prefix cap [] collected) cap seen, collected @ rest)
          | Inr (collected, seen, None) \<Rightarrow>
              (let bytes = frames_data collected in Inr (Buffered bytes, [FrameData bytes]))))"

lemma collect_frames_spec:
  assumes "collect_frames cap seen fs = Inr (collected, n, left)"
  shows "n = seen + length (frames_data collected) \<and> \<not> list_ex is_frame_error collected \<and>
    (case left of
       Some rest \<Rightarrow> fs = collected @ rest \<and> frames_data fs = frames_data collected @ frames_data rest
         \<and> cap < n
     | None \<Rightarrow> collected = fs \<and> (seen \<le> cap \<longrightarrow> n \<le> cap))"
  using assms
proof (induction fs arbitrary: seen collected n)
  case (Cons f fs)
  show ?case
  proof (cases f)
    case (FrameData d)
    show ?thesis
    proof (cases "cap < seen + length d")
      case False
      with FrameData Cons.prems obtain fs' where tail:
          "collect_frames cap (seen + length d) fs = Inr (fs', n, left)" "collected = f # fs'"
        by (cases "collect_frames cap (seen + length d) fs") (auto simp: Let_def)
      with False FrameData Cons.IH [OF tail(1)] show ?thesis
        by (cases left) auto
    qed (use FrameData Cons.prems in auto)
  next
    case FrameOther
    show ?thesis
    proof (cases "cap < seen")
      case False
      with FrameOther Cons.prems obtain fs' where tail:
          "collect_frames cap seen fs = Inr (fs', n, left)" "collected = f # fs'"
        by (cases "collect_frames cap seen fs") (auto simp: Let_def)
      with False FrameOther Cons.IH [OF tail(1)] show ?thesis
        by (cases left) auto
    qed (use FrameOther Cons.prems in auto)
  qed (use Cons.prems in auto)
qed simp

lemma bounded_prefix_take:
  "length bounded \<le> cap \<Longrightarrow> \<not> list_ex is_frame_error fs \<Longrightarrow>
     bounded_prefix cap bounded fs = take cap (bounded @ frames_data fs)"
proof (induction cap bounded fs rule: bounded_prefix.induct)
  case (2 cap bounded d fs)
  let ?next = "bounded @ take (min (cap - length bounded) (length d)) d"
  have next_eq: "?next = take cap (bounded @ d)"
    using "2.prems"(1) by (simp add: min_def)
  have step: "bounded_prefix cap bounded (FrameData d # fs) =
      (if length ?next = cap then ?next else bounded_prefix cap ?next fs)"
    unfolding bounded_prefix.simps Let_def ..
  show ?case
  proof (cases "length ?next = cap")
    case True
    then have "cap \<le> length (bounded @ d)"
      by (auto simp: min_def split: if_splits)
    then have "take cap ((bounded @ d) @ frames_data fs) = take cap (bounded @ d)"
      by simp
    with True next_eq step show ?thesis
      by (metis append.assoc frames_data.simps(2))
  next
    case False
    with "2.prems"(1) have "?next = bounded @ d" "length ?next \<le> cap"
      by (auto simp: min_def split: if_splits)
    with "2.IH" [OF refl] False "2.prems"(2) step show ?thesis
      by simp
  qed
qed simp_all

text \<open>
  Buffering a body is faithful. What is forwarded always carries exactly the bytes
  that came in, in order; a layer sees the whole body exactly when it fits the cap, and otherwise
  its first bytes up to the cap, marked as cut; a body is only streamed unseen when nothing asked
  for it.
\<close>

lemma materialise_is_exact:
  assumes "materialise incoming requirement = Inr (h, forward)"
  shows "frames_data forward = frames_data incoming \<and>
    h = (case requirement of
           StreamBody \<Rightarrow> Streaming
         | BufferBody cap \<Rightarrow>
             if length (frames_data incoming) \<le> cap then Buffered (frames_data incoming)
             else OverLimit (take cap (frames_data incoming)) cap (case h of OverLimit _ _ n \<Rightarrow> n))"
proof (cases requirement)
  case (BufferBody cap)
  obtain collected n left where run: "collect_frames cap 0 incoming = Inr (collected, n, left)"
    using assms BufferBody by (auto simp: materialise_def split: sum.splits)
  note spec = collect_frames_spec [OF run]
  show ?thesis
  proof (cases left)
    case None
    with spec assms run BufferBody show ?thesis
      by (auto simp: materialise_def Let_def)
  next
    case (Some rest)
    with spec have data: "frames_data incoming = frames_data collected @ frames_data rest"
        "cap < length (frames_data collected)" "incoming = collected @ rest"
      by auto
    moreover have "bounded_prefix cap [] collected = take cap (frames_data collected)"
      using spec bounded_prefix_take [of "[]" cap collected] by simp
    ultimately show ?thesis
      using assms run BufferBody Some by (auto simp: materialise_def)
  qed
qed (use assms in \<open>auto simp: materialise_def\<close>)

section \<open>Cutting an event stream\<close>

definition max_pending_sse_event_bytes :: nat where
  "max_pending_sse_event_bytes = 1024 * 1024"

text \<open>The end of the last blank line: \<open>rfind\<close> of two line feeds, plus two.\<close>

definition last_blank :: "string \<Rightarrow> nat option" where
  "last_blank s = find (\<lambda>i. suffix two_newlines (take i s)) (rev [0..<Suc (length s)])"

definition next_sse_chunk :: "nat \<Rightarrow> string \<Rightarrow> (string \<times> string) option" where
  "next_sse_chunk cap pending =
    (case last_blank pending of
       Some end \<Rightarrow> Some (take end pending, drop end pending)
     | None \<Rightarrow> if cap < length pending then Some (pending, []) else None)"

text \<open>
  A step is a session of the language model router or the \<open>rewrite_chunk\<close> of a transform, which
  is given the host and the chunk.
\<close>

datatype stream_step = SessionStep dialect_sse | ChunkStep "string \<Rightarrow> string \<Rightarrow> string option"

fun run_step :: "json_lib \<Rightarrow> string \<Rightarrow> stream_step \<Rightarrow> string \<Rightarrow> (stream_step \<times> string) option" where
  "run_step js host (SessionStep st) out =
     map_option (\<lambda>(st', out'). (SessionStep st', out')) (sse_rewrite js st out)"
| "run_step js host (ChunkStep f) out = Some (ChunkStep f, unwrap_or out (f host out))"

fun run_steps ::
  "json_lib \<Rightarrow> string \<Rightarrow> stream_step list \<Rightarrow> string \<Rightarrow> (stream_step list \<times> string) option" where
  "run_steps js host [] out = Some ([], out)"
| "run_steps js host (s # ss) out =
     Option.bind (run_step js host s out) (\<lambda>(s', out').
       map_option (\<lambda>(ss', out''). (s' # ss', out'')) (run_steps js host ss out'))"

fun filter_event_stream ::
  "json_lib \<Rightarrow> string \<Rightarrow> nat \<Rightarrow> string \<Rightarrow> stream_step list \<Rightarrow> frame list \<Rightarrow> frame list option" where
  "filter_event_stream js host cap pending steps [] =
     Some (if pending = [] then [] else [FrameData (bytes_of pending)])"
| "filter_event_stream js host cap pending steps (FrameError e # frames) = Some [FrameError e]"
| "filter_event_stream js host cap pending steps (FrameOther # frames) =
     filter_event_stream js host cap pending steps frames"
| "filter_event_stream js host cap pending steps (FrameData d # frames) =
     (case next_sse_chunk cap (pending @ from_utf8_lossy d) of
        None \<Rightarrow> filter_event_stream js host cap (pending @ from_utf8_lossy d) steps frames
      | Some (ready, pending') \<Rightarrow>
          Option.bind (run_steps js host steps ready) (\<lambda>(steps', out).
            map_option (Cons (FrameData (bytes_of out)))
              (filter_event_stream js host cap pending' steps' frames)))"

definition is_event_stream :: "headers \<Rightarrow> bool" where
  "is_event_stream h \<longleftrightarrow>
     (case Option.bind (hdr_get h content_type) value_to_str of
        None \<Rightarrow> False | Some v \<Rightarrow> prefix ''text/event-stream'' v)"

section \<open>The headers of one hop\<close>

definition hop_by_hop :: "string list" where
  "hop_by_hop = [''keep-alive'', ''proxy-authenticate'', ''proxy-authorization'', ''proxy-connection'',
     ''te'', ''trailer'', ''transfer-encoding'']"

definition strip_hop_by_hop :: "bool \<Rightarrow> headers \<Rightarrow> headers" where
  "strip_hop_by_hop keep_upgrade h =
    (let h1 = fold hdr_remove hop_by_hop h in
     if keep_upgrade then h1 else hdr_remove ''upgrade'' (hdr_remove ''connection'' h1))"

definition set_host_header :: "authority \<Rightarrow> headers \<Rightarrow> headers" where
  "set_host_header a h =
    (let v = (if auth_port a = 443 \<or> auth_port a = 80 then auth_host a else show_authority a) in
     if header_value_ok v then hdr_insert ''host'' v h else h)"

section \<open>Nothing is lost or reordered\<close>

lemma last_blank_Some:
  "last_blank s = Some i \<Longrightarrow> i \<le> length s \<and> suffix two_newlines (take i s) \<and>
     (\<forall>j. i < j \<and> j \<le> length s \<longrightarrow> \<not> suffix two_newlines (take j s))"
proof -
  assume "last_blank s = Some i"
  then obtain k where k: "k < Suc (length s)" "i = rev [0..<Suc (length s)] ! k"
      "suffix two_newlines (take i s)" "\<forall>j<k. \<not> suffix two_newlines (take (rev [0..<Suc (length s)] ! j) s)"
    unfolding last_blank_def find_Some_iff by auto
  then have i: "i = length s - k"
    by (simp add: rev_nth del: upt_Suc)
  moreover have "\<not> suffix two_newlines (take j s)" if "i < j" "j \<le> length s" for j
  proof -
    have "length s - j < k" "rev [0..<Suc (length s)] ! (length s - j) = j"
      using that i k(1) by (auto simp: rev_nth simp del: upt_Suc)
    with k(4) show ?thesis
      by metis
  qed
  ultimately show ?thesis
    using k by auto
qed

text \<open>A text without a blank line: the stream's events are not delimited by two line feeds.\<close>

definition no_blank :: "string \<Rightarrow> bool" where
  "no_blank s \<longleftrightarrow> \<not> sublist two_newlines s"

lemma last_blank_None: "last_blank s = None \<longleftrightarrow> no_blank s"
proof -
  have "(\<exists>i \<le> length s. suffix two_newlines (take i s)) \<longleftrightarrow> sublist two_newlines s"
  proof
    assume "\<exists>i \<le> length s. suffix two_newlines (take i s)"
    then obtain i a where "take i s = a @ two_newlines"
      by (auto simp: suffix_def)
    then have "s = a @ two_newlines @ drop i s"
      by (metis append.assoc append_take_drop_id)
    then show "sublist two_newlines s"
      unfolding sublist_def by blast
  next
    assume "sublist two_newlines s"
    then obtain a b where s: "s = a @ two_newlines @ b"
      by (auto simp: sublist_def)
    then have "suffix two_newlines (take (length (a @ two_newlines)) s)"
      by (simp add: suffix_def)
    then show "\<exists>i \<le> length s. suffix two_newlines (take i s)"
      using s by (intro exI [of _ "length (a @ two_newlines)"]) simp
  qed
  then show ?thesis
    by (auto simp: last_blank_def no_blank_def find_None_iff less_Suc_eq_le simp del: upt_Suc)
qed

lemma next_sse_chunk_splits: "next_sse_chunk cap p = Some (ready, p') \<Longrightarrow> p = ready @ p'"
  by (auto simp: next_sse_chunk_def split: option.splits if_splits)

text \<open>What a step is given is whole events, or more than the cap of text without an end.\<close>

lemma next_sse_chunk_ready:
  assumes "next_sse_chunk cap p = Some (ready, p')"
  shows "suffix two_newlines ready \<or> (no_blank ready \<and> cap < length ready \<and> p' = [])"
  using assms last_blank_Some [of p] last_blank_None [of p]
  by (auto simp: next_sse_chunk_def split: option.splits if_splits)

text \<open>What is held back stays within the cap and contains no whole event.\<close>

lemma next_sse_chunk_waits:
  "next_sse_chunk cap p = None \<Longrightarrow> no_blank p \<and> length p \<le> cap"
  by (auto simp: next_sse_chunk_def last_blank_None [symmetric] split: option.splits if_splits)

lemma next_sse_chunk_rest:
  assumes "next_sse_chunk cap p = Some (ready, p')"
  shows "no_blank p'"
proof (cases "last_blank p")
  case (Some i)
  then have cut: "ready = take i p" "p' = drop i p"
    using assms by (auto simp: next_sse_chunk_def)
  note last = last_blank_Some [OF Some]
  show ?thesis
  proof (rule ccontr)
    assume "\<not> no_blank p'"
    then obtain a b where "p' = a @ two_newlines @ b"
      by (auto simp: no_blank_def sublist_def)
    then have p: "p = take i p @ a @ two_newlines @ b"
      using cut append_take_drop_id [of i p] by simp
    define h where "h = take i p @ a @ two_newlines"
    have whole: "p = h @ b"
      using p by (simp add: h_def)
    have "length (take i p) = i"
      using last by simp
    then have "i < length h"
      by (simp add: h_def two_newlines_def)
    moreover have "length h \<le> length p" "take (length h) p = h"
      using whole by simp_all
    moreover have "suffix two_newlines h"
      unfolding h_def suffix_def by (intro exI [of _ "take i p @ a"]) simp
    ultimately show False
      using last by metis
  qed
next
  case None
  then show ?thesis
    using assms by (auto simp: next_sse_chunk_def no_blank_def two_newlines_def split: if_splits)
qed

text \<open>The texts the frames of a body become, up to its end or its error.\<close>

fun frames_text :: "frame list \<Rightarrow> string" where
  "frames_text [] = []"
| "frames_text (FrameData d # fs) = from_utf8_lossy d @ frames_text fs"
| "frames_text (FrameOther # fs) = frames_text fs"
| "frames_text (FrameError _ # fs) = []"

text \<open>A list of steps that never changes a chunk, such as that of a transform that does not govern.\<close>

definition idle_steps :: "json_lib \<Rightarrow> string \<Rightarrow> stream_step list \<Rightarrow> bool" where
  "idle_steps js host steps \<longleftrightarrow> (\<forall>out. run_steps js host steps out = Some (steps, out))"

lemma idle_none [simp]: "idle_steps js host []"
  by (simp add: idle_steps_def)

lemma idle_chunk: "(\<And>out. f host out = None) \<Longrightarrow> idle_steps js host ss \<Longrightarrow> idle_steps js host (ChunkStep f # ss)"
  by (simp add: idle_steps_def)

lemma relay_bytes_append [simp]: "bytes_of (s @ t) = bytes_of s @ bytes_of t"
  by (simp add: bytes_of_def)

lemma relay_bytes_Nil [simp]: "bytes_of [] = []"
  by (simp add: bytes_of_def)

text \<open>
  The specification of the filter: cut the stream into chunks and a tail, rewrite the chunks one
  after the other, send the tail as it is.
\<close>

fun cut_events :: "nat \<Rightarrow> string \<Rightarrow> frame list \<Rightarrow> string list \<times> string" where
  "cut_events cap pending [] = ([], pending)"
| "cut_events cap pending (FrameError _ # frames) = ([], [])"
| "cut_events cap pending (FrameOther # frames) = cut_events cap pending frames"
| "cut_events cap pending (FrameData d # frames) =
     (case next_sse_chunk cap (pending @ from_utf8_lossy d) of
        None \<Rightarrow> cut_events cap (pending @ from_utf8_lossy d) frames
      | Some (ready, pending') \<Rightarrow>
          (case cut_events cap pending' frames of (chunks, rest) \<Rightarrow> (ready # chunks, rest)))"

fun run_chunks ::
  "json_lib \<Rightarrow> string \<Rightarrow> stream_step list \<Rightarrow> string list \<Rightarrow> string list option" where
  "run_chunks js host steps [] = Some []"
| "run_chunks js host steps (c # cs) =
     Option.bind (run_steps js host steps c) (\<lambda>(steps', out).
       map_option (Cons out) (run_chunks js host steps' cs))"

definition data_frames :: "string list \<Rightarrow> string \<Rightarrow> frame list" where
  "data_frames outs rest = map (\<lambda>out. FrameData (bytes_of out)) (outs @ (if rest = [] then [] else [rest]))"

lemma frames_data_frames [simp]: "frames_data (data_frames outs rest) = bytes_of (concat outs @ rest)"
proof -
  have "frames_data (map (\<lambda>out. FrameData (bytes_of out)) xs) = bytes_of (concat xs)" for xs
    by (induction xs) simp_all
  from this [of "outs @ (if rest = [] then [] else [rest])"] show ?thesis
    by (auto simp: data_frames_def)
qed

lemma data_frames_Cons [simp]:
  "data_frames (out # outs) rest = FrameData (bytes_of out) # data_frames outs rest"
  by (simp add: data_frames_def)

lemma filter_is_cut_and_run:
  "\<not> list_ex is_frame_error frames \<Longrightarrow>
     filter_event_stream js host cap pending steps frames =
       map_option (\<lambda>outs. data_frames outs (snd (cut_events cap pending frames)))
         (run_chunks js host steps (fst (cut_events cap pending frames)))"
proof (induction frames arbitrary: pending steps)
  case Nil
  then show ?case
    by (simp add: data_frames_def)
next
  case (Cons f frames)
  show ?case
  proof (cases f)
    case (FrameData d)
    show ?thesis
    proof (cases "next_sse_chunk cap (pending @ from_utf8_lossy d)")
      case None
      with FrameData Cons show ?thesis
        by simp
    next
      case (Some r)
      obtain ready pending' where r: "r = (ready, pending')"
        by fastforce
      obtain chunks rest where cut: "cut_events cap pending' frames = (chunks, rest)"
        by fastforce
      show ?thesis
      proof (cases "run_steps js host steps ready")
        case None
        with FrameData Some r cut show ?thesis
          by simp
      next
        case (Some q)
        with FrameData \<open>next_sse_chunk cap _ = Some r\<close> r cut Cons.IH [of pending' "fst q"] Cons.prems
        show ?thesis
          by (cases q; cases "run_chunks js host (fst q) chunks") auto
      qed
    qed
  qed (use Cons in auto)
qed

lemma cut_events_text:
  "\<not> list_ex is_frame_error frames \<Longrightarrow>
     concat (fst (cut_events cap pending frames)) @ snd (cut_events cap pending frames) =
       pending @ frames_text frames"
proof (induction cap pending frames rule: cut_events.induct)
  case (4 cap pending d frames)
  show ?case
  proof (cases "next_sse_chunk cap (pending @ from_utf8_lossy d)")
    case None
    with "4.IH"(1) "4.prems" show ?thesis
      by simp
  next
    case (Some r)
    obtain ready pending' where r: "r = (ready, pending')"
      by fastforce
    have "pending @ from_utf8_lossy d = ready @ pending'"
      using next_sse_chunk_splits Some r by blast
    moreover have "concat (fst (cut_events cap pending' frames)) @ snd (cut_events cap pending' frames) =
        pending' @ frames_text frames"
      using "4.IH"(2) [OF Some r [symmetric]] "4.prems" by simp
    ultimately show ?thesis
      using Some r by (simp add: case_prod_unfold)
  qed
qed simp_all

lemma cut_events_whole:
  assumes "no_blank pending" and "c \<in> set (fst (cut_events cap pending frames))"
  shows "suffix two_newlines c \<or> cap < length c"
  using assms
proof (induction cap pending frames rule: cut_events.induct)
  case (4 cap pending d frames)
  show ?case
  proof (cases "next_sse_chunk cap (pending @ from_utf8_lossy d)")
    case None
    with 4 next_sse_chunk_waits [OF None] show ?thesis
      by simp
  next
    case (Some r)
    obtain ready pending' where r: "r = (ready, pending')"
      by fastforce
    with 4 Some next_sse_chunk_ready [of cap _ ready pending'] next_sse_chunk_rest [of cap _ ready pending']
    show ?thesis
      by (auto split: prod.splits)
  qed
qed simp_all

lemma run_chunks_idle: "idle_steps js host steps \<Longrightarrow> run_chunks js host steps cs = Some cs"
  by (induction cs) (simp_all add: idle_steps_def)

lemma run_chunks_session:
  "run_chunks js host [SessionStep st] cs = Some outs \<Longrightarrow>
     map_option snd (sse_stream js st cs) = Some (concat outs)"
proof (induction cs arbitrary: st outs)
  case (Cons c cs)
  then show ?case
    by (fastforce split: Option.bind_splits)
qed simp

text \<open>
  Cutting a stream into events loses and reorders nothing: where no step rewrites,
  the client receives the text of all frames, in order, whatever their boundaries and wherever
  the stream ends.
\<close>

lemma event_stream_keeps_all_text:
  assumes "idle_steps js host steps" and "\<not> list_ex is_frame_error frames"
  shows "\<exists>out. filter_event_stream js host cap pending steps frames = Some out \<and>
    frames_data out = bytes_of (pending @ frames_text frames)"
  using cut_events_text [OF assms(2), of cap pending]
  by (simp add: filter_is_cut_and_run [OF assms(2)] run_chunks_idle [OF assms(1)])

text \<open>
  An event stream framed with carriage returns is not filtered. If the text of a body
  has no two adjacent line feeds and stays within the cap, the client receives it unchanged,
  whatever the steps are: a listing of tools in such a stream reaches the agent whole.
\<close>

lemma undelimited_stream_is_not_filtered:
  assumes "no_blank (frames_text frames)" and "length (frames_text frames) \<le> cap"
    and "\<not> list_ex is_frame_error frames"
  shows "\<exists>out. filter_event_stream js host cap [] steps frames = Some out \<and>
    frames_data out = bytes_of (frames_text frames)"
proof -
  have "cut_events cap pending frames = ([], pending @ frames_text frames)"
    if "no_blank (pending @ frames_text frames)" "length (pending @ frames_text frames) \<le> cap" for pending
    using that assms(3)
  proof (induction frames arbitrary: pending)
    case (Cons f frames)
    show ?case
    proof (cases f)
      case (FrameData d)
      let ?p = "pending @ from_utf8_lossy d"
      have "no_blank ?p"
        using Cons.prems(1) FrameData
        by (auto simp: no_blank_def intro: sublist_appendI)
          (metis append.assoc sublist_append_rightI sublist_order.dual_order.trans)
      then have "next_sse_chunk cap ?p = None"
        using Cons.prems(2) FrameData by (simp add: next_sse_chunk_def last_blank_None [symmetric])
      with Cons FrameData show ?thesis
        by simp
    qed (use Cons in auto)
  qed simp
  from this [of "[]"] assms show ?thesis
    by (simp add: filter_is_cut_and_run)
qed

text \<open>
  With a session as its only step, the filter sends what the session makes of the chunks, so
  what is proved of a stream of chunks holds of what the client receives.
\<close>

lemma filtered_session_is_stream:
  assumes "filter_event_stream js host cap [] [SessionStep st] frames = Some out"
    and "\<not> list_ex is_frame_error frames"
  shows "\<exists>text. map_option snd (sse_stream js st (fst (cut_events cap [] frames))) = Some text \<and>
    frames_data out = bytes_of (text @ snd (cut_events cap [] frames))"
  using assms by (auto simp: filter_is_cut_and_run dest!: run_chunks_session)

text \<open>
  A character whose bytes come in two frames is replaced by two replacement characters: the text of
  a body is not the text of its frames.
\<close>

lemma split_character_is_lost:
  "frames_text [FrameData [0xC3], FrameData [0xA9]] \<noteq> frames_text [FrameData [0xC3, 0xA9]]"
  by code_simp

section \<open>Headers\<close>

text \<open>
  What crosses a hop is exactly the client's headers less those that describe the hop:
  none of the hop's own names is left, proxy credentials among them, and every other header keeps
  its values; the host named is that of the authority.
\<close>

lemma hop_headers_exact:
  "hdr_get_all (strip_hop_by_hop upgrade (set_host_header a h)) n =
    (if n \<in> set hop_by_hop then []
     else if n \<in> {''connection'', ''upgrade''} \<and> \<not> upgrade then []
     else if n = ''host'' \<and> header_value_ok (if auth_port a = 443 \<or> auth_port a = 80 then auth_host a
            else show_authority a)
     then [if auth_port a = 443 \<or> auth_port a = 80 then auth_host a else show_authority a]
     else hdr_get_all h n)"
proof -
  have removed: "hdr_get_all (fold hdr_remove ns h) k = (if k \<in> set ns then [] else hdr_get_all h k)"
    for ns h k
    by (induction ns arbitrary: h) auto
  show ?thesis
    by (simp add: strip_hop_by_hop_def Let_def set_host_header_def removed hop_by_hop_def)
qed

end
