(* ===== verification/Router.thy ===== *)
theory Router
  imports Sse Transforms
begin

text \<open>
  \<open>crates/marshal-llm/src/router.rs\<close>: where a request for a model goes. The same object is a
  request transform, a response transform and a responder. Reading a URI from a path is the
  crate \<open>http\<close>'s and is the parameter \<open>parse_uri\<close>; an error of \<open>apply\<close> comes with the context as
  it was left, because the code changes it in place.
\<close>

definition router_host_matches :: "string \<Rightarrow> string \<Rightarrow> bool" where
  "router_host_matches left right \<longleftrightarrow>
     eq_ignore_ascii_case (trim_end_matches (CHR ''.'') left) (trim_end_matches (CHR ''.'') right)"

definition listens_for :: "string \<Rightarrow> string \<Rightarrow> llm_listen \<Rightarrow> bool" where
  "listens_for host path listen \<longleftrightarrow>
     list_ex (\<lambda>candidate. router_host_matches candidate host) (ll_hosts listen) \<and>
     (if ll_paths listen = [] then path = default_chat_path (ll_dialect listen)
      else path \<in> set (ll_paths listen))"

definition listen_for :: "llm_router_config \<Rightarrow> string \<Rightarrow> string \<Rightarrow> llm_listen option" where
  "listen_for config host path = find (listens_for host path) (lrc_listen config)"

definition listens_on :: "llm_router_config \<Rightarrow> string \<Rightarrow> bool" where
  "listens_on config host \<longleftrightarrow>
     list_ex (\<lambda>listen. list_ex (\<lambda>h. router_host_matches h host) (ll_hosts listen)) (lrc_listen config)"

definition router_dialect :: "string \<Rightarrow> core_error + llm_dialect" where
  "router_dialect value =
    (if value = ''openai'' then Inr Openai
     else if value = ''anthropic'' then Inr Anthropic
     else if value = ''system_one'' then Inr SystemOne
     else Inl (EOther (''unknown LLM dialect `'' @ value @ ''` in route state'')))"

fun show_translate_error :: "translate_error \<Rightarrow> string" where
  "show_translate_error NotJson = ''request body is not JSON''"
| "show_translate_error (TranslateOther m) = m"

definition request_requirement_for ::
  "llm_router_config \<Rightarrow> authority \<Rightarrow> uri \<Rightarrow> body_requirement" where
  "request_requirement_for config a u =
    (if listen_for config (auth_host a) (uri_path u) = None then StreamBody
     else BufferBody (lrc_max_request_bytes config))"

definition defers_connect :: "llm_router_config \<Rightarrow> string \<Rightarrow> bool" where
  "defers_connect config host \<longleftrightarrow> listens_on config host \<and>
     list_ex (\<lambda>target. \<not> router_host_matches (lmt_host target) host \<or> lmt_port target \<noteq> 443)
       (map snd (lrc_models config))"

section \<open>The request transform\<close>

definition client_headers :: "string list" where
  "client_headers = [''authorization'', ''x-api-key'', ''content-encoding'', ''anthropic-version'',
     ''anthropic-beta'', ''openai-organization'', ''openai-project'']"

definition routed_headers :: "llm_model_target \<Rightarrow> nat \<Rightarrow> headers \<Rightarrow> headers" where
  "routed_headers target len h =
    (let h1 = hdr_insert content_length (show_nat len)
           (hdr_insert content_type ''application/json'' (fold hdr_remove client_headers h))
     in if lmt_dialect target = Anthropic then hdr_insert ''anthropic-version'' ''2023-06-01'' h1
        else h1)"

definition route_facts :: "string \<Rightarrow> llm_model_target \<Rightarrow> evidence \<Rightarrow> evidence" where
  "route_facts from_model target ev =
     record_ev ''llm_router.to_dialect'' (JStr (dialect_str (lmt_dialect target)))
      (record_ev ''llm_router.to_host'' (JStr (lmt_host target))
        (record_ev ''llm_router.to_model'' (JStr (lmt_model target))
          (record_ev ''llm_router.from_model'' (JStr from_model) ev)))"

definition route_to ::
  "(string \<Rightarrow> string + uri) \<Rightarrow> llm_listen \<Rightarrow> llm_model_target \<Rightarrow> string \<Rightarrow> request_context
     \<Rightarrow> core_error option \<times> request_context" where
  "route_to parse_uri listen target from_model cx =
    (let path = unwrap_or (default_chat_path (lmt_dialect target)) (lmt_path target) in
     case parse_uri path of
       Inl e \<Rightarrow> (Some (EOther (''invalid mapped LLM path `'' @ path @ ''`: '' @ e)), cx)
     | Inr u \<Rightarrow>
         (None, cx\<lparr>rc_uri := u,
            rc_authority := \<lparr>auth_host = lmt_host target, auth_port = lmt_port target\<rparr>,
            rc_evidence := route_facts from_model target (rc_evidence cx),
            rc_llm_route := Some
              \<lparr>lr_client_dialect = dialect_str (ll_dialect listen),
               lr_origin_dialect = dialect_str (lmt_dialect target),
               lr_from_model = from_model, lr_to_model = lmt_model target,
               lr_to_host = lmt_host target\<rparr>\<rparr>))"

definition request_bytes :: "llm_router_config \<Rightarrow> body_handle \<Rightarrow> core_error + byte list" where
  "request_bytes config body =
    (case body of
       Buffered bytes \<Rightarrow> Inr bytes
     | OverLimit _ _ _ \<Rightarrow> Inl (EBodyTooLarge (lrc_max_request_bytes config))
     | _ \<Rightarrow> Inl (EOther ''LLM router requires a buffered JSON request body''))"

definition router_apply_request ::
  "json_lib \<Rightarrow> (string \<Rightarrow> string + uri) \<Rightarrow> llm_router_config \<Rightarrow> request_context
     \<Rightarrow> core_error option \<times> request_context" where
  "router_apply_request js parse_uri config cx =
    (case listen_for config (auth_host (rc_authority cx)) (uri_path (rc_uri cx)) of
       None \<Rightarrow> (None, cx)
     | Some listen \<Rightarrow>
    (case request_bytes config (rc_body cx) of
       Inl e \<Rightarrow> (Some e, cx)
     | Inr bytes \<Rightarrow>
    (case jl_parse js bytes of
       None \<Rightarrow> (Some (EOther (''LLM request body is not valid JSON: '' @ jl_error js bytes)), cx)
     | Some body \<Rightarrow>
    (case get_str body ''model'' of
       None \<Rightarrow> (Some (EOther ''LLM request body has no string `model` field''), cx)
     | Some from_model \<Rightarrow>
    (case map_of (lrc_models config) from_model of
       None \<Rightarrow>
         (case lrc_unmapped config of
            UnmappedPass \<Rightarrow> (None, cx)
          | UnmappedDeny \<Rightarrow> (Some (EOther (''LLM model `'' @ from_model @
              ''` is not present in the router model map'')), cx))
     | Some target \<Rightarrow>
    (case translate_request js (ll_dialect listen) (lmt_dialect target) body (lmt_model target) of
       Inl e \<Rightarrow> (Some (EOther (''could not translate LLM request: '' @ show_translate_error e)), cx)
     | Inr translated \<Rightarrow>
         (let encoded = bytes_of (jl_show js translated) in
          route_to parse_uri listen target from_model
            (cx\<lparr>rc_body := Buffered encoded,
                rc_headers := routed_headers target (length encoded) (rc_headers cx)\<rparr>))))))))"

section \<open>The response transform\<close>

definition response_requirement_for :: "llm_router_config \<Rightarrow> request_context \<Rightarrow> body_requirement" where
  "response_requirement_for config cx =
    (if rc_llm_route cx = None then StreamBody else BufferBody (lrc_max_response_bytes config))"

definition translate_routed :: "json_lib \<Rightarrow> llm_route \<Rightarrow> json \<Rightarrow> core_error + json" where
  "translate_routed js route body =
    (case router_dialect (lr_origin_dialect route) of
       Inl e \<Rightarrow> Inl e
     | Inr origin \<Rightarrow>
    (case router_dialect (lr_client_dialect route) of
       Inl e \<Rightarrow> Inl e
     | Inr client \<Rightarrow>
    (case translate_response js origin client body (lr_from_model route) of
       Inl e \<Rightarrow> Inl (EOther (''could not translate LLM response: '' @ show_translate_error e))
     | Inr translated \<Rightarrow> Inr translated)))"

definition router_apply_response ::
  "json_lib \<Rightarrow> llm_router_config \<Rightarrow> request_context \<Rightarrow> response_parts
     \<Rightarrow> core_error option \<times> response_parts" where
  "router_apply_response js config cx resp =
    (case rc_llm_route cx of
       None \<Rightarrow> (None, resp)
     | Some route \<Rightarrow>
    (case rp_body resp of
       OverLimit _ _ _ \<Rightarrow> (Some (EBodyTooLarge (lrc_max_response_bytes config)), resp)
     | Buffered bytes \<Rightarrow>
         if bytes = [] then (None, resp)
         else (case jl_parse js bytes of
           None \<Rightarrow> (Some (EOther (''LLM response body is not valid JSON: '' @ jl_error js bytes)), resp)
         | Some body \<Rightarrow>
        (case translate_routed js route body of
           Inl e \<Rightarrow> (Some e, resp)
         | Inr translated \<Rightarrow>
             (let encoded = bytes_of (jl_show js translated) in
              (None, resp\<lparr>rp_body := Buffered encoded,
                 rp_headers := hdr_insert content_length (show_nat (length encoded))
                   (hdr_insert content_type ''application/json''
                     (hdr_remove content_encoding (rp_headers resp)))\<rparr>))))
     | _ \<Rightarrow> (None, resp)))"

definition stream_session :: "request_context \<Rightarrow> dialect_sse option" where
  "stream_session cx =
    (case rc_llm_route cx of
       None \<Rightarrow> None
     | Some route \<Rightarrow>
         if lr_client_dialect route = ''system_one'' then None
         else (case router_dialect (lr_origin_dialect route) of
             Inl _ \<Rightarrow> None
           | Inr origin \<Rightarrow>
          (case router_dialect (lr_client_dialect route) of
             Inl _ \<Rightarrow> None
           | Inr client \<Rightarrow> Some (dialect_sse_new origin client (lr_from_model route)))))"

section \<open>The responder\<close>

record synthesized_response =
  sr_status :: nat
  sr_headers :: "(string \<times> string) list"
  sr_body :: "byte list"
  sr_code :: string
  sr_message :: string

definition model_catalog :: "llm_router_config \<Rightarrow> json" where
  "model_catalog config =
     jobj [(''object'', JStr ''list''),
       (''data'', JArr (map (\<lambda>(model, _). jobj [(''id'', JStr model), (''object'', JStr ''model''),
            (''owned_by'', JStr ''bot-marshal'')])
          (filter (\<lambda>(_, target). lmt_dialect target \<noteq> SystemOne) (lrc_models config))))]"

definition router_respond ::
  "json_lib \<Rightarrow> llm_router_config \<Rightarrow> request_context \<Rightarrow> synthesized_response option" where
  "router_respond js config cx =
    (if rc_method cx \<noteq> ''GET'' \<or> uri_path (rc_uri cx) \<noteq> ''/v1/models'' then None
     else if \<not> list_ex (\<lambda>listen. ll_dialect listen = Openai \<and>
         list_ex (\<lambda>host. router_host_matches host (auth_host (rc_authority cx))) (ll_hosts listen))
       (lrc_listen config) then None
     else Some \<lparr>sr_status = 200, sr_headers = [(''content-type'', ''application/json'')],
       sr_body = bytes_of (jl_show js (model_catalog config)), sr_code = ''model_catalog'',
       sr_message = ''served the configured client-facing LLM model catalog''\<rparr>)"

section \<open>What a routed request carries\<close>

lemma hdr_fold_remove [simp]:
  "hdr_get_all (fold hdr_remove ns h) k = (if k \<in> set ns then [] else hdr_get_all h k)"
  by (induction ns arbitrary: h) auto

lemma routed_headers_get:
  "hdr_get_all (routed_headers target len h) k =
    (if k = ''anthropic-version'' \<and> lmt_dialect target = Anthropic then [''2023-06-01'']
     else if k = content_length then [show_nat len]
     else if k = content_type then [''application/json'']
     else if k \<in> set client_headers then []
     else hdr_get_all h k)"
  by (simp add: routed_headers_def Let_def content_length_def content_type_def client_headers_def)

lemma ev_le_route_facts: "ev_le ev (route_facts m target ev)"
  unfolding route_facts_def by (intro ev_le_record_trans ev_le_refl)

lemma route_to_cases:
  assumes "route_to parse_uri listen target m cx = (None, cx')"
  shows "rc_headers cx' = rc_headers cx \<and> rc_body cx' = rc_body cx \<and>
    rc_authority cx' = \<lparr>auth_host = lmt_host target, auth_port = lmt_port target\<rparr> \<and>
    parse_uri (unwrap_or (default_chat_path (lmt_dialect target)) (lmt_path target)) = Inr (rc_uri cx') \<and>
    rc_llm_route cx' = Some \<lparr>lr_client_dialect = dialect_str (ll_dialect listen),
      lr_origin_dialect = dialect_str (lmt_dialect target), lr_from_model = m,
      lr_to_model = lmt_model target, lr_to_host = lmt_host target\<rparr> \<and>
    ev_le (rc_evidence cx) (rc_evidence cx')"
  using assms
  by (auto simp: route_to_def Let_def ev_le_route_facts split: sum.splits)

text \<open>A request is routed exactly by these steps, and by no others.\<close>

lemma router_apply_requestD:
  assumes "router_apply_request js parse_uri config cx = (None, cx')"
  shows "cx' = cx \<or> (\<exists>listen bytes body m target out.
    listen_for config (auth_host (rc_authority cx)) (uri_path (rc_uri cx)) = Some listen \<and>
    rc_body cx = Buffered bytes \<and> jl_parse js bytes = Some body \<and> get_str body ''model'' = Some m \<and>
    map_of (lrc_models config) m = Some target \<and>
    translate_request js (ll_dialect listen) (lmt_dialect target) body (lmt_model target) = Inr out \<and>
    route_to parse_uri listen target m
      (cx\<lparr>rc_body := Buffered (bytes_of (jl_show js out)),
          rc_headers := routed_headers target (length (bytes_of (jl_show js out))) (rc_headers cx)\<rparr>)
      = (None, cx'))"
  using assms
  by (auto simp: router_apply_request_def Let_def request_bytes_def
      split: option.splits sum.splits body_handle.splits llm_unmapped.splits)



section \<open>The way back\<close>

lemma router_dialect_str [simp]: "router_dialect (dialect_str d) = Inr d"
  by (cases d) (simp_all add: router_dialect_def)

lemma dialect_str_system_one [simp]: "dialect_str d = ''system_one'' \<longleftrightarrow> d = SystemOne"
  by (cases d) simp_all

text \<open>Every routed request of a chat dialect gets a session in the right direction.\<close>

lemma routed_request_has_session:
  assumes "route_to parse_uri listen target m cx = (None, cx')" and "ll_dialect listen \<noteq> SystemOne"
  shows "stream_session cx' =
    Some (dialect_sse_new (lmt_dialect target) (ll_dialect listen) m)"
  using route_to_cases [OF assms(1)] assms(2) by (simp add: stream_session_def)

text \<open>
  The client's offer of an encoding goes on to the origin, and the answer is read as JSON without
  decoding it: an origin that takes up the offer makes the response transform fail.
\<close>

lemma offered_encodings_reach_the_origin:
  assumes "router_apply_request js parse_uri config cx = (None, cx')"
  shows "hdr_get_all (rc_headers cx') ''accept-encoding'' = hdr_get_all (rc_headers cx) ''accept-encoding''"
  using router_apply_requestD [OF assms]
  by (auto dest!: route_to_cases simp: routed_headers_get content_length_def content_type_def
      client_headers_def)

lemma encoded_response_fails:
  assumes "rc_llm_route cx = Some route" and "rp_body resp = Buffered bytes" and "bytes \<noteq> []"
    and "jl_parse js bytes = None"
  shows "\<exists>e. router_apply_response js config cx resp = (Some e, resp)"
  using assms by (simp add: router_apply_response_def)

text \<open>A response that is translated says the length of the body it has, and no encoding.\<close>

lemma translated_response_is_framed:
  assumes "router_apply_response js config cx resp = (None, resp')" and "resp' \<noteq> resp"
  shows "\<exists>bytes. rp_body resp' = Buffered bytes
    \<and> hdr_get_all (rp_headers resp') content_length = [show_nat (length bytes)]
    \<and> hdr_get_all (rp_headers resp') content_encoding = []
    \<and> rp_status resp' = rp_status resp"
  using assms
  by (auto simp: router_apply_response_def Let_def content_length_def content_type_def content_encoding_def
      split: option.splits body_handle.splits sum.splits if_splits)

text \<open>A request is only answered from the catalogue if it asks for it on a listening host.\<close>

lemma catalogue_only_on_request:
  assumes "router_respond js config cx = Some r"
  shows "rc_method cx = ''GET'' \<and> uri_path (rc_uri cx) = ''/v1/models'' \<and>
    listens_on config (auth_host (rc_authority cx)) \<and>
    sr_body r = bytes_of (jl_show js (model_catalog config))"
  using assms
  by (auto simp: router_respond_def listens_on_def list_ex_iff split: if_splits)

text \<open>A host the router does not listen on is never touched, so its connection is not deferred.\<close>

lemma silent_host_is_untouched:
  assumes "\<not> listens_on config (auth_host (rc_authority cx))"
  shows "router_apply_request js parse_uri config cx = (None, cx) \<and>
    \<not> defers_connect config (auth_host (rc_authority cx)) \<and>
    request_requirement_for config (rc_authority cx) (rc_uri cx) = StreamBody"
proof -
  have "listen_for config (auth_host (rc_authority cx)) (uri_path (rc_uri cx)) = None"
    using assms by (auto simp: listen_for_def listens_on_def listens_for_def find_None_iff list_ex_iff)
  with assms show ?thesis
    by (simp add: router_apply_request_def defers_connect_def request_requirement_for_def)
qed

end
