(* ===== verification/Intercept.thy ===== *)
theory Intercept
  imports Relay Router AuditLog Build
begin

text \<open>
  One decrypted request of \<open>crates/marshal-proxy/src/mitm.rs\<close>, from its head and body to the answer the
  client gets. Policy layers, transforms and responders are trait objects in the code and
  records of functions here. The outside world is a state \<open>'w\<close>; what the request does to others is
  the list of its effects, in order: addresses dialled, requests sent, counters and audit records.
\<close>

section \<open>The parts a connection is made of\<close>

record 'w request_xform =
  rx_name :: string
  rx_requirement :: "authority \<Rightarrow> uri \<Rightarrow> body_requirement"
  rx_defers :: "string \<Rightarrow> bool"
  rx_apply :: "request_context \<Rightarrow> 'w \<Rightarrow> (core_error option \<times> request_context) \<times> 'w"

record 'w responder =
  rd_name :: string
  rd_requirement :: body_requirement
  rd_respond :: "request_context \<Rightarrow> 'w
    \<Rightarrow> ((core_error + synthesized_response option) \<times> request_context) \<times> 'w"

record 'w response_xform =
  sx_name :: string
  sx_requirement :: "request_context \<Rightarrow> body_requirement"
  sx_supports_streaming :: bool
  sx_apply :: "request_context \<Rightarrow> response_parts \<Rightarrow> 'w \<Rightarrow> (core_error option \<times> response_parts) \<times> 'w"
  sx_session :: "request_context \<Rightarrow> dialect_sse option"
  sx_chunk :: "string \<Rightarrow> string \<Rightarrow> string option"

datatype mitm_error =
    MIo string | MTls string | MHttp string | MInvalidServerName string | MGuard string

record http_response =
  hr_status :: nat
  hr_headers :: headers
  hr_body :: "frame list"

record upstream_request =
  uq_method :: string
  uq_uri :: uri
  uq_headers :: headers
  uq_body :: "frame list"

record ('sock, 'conn, 'w) origin_env = "('sock, 'w) net_env" +
  oe_server_name_ok :: "string \<Rightarrow> bool"
  oe_tls :: "string \<Rightarrow> 'sock \<Rightarrow> 'w \<Rightarrow> (mitm_error + 'conn) \<times> 'w"
  oe_ready :: "'conn \<Rightarrow> 'w \<Rightarrow> bool"
  oe_exchange :: "'conn \<Rightarrow> upstream_request \<Rightarrow> 'w \<Rightarrow> (string + http_response) \<times> 'w"
  oe_json :: json_lib
  oe_pretty :: "json \<Rightarrow> string"
  oe_header_name :: "string \<Rightarrow> string option"
  oe_layer_us :: "string \<Rightarrow> nat"
  oe_elapsed_ms :: "'w \<Rightarrow> nat"

record ('net, 'w) mitm_handler =
  mh_chain :: "'w chain"
  mh_authority :: authority
  mh_ingress :: ingress_mode
  mh_identity :: string
  mh_profile :: string
  mh_client_addr :: socket_addr
  mh_request_transforms :: "'w request_xform list"
  mh_responders :: "'w responder list"
  mh_response_transforms :: "'w response_xform list"
  mh_attributed :: bool
  mh_resolver :: "string option"
  mh_guard :: "'net guard"

datatype 'conn effect =
    Dialled authority "socket_addr list"
  | Sent 'conn authority upstream_request
  | Counted string string bool bool
  | Audited audit_record
  | Upgraded

definition request_body_requirement ::
  "('net, 'w) mitm_handler \<Rightarrow> uri \<Rightarrow> body_requirement" where
  "request_body_requirement h u =
     fold (\<lambda>r acc. br_combine acc r)
       (map (\<lambda>t. rx_requirement t (mh_authority h) u) (mh_request_transforms h)
          @ map rd_requirement (mh_responders h))
       (chain_body_requirement (mh_chain h))"

definition response_body_requirement ::
  "('net, 'w) mitm_handler \<Rightarrow> request_context \<Rightarrow> body_requirement" where
  "response_body_requirement h cx =
     fold (\<lambda>r acc. br_combine acc r) (map (\<lambda>t. sx_requirement t cx) (mh_response_transforms h)) StreamBody"

definition any_defers_connect :: "'w request_xform list \<Rightarrow> string \<Rightarrow> bool" where
  "any_defers_connect transforms host \<longleftrightarrow> list_ex (\<lambda>t. rx_defers t host) transforms"

section \<open>Connections to the origin\<close>

text \<open>
  The guard's own \<open>expect\<close> never fails (\<open>try_connect_total\<close>), so its \<open>None\<close> has no message.
\<close>

definition guard_socket ::
  "('sock, 'conn, 'w) origin_env \<Rightarrow> 'net guard \<Rightarrow> authority \<Rightarrow> 'w
     \<Rightarrow> (guard_error + 'sock) \<times> socket_addr list \<times> 'w" where
  "guard_socket env g a w =
    (case guard_connect (net_env.truncate env) g a w of
       (r, tried, w') \<Rightarrow> (case r of Some s \<Rightarrow> s | None \<Rightarrow> Inl (GNoAddresses []), tried, w'))"

definition handshake_tcp ::
  "('sock, 'conn, 'w) origin_env \<Rightarrow> string \<Rightarrow> 'sock \<Rightarrow> 'w \<Rightarrow> (mitm_error + 'conn) \<times> 'w" where
  "handshake_tcp env host tcp w =
    (if oe_server_name_ok env host then oe_tls env host tcp w else (Inl (MInvalidServerName host), w))"

definition handshake_origin ::
  "('sock, 'conn, 'w) origin_env \<Rightarrow> 'net guard \<Rightarrow> authority \<Rightarrow> 'w
     \<Rightarrow> (mitm_error + 'conn) \<times> socket_addr list \<times> 'w" where
  "handshake_origin env g a w =
    (case guard_socket env g a w of
       (Inl e, tried, w') \<Rightarrow> (Inl (MGuard (show_guard_error e)), tried, w')
     | (Inr tcp, tried, w') \<Rightarrow>
         (case handshake_tcp env (auth_host a) tcp w' of (r, w'') \<Rightarrow> (r, tried, w'')))"

type_synonym 'conn pool = "(authority \<times> 'conn) option"

definition exchange ::
  "('sock, 'conn, 'w) origin_env \<Rightarrow> 'conn \<Rightarrow> upstream_request \<Rightarrow> 'w
     \<Rightarrow> (mitm_error + http_response) \<times> 'w" where
  "exchange env c req w = (case oe_exchange env c req w of (r, w') \<Rightarrow> (map_sum MHttp id r, w'))"

definition pooled :: "('sock, 'conn, 'w) origin_env \<Rightarrow> 'conn pool \<Rightarrow> authority \<Rightarrow> 'w \<Rightarrow> 'conn option" where
  "pooled env slot a w =
    (case slot of
       Some (a', c) \<Rightarrow> if a' = a \<and> oe_ready env c w then Some c else None
     | None \<Rightarrow> None)"

definition pool_send ::
  "('sock, 'conn, 'w) origin_env \<Rightarrow> 'net guard \<Rightarrow> authority \<Rightarrow> upstream_request \<Rightarrow> 'conn pool \<Rightarrow> 'w
     \<Rightarrow> (mitm_error + http_response) \<times> 'conn effect list \<times> 'conn pool \<times> 'w" where
  "pool_send env g a req slot w =
    (case pooled env slot a w of
       Some c \<Rightarrow> (case exchange env c req w of (r, w') \<Rightarrow> (r, [Sent c a req], slot, w'))
     | None \<Rightarrow>
         (case handshake_origin env g a w of
            (Inl e, tried, w') \<Rightarrow> (Inl e, [Dialled a tried], slot, w')
          | (Inr c, tried, w') \<Rightarrow>
              (case exchange env c req w' of
                 (r, w'') \<Rightarrow> (r, [Dialled a tried, Sent c a req], Some (a, c), w''))))"

section \<open>The audit record\<close>

definition facts_list :: "(string \<rightharpoonup> json) \<Rightarrow> jmap" where
  "facts_list m = map (\<lambda>k. (k, the (m k))) (sorted_list_of_set (dom m))"

fun ingress_str :: "ingress_mode \<Rightarrow> string" where
  "ingress_str Explicit = ''explicit''"
| "ingress_str Dns = ''dns''"

definition audit_of ::
  "('net, 'w) mitm_handler \<Rightarrow> request_context \<Rightarrow> reason \<Rightarrow> action \<Rightarrow> evidence \<Rightarrow> nat option \<Rightarrow> nat
     \<Rightarrow> bool \<Rightarrow> headers option \<Rightarrow> audit_record" where
  "audit_of h cx r act ev0 status elapsed would_deny resp_headers =
    (let ev = absorb ev0 (rc_evidence cx) in
     \<lparr>ar_identity = rc_identity cx, ar_attributed = mh_attributed h, ar_resolver = mh_resolver h,
      ar_profile = rc_profile cx, ar_ingress = ingress_str (rc_ingress cx),
      ar_host = auth_host (rc_authority cx), ar_method = rc_method cx, ar_path = uri_path (rc_uri cx),
      ar_action = act, ar_reason = r, ar_would_deny = would_deny, ar_trail = trail ev,
      ar_facts = facts_list (facts ev), ar_flags = sorted_list_of_set (flags ev),
      ar_status_code = status, ar_duration_ms = elapsed,
      ar_request_headers = redact_headers (rc_headers cx),
      ar_response_headers = (case resp_headers of None \<Rightarrow> [] | Some rh \<Rightarrow> redact_headers rh)\<rparr>)"

definition emit ::
  "('net, 'w) mitm_handler \<Rightarrow> request_context \<Rightarrow> reason \<Rightarrow> action \<Rightarrow> evidence \<Rightarrow> nat option \<Rightarrow> nat
     \<Rightarrow> bool \<Rightarrow> headers option \<Rightarrow> 'conn effect list" where
  "emit h cx r act ev status elapsed would_deny resp_headers =
     [Counted (rc_identity cx) (rc_profile cx) (act = ActAllow) would_deny,
      Audited (audit_of h cx r act ev status elapsed would_deny resp_headers)]"

section \<open>Answers of the proxy's own\<close>

definition own_response :: "nat \<Rightarrow> string \<Rightarrow> http_response" where
  "own_response status body =
     \<lparr>hr_status = status,
      hr_headers = [(''content-type'', [''application/json'']), (''proxy-agent'', [''bot-marshal''])],
      hr_body = [FrameData (bytes_of body)]\<rparr>"

definition denial_response ::
  "('sock, 'conn, 'w) origin_env \<Rightarrow> reason \<Rightarrow> request_context \<Rightarrow> json option option \<Rightarrow> http_response" where
  "denial_response env r cx jsonrpc =
    (case jsonrpc of
       Some rid \<Rightarrow>
         own_response 200 (jl_show (oe_json env)
           (error_response rid (- 32001) (r_message r @ '' ['' @ r_code r @ '']'')))
     | None \<Rightarrow>
         own_response 403 (oe_pretty env
           (jobj [(''error'', JStr ''egress_denied''), (''proxy'', JStr ''bot-marshal''),
              (''identity'', JStr (rc_identity cx)), (''profile'', JStr (rc_profile cx)),
              (''reason'', reason_json r)])))"

definition upstream_failure_response ::
  "('sock, 'conn, 'w) origin_env \<Rightarrow> reason \<Rightarrow> http_response" where
  "upstream_failure_response env r =
     own_response 502 (oe_pretty env
       (jobj [(''error'', JStr ''upstream_unreachable''), (''proxy'', JStr ''bot-marshal''),
          (''reason'', reason_json r)]))"

definition response_transform_failure ::
  "('sock, 'conn, 'w) origin_env \<Rightarrow> string \<Rightarrow> string \<Rightarrow> http_response" where
  "response_transform_failure env name message =
     own_response 502 (jl_show (oe_json env)
       (jobj [(''error'', JStr ''response_transform_failed''), (''proxy'', JStr ''bot-marshal''),
          (''transform'', JStr name), (''message'', JStr message)]))"

text \<open>\<open>HeaderMap::append\<close>, and a map built from pairs that are all valid.\<close>

fun hdr_append :: "string \<Rightarrow> string \<Rightarrow> headers \<Rightarrow> headers" where
  "hdr_append n v [] = [(n, [v])]"
| "hdr_append n v ((k, vs) # h) = (if k = n then (k, vs @ [v]) # h else (k, vs) # hdr_append n v h)"

definition valid_pair ::
  "('sock, 'conn, 'w) origin_env \<Rightarrow> string \<times> string \<Rightarrow> (string \<times> string) option" where
  "valid_pair env kv =
    (case oe_header_name env (fst kv) of
       None \<Rightarrow> None
     | Some n \<Rightarrow> if header_value_ok (snd kv) then Some (n, snd kv) else None)"

definition synth_headers ::
  "('sock, 'conn, 'w) origin_env \<Rightarrow> synthesized_response \<Rightarrow> headers" where
  "synth_headers env s =
     fold (\<lambda>(n, v) h. hdr_append n v h) (List.map_filter (valid_pair env) (sr_headers s)) []"

definition synthesized ::
  "('sock, 'conn, 'w) origin_env \<Rightarrow> synthesized_response \<Rightarrow> http_response" where
  "synthesized env s =
    (if list_all (\<lambda>kv. valid_pair env kv \<noteq> None) (sr_headers s)
     then \<lparr>hr_status = (if 100 \<le> sr_status s \<and> sr_status s \<le> 999 then sr_status s else 200),
       hr_headers = hdr_append content_length (show_nat (length (sr_body s)))
         (fold (\<lambda>(n, v) h. hdr_append n v h) (List.map_filter (valid_pair env) (sr_headers s))
           [(''proxy-agent'', [''bot-marshal''])]),
       hr_body = [FrameData (sr_body s)]\<rparr>
     else \<lparr>hr_status = 502, hr_headers = [(''proxy-agent'', [''bot-marshal''])],
       hr_body = [FrameData (bytes_of ''{\"error\":\"responder_produced_invalid_response\"}'')]\<rparr>)"

section \<open>The request's way through\<close>

fun apply_transforms ::
  "'w request_xform list \<Rightarrow> request_context \<Rightarrow> 'w
     \<Rightarrow> ((string \<times> core_error) option \<times> request_context) \<times> 'w" where
  "apply_transforms [] cx w = ((None, cx), w)"
| "apply_transforms (t # ts) cx w =
    (case rx_apply t cx w of
       ((Some e, cx'), w') \<Rightarrow> ((Some (rx_name t, e), cx'), w')
     | ((None, cx'), w') \<Rightarrow> apply_transforms ts cx' w')"

datatype response_found =
    NoAnswer
  | Answered string synthesized_response
  | ResponderFailed string core_error

fun ask_responders ::
  "'w responder list \<Rightarrow> request_context \<Rightarrow> 'w \<Rightarrow> (response_found \<times> request_context) \<times> 'w" where
  "ask_responders [] cx w = ((NoAnswer, cx), w)"
| "ask_responders (r # rs) cx w =
    (case rd_respond r cx w of
       ((Inl e, cx'), w') \<Rightarrow> ((ResponderFailed (rd_name r) e, cx'), w')
     | ((Inr (Some s), cx'), w') \<Rightarrow> ((Answered (rd_name r) s, cx'), w')
     | ((Inr None, cx'), w') \<Rightarrow> ask_responders rs cx' w')"

fun apply_response_transforms ::
  "'w response_xform list \<Rightarrow> request_context \<Rightarrow> response_parts \<Rightarrow> 'w
     \<Rightarrow> ((string \<times> core_error) option \<times> response_parts) \<times> 'w" where
  "apply_response_transforms [] cx resp w = ((None, resp), w)"
| "apply_response_transforms (t # ts) cx resp w =
    (case sx_apply t cx resp w of
       ((Some e, resp'), w') \<Rightarrow> ((Some (sx_name t, e), resp'), w')
     | ((None, resp'), w') \<Rightarrow> apply_response_transforms ts cx resp' w')"

text \<open>The stale length of a body that a transform has replaced.\<close>

definition fix_length :: "nat \<Rightarrow> headers \<Rightarrow> headers" where
  "fix_length len h =
    (case hdr_get h content_length of
       None \<Rightarrow> h
     | Some v \<Rightarrow>
         if Option.bind (value_to_str v) (parse_uint (2 ^ 64 - 1)) = Some len then h
         else hdr_insert content_length (show_nat len) h)"

definition outgoing :: "string \<Rightarrow> bool \<Rightarrow> request_context \<Rightarrow> frame list \<Rightarrow> upstream_request" where
  "outgoing m is_upgrade cx forward =
    (let h = strip_hop_by_hop is_upgrade (set_host_header (rc_authority cx) (rc_headers cx)) in
     case rc_body cx of
       Buffered bytes \<Rightarrow>
         \<lparr>uq_method = m, uq_uri = rc_uri cx, uq_headers = fix_length (length bytes) h,
          uq_body = [FrameData bytes]\<rparr>
     | _ \<Rightarrow>
         \<lparr>uq_method = m, uq_uri = rc_uri cx, uq_headers = h, uq_body = forward\<rparr>)"

definition jsonrpc_id :: "json_lib \<Rightarrow> body_handle \<Rightarrow> json option option" where
  "jsonrpc_id js body =
    (case body of
       Buffered bytes \<Rightarrow>
         map_option (\<lambda>m. case m of ToolsCall c \<Rightarrow> tc_id c | ToolsList rid \<Rightarrow> rid | Other _ rid \<Rightarrow> rid)
           (parse_request js bytes)
     | _ \<Rightarrow> None)"

definition request_cx ::
  "('net, 'w) mitm_handler \<Rightarrow> string \<Rightarrow> uri \<Rightarrow> headers \<Rightarrow> body_handle \<Rightarrow> request_context" where
  "request_cx h m u headers body =
     \<lparr>rc_identity = mh_identity h, rc_profile = mh_profile h, rc_ingress = mh_ingress h,
      rc_phase = Request, rc_client_addr = mh_client_addr h, rc_authority = mh_authority h,
      rc_method = m, rc_uri = u, rc_headers = headers, rc_body = body, rc_evidence = ev_new,
      rc_llm_route = None\<rparr>"

definition stream_steps ::
  "'w response_xform list \<Rightarrow> request_context \<Rightarrow> stream_step list" where
  "stream_steps ts cx =
     map (\<lambda>t. case sx_session t cx of Some st \<Rightarrow> SessionStep st | None \<Rightarrow> ChunkStep (sx_chunk t)) ts"

definition streamed_body ::
  "('sock, 'conn, 'w) origin_env \<Rightarrow> ('net, 'w) mitm_handler \<Rightarrow> request_context \<Rightarrow> frame list \<Rightarrow> frame list" where
  "streamed_body env h cx body =
     unwrap_or [FrameError ''panicked''] (filter_event_stream (oe_json env)
       (auth_host (mh_authority h)) max_pending_sse_event_bytes []
       (stream_steps (mh_response_transforms h) cx) body)"

text \<open>What becomes of the origin's answer.\<close>

definition buffered_answer ::
  "('sock, 'conn, 'w) origin_env \<Rightarrow> ('net, 'w) mitm_handler \<Rightarrow> request_context \<Rightarrow> http_response \<Rightarrow> 'w
     \<Rightarrow> (mitm_error + http_response) \<times> 'w" where
  "buffered_answer env h cx resp w =
    (case materialise (hr_body resp) (response_body_requirement h cx) of
       Inl e \<Rightarrow> (Inl (MHttp e), w)
     | Inr (body, forward) \<Rightarrow>
         (case apply_response_transforms (mh_response_transforms h) cx
             \<lparr>rp_status = hr_status resp, rp_headers = hr_headers resp, rp_body = body\<rparr> w of
            ((Some (name, e), parts), w') \<Rightarrow>
              (Inr (response_transform_failure env name (show_error e)), w')
          | ((None, parts), w') \<Rightarrow>
              (Inr \<lparr>hr_status = rp_status parts, hr_headers = rp_headers parts,
                 hr_body = (case rp_body parts of Buffered bytes \<Rightarrow> [FrameData bytes] | _ \<Rightarrow> forward)\<rparr>,
               w')))"

definition stream_refusal :: string where
  "stream_refusal = ''cannot apply a buffering response transform to a streaming response; scope '' @
     ''the transform away from SSE endpoints''"

definition answer ::
  "('sock, 'conn, 'w) origin_env \<Rightarrow> ('net, 'w) mitm_handler \<Rightarrow> request_context \<Rightarrow> http_response \<Rightarrow> 'w
     \<Rightarrow> (mitm_error + http_response) \<times> 'w" where
  "answer env h cx resp0 w =
    (let resp = resp0\<lparr>hr_headers := strip_hop_by_hop False (hr_headers resp0)\<rparr> in
     if mh_response_transforms h = [] then (Inr resp, w)
     else if is_event_stream (hr_headers resp)
     then (case find (\<lambda>t. \<not> sx_supports_streaming t) (mh_response_transforms h) of
             Some t \<Rightarrow> (Inr (response_transform_failure env (sx_name t) stream_refusal), w)
           | None \<Rightarrow>
               (Inr (resp\<lparr>hr_headers := hdr_remove content_length (hr_headers resp),
                  hr_body := streamed_body env h cx (hr_body resp)\<rparr>), w))
     else buffered_answer env h cx resp w)"

type_synonym ('conn, 'w) outcome_of_request =
  "(mitm_error + http_response) \<times> 'conn effect list \<times> 'conn pool \<times> 'w"

definition refuse ::
  "('sock, 'conn, 'w) origin_env \<Rightarrow> ('net, 'w) mitm_handler \<Rightarrow> json option option \<Rightarrow> request_context
     \<Rightarrow> reason \<Rightarrow> evidence \<Rightarrow> 'conn pool \<Rightarrow> 'w \<Rightarrow> ('conn, 'w) outcome_of_request" where
  "refuse env h rpc cx r ev slot w =
     (Inr (denial_response env r cx rpc),
      emit h cx r ActDeny ev None (oe_elapsed_ms env w) False None, slot, w)"

definition forward_request ::
  "('sock, 'conn, 'w) origin_env \<Rightarrow> ('net, 'w) mitm_handler \<Rightarrow> string \<Rightarrow> bool \<Rightarrow> outcome \<Rightarrow> request_context
     \<Rightarrow> frame list \<Rightarrow> 'conn pool \<Rightarrow> 'w \<Rightarrow> ('conn, 'w) outcome_of_request" where
  "forward_request env h m is_upgrade oc cx forward slot w =
    (case pool_send env (mh_guard h) (rc_authority cx) (outgoing m is_upgrade cx forward) slot w of
       (Inl (MGuard message), effs, slot', w') \<Rightarrow>
         (let r = reason_new ''upstream_guard'' ''upstream_unreachable'' message in
          (Inr (upstream_failure_response env r),
           effs @ emit h cx r ActDeny (oc_evidence oc) None (oe_elapsed_ms env w') False None,
           slot', w'))
     | (Inl e, effs, slot', w') \<Rightarrow> (Inl e, effs, slot', w')
     | (Inr resp, effs, slot', w') \<Rightarrow>
         (let seen = emit h cx (oc_reason oc) ActAllow (oc_evidence oc) (Some (hr_status resp))
                (oe_elapsed_ms env w') (oc_would_deny oc) (Some (hr_headers resp)) in
          if hr_status resp = 101 \<and> is_upgrade
          then (Inr (resp\<lparr>hr_body := []\<rparr>), effs @ seen @ [Upgraded], slot', w')
          else (case answer env h cx resp w' of (r, w'') \<Rightarrow> (r, effs @ seen, slot', w''))))"

definition allowed_request ::
  "('sock, 'conn, 'w) origin_env \<Rightarrow> ('net, 'w) mitm_handler \<Rightarrow> string \<Rightarrow> bool \<Rightarrow> json option option \<Rightarrow> outcome
     \<Rightarrow> request_context \<Rightarrow> frame list \<Rightarrow> 'conn pool \<Rightarrow> 'w \<Rightarrow> ('conn, 'w) outcome_of_request" where
  "allowed_request env h m is_upgrade rpc oc cx forward slot w =
    (case apply_transforms (mh_request_transforms h) cx w of
       ((Some (name, e), cx1), w1) \<Rightarrow>
         refuse env h rpc cx1 (reason_new name ''transform_failed'' (show_error e)) (oc_evidence oc) slot w1
     | ((None, cx1), w1) \<Rightarrow>
         (case ask_responders (mh_responders h) cx1 w1 of
            ((ResponderFailed name e, cx2), w2) \<Rightarrow>
              refuse env h rpc cx2 (reason_new name ''responder_failed'' (show_error e))
                (oc_evidence oc) slot w2
          | ((Answered name s, cx2), w2) \<Rightarrow>
              (Inr (synthesized env s),
               emit h cx2 (reason_new name (sr_code s) (sr_message s)) ActAllow (oc_evidence oc)
                 (Some (sr_status s)) (oe_elapsed_ms env w2) (oc_would_deny oc)
                 (Some (synth_headers env s)), slot, w2)
          | ((NoAnswer, cx2), w2) \<Rightarrow> forward_request env h m is_upgrade oc cx2 forward slot w2))"

definition handle_request ::
  "('sock, 'conn, 'w) origin_env \<Rightarrow> ('net, 'w) mitm_handler \<Rightarrow> string \<Rightarrow> uri \<Rightarrow> headers \<Rightarrow> frame list
     \<Rightarrow> 'conn pool \<Rightarrow> 'w \<Rightarrow> ('conn, 'w) outcome_of_request" where
  "handle_request env h m u headers incoming slot w =
    (let is_upgrade = ''upgrade'' \<in> set (hdr_keys headers);
         requirement = (if is_upgrade then StreamBody else request_body_requirement h u) in
     case materialise incoming requirement of
       Inl e \<Rightarrow> (Inl (MHttp e), [], slot, w)
     | Inr (body, forward) \<Rightarrow>
         (let rpc = jsonrpc_id (oe_json env) body; cx = request_cx h m u headers body in
          case chain_evaluate (oe_layer_us env) (mh_chain h) cx w of
            (oc, w1) \<Rightarrow>
              if oc_action oc = ActDeny
              then refuse env h rpc cx (oc_reason oc) (oc_evidence oc) slot w1
              else allowed_request env h m is_upgrade rpc oc cx forward slot w1))"

text \<open>The requests of one tunnel, one after the other, over the one pool.\<close>

fun handle_requests ::
  "('sock, 'conn, 'w) origin_env \<Rightarrow> ('net, 'w) mitm_handler
     \<Rightarrow> (string \<times> uri \<times> headers \<times> frame list) list \<Rightarrow> 'conn pool \<Rightarrow> 'w
     \<Rightarrow> (mitm_error + http_response) list \<times> 'conn effect list \<times> 'conn pool \<times> 'w" where
  "handle_requests env h [] slot w = ([], [], slot, w)"
| "handle_requests env h ((m, u, hs, body) # reqs) slot w =
    (case handle_request env h m u hs body slot w of (r, effs, slot1, w1) \<Rightarrow>
     case handle_requests env h reqs slot1 w1 of (rs, effs', slot2, w2) \<Rightarrow>
       (r # rs, effs @ effs', slot2, w2))"

text \<open>
  A whole tunnel: the client's handshake (whose outcome is given), the origin's when a socket to the
  host the tunnel was opened for is already there, then the requests. A connection made for
  that host is the first in the slot.
\<close>

definition intercept ::
  "('sock, 'conn, 'w) origin_env \<Rightarrow> mitm_error option \<Rightarrow> 'sock option \<Rightarrow> ('net, 'w) mitm_handler
     \<Rightarrow> (string \<times> uri \<times> headers \<times> frame list) list \<Rightarrow> 'w
     \<Rightarrow> (mitm_error + (mitm_error + http_response) list) \<times> 'conn effect list \<times> 'conn pool \<times> 'w" where
  "intercept env client_tls upstream h reqs w =
    (case client_tls of
       Some e \<Rightarrow> (Inl e, [], None, w)
     | None \<Rightarrow>
         (case upstream of
            None \<Rightarrow> (case handle_requests env h reqs None w of (rs, rest) \<Rightarrow> (Inr rs, rest))
          | Some tcp \<Rightarrow>
              (case handshake_tcp env (auth_host (mh_authority h)) tcp w of
                 (Inl e, w') \<Rightarrow> (Inl e, [], None, w')
               | (Inr c, w') \<Rightarrow>
                   (case handle_requests env h reqs (Some (mh_authority h, c)) w' of
                      (rs, rest) \<Rightarrow> (Inr rs, rest)))))"

section \<open>The effects of a request\<close>

fun is_contact :: "'conn effect \<Rightarrow> bool" where
  "is_contact (Dialled _ _) = True"
| "is_contact (Sent _ _ _) = True"
| "is_contact _ = False"

fun contact_authority :: "'conn effect \<Rightarrow> authority option" where
  "contact_authority (Dialled a _) = Some a"
| "contact_authority (Sent _ a _) = Some a"
| "contact_authority _ = None"

fun is_audit :: "'conn effect \<Rightarrow> bool" where
  "is_audit (Audited _) = True"
| "is_audit _ = False"

fun is_count :: "'conn effect \<Rightarrow> bool" where
  "is_count (Counted _ _ _ _) = True"
| "is_count _ = False"

lemma emit_effects [simp]:
  "filter is_contact (emit h cx r a ev st n wd rh) = []"
  "e \<in> set (emit h cx r a ev st n wd rh) \<Longrightarrow> \<not> is_contact e"
  "filter is_audit (emit h cx r a ev st n wd rh) = [Audited (audit_of h cx r a ev st n wd rh)]"
  "filter is_count (emit h cx r a ev st n wd rh) = [Counted (rc_identity cx) (rc_profile cx) (a = ActAllow) wd]"
  by (auto simp: emit_def)

lemma pool_send_effects:
  assumes "pool_send env g a req slot w = (r, effs, slot', w')"
  shows "\<forall>e \<in> set effs. is_contact e \<and> contact_authority e = Some a \<and>
      (\<forall>c b q. e = Sent c b q \<longrightarrow> q = req)"
  using assms by (auto simp: pool_send_def split: option.splits prod.splits sum.splits)

lemma contacts_only [simp]:
  "\<forall>e \<in> set effs. is_contact e \<Longrightarrow> filter is_audit effs = [] \<and> filter is_count effs = []"
  by (induction effs) (auto elim: is_contact.elims)

lemma forward_request_effects:
  assumes "forward_request env h m up oc cx forward slot w = (r, effs, slot', w')"
  shows "\<forall>e \<in> set effs. is_contact e \<longrightarrow> contact_authority e = Some (rc_authority cx) \<and>
      (\<forall>c b q. e = Sent c b q \<longrightarrow> q = outgoing m up cx forward)"
proof -
  obtain res sent slot1 w1 where send:
      "pool_send env (mh_guard h) (rc_authority cx) (outgoing m up cx forward) slot w = (res, sent, slot1, w1)"
    by (metis prod_cases4)
  note sent = pool_send_effects [OF send]
  show ?thesis
  proof (cases res)
    case (Inl e)
    with assms send have "set effs \<subseteq> set sent \<union> {x. \<not> is_contact x}"
      by (cases e) (auto simp: forward_request_def Let_def)
    with sent show ?thesis
      by blast
  next
    case (Inr resp)
    with assms send have "set effs \<subseteq> set sent \<union> {x. \<not> is_contact x}"
      by (auto simp: forward_request_def Let_def split: if_splits prod.splits)
    with sent show ?thesis
      by blast
  qed
qed

text \<open>
  C2 (safety). Nothing outside is touched for a request before it has been allowed: an address is
  dialled or a request sent only after the chain allowed the request, every transform applied and
  no responder took it over; and then only for the authority the transforms left, with exactly the
  request they left, less the headers of the hop.
\<close>

theorem origin_contacted_only_when_allowed:
  assumes "handle_request env h m u hs incoming slot w = (r, effs, slot', w')"
    and "e \<in> set effs" and "is_contact e"
  shows "\<exists>body forward oc w1 cx1 w2 cx2 w3.
    chain_evaluate (oe_layer_us env) (mh_chain h) (request_cx h m u hs body) w = (oc, w1)
    \<and> oc_action oc = ActAllow
    \<and> apply_transforms (mh_request_transforms h) (request_cx h m u hs body) w1 = ((None, cx1), w2)
    \<and> ask_responders (mh_responders h) cx1 w2 = ((NoAnswer, cx2), w3)
    \<and> contact_authority e = Some (rc_authority cx2)
    \<and> frames_data forward = frames_data incoming
    \<and> (\<forall>c a q. e = Sent c a q \<longrightarrow> q = outgoing m (''upgrade'' \<in> set (hdr_keys hs)) cx2 forward)"
proof -
  let ?up = "''upgrade'' \<in> set (hdr_keys hs)"
  obtain body forward where body:
      "materialise incoming (if ?up then StreamBody else request_body_requirement h u) = Inr (body, forward)"
    using assms by (auto simp: handle_request_def Let_def split: sum.splits)
  let ?cx = "request_cx h m u hs body" and ?rpc = "jsonrpc_id (oe_json env) body"
  obtain oc w1 where chain: "chain_evaluate (oe_layer_us env) (mh_chain h) ?cx w = (oc, w1)"
    by fastforce
  have allow: "oc_action oc = ActAllow"
      "allowed_request env h m ?up ?rpc oc ?cx forward slot w1 = (r, effs, slot', w')"
    using assms body chain
    by (cases "oc_action oc"; auto simp: handle_request_def Let_def refuse_def split: if_splits)+
  obtain fail cx1 w2 where trans: "apply_transforms (mh_request_transforms h) ?cx w1 = ((fail, cx1), w2)"
    by (metis prod.exhaust)
  obtain found cx2 w3 where resp: "ask_responders (mh_responders h) cx1 w2 = ((found, cx2), w3)"
    by (metis prod.exhaust)
  have passed: "fail = None" "found = NoAnswer"
      "forward_request env h m ?up oc cx2 forward slot w3 = (r, effs, slot', w')"
    using allow(2) assms(2,3) trans resp
    by (cases fail; cases found; auto simp: allowed_request_def refuse_def)+
  have "frames_data forward = frames_data incoming"
    using materialise_is_exact [OF body] by simp
  moreover have "contact_authority e = Some (rc_authority cx2)"
      "\<forall>c a q. e = Sent c a q \<longrightarrow> q = outgoing m ?up cx2 forward"
    using forward_request_effects [OF passed(3)] assms(2,3) by blast+
  moreover have "apply_transforms (mh_request_transforms h) ?cx w1 = ((None, cx1), w2)"
      "ask_responders (mh_responders h) cx1 w2 = ((NoAnswer, cx2), w3)"
    using trans resp passed(1,2) by simp_all
  ultimately show ?thesis
    using chain allow(1) by blast
qed

lemma audit_of_simps [simp]:
  "ar_identity (audit_of h cx r a ev st n wd rh) = rc_identity cx"
  "ar_profile (audit_of h cx r a ev st n wd rh) = rc_profile cx"
  "ar_action (audit_of h cx r a ev st n wd rh) = a"
  "ar_would_deny (audit_of h cx r a ev st n wd rh) = wd"
  "ar_reason (audit_of h cx r a ev st n wd rh) = r"
  "ar_status_code (audit_of h cx r a ev st n wd rh) = st"
  by (simp_all add: audit_of_def Let_def)

definition recorded_once :: "'conn effect list \<Rightarrow> bool" where
  "recorded_once effs \<longleftrightarrow> (\<exists>rec. filter is_audit effs = [Audited rec] \<and>
     filter is_count effs =
       [Counted (ar_identity rec) (ar_profile rec) (ar_action rec = ActAllow) (ar_would_deny rec)])"

definition recorded :: "mitm_error + http_response \<Rightarrow> 'conn effect list \<Rightarrow> bool" where
  "recorded r effs \<longleftrightarrow> recorded_once effs \<or> (isl r \<and> filter is_audit effs = [] \<and> filter is_count effs = [])"

lemma recorded_emit [simp]:
  "recorded_once (emit h cx r a ev st n wd rh)"
  "recorded_once (emit h cx r a ev st n wd rh @ [Upgraded])"
  by (simp_all add: recorded_once_def)

lemma recorded_once_contacts:
  "\<forall>e \<in> set before. is_contact e \<Longrightarrow> recorded_once (before @ effs) = recorded_once effs"
  using contacts_only [of before] by (simp add: recorded_once_def)

lemma recorded_refuse: "refuse env h rpc cx r ev slot w = (res, effs, rest) \<Longrightarrow> recorded res effs"
  by (auto simp: refuse_def recorded_def)

lemma recorded_forward:
  assumes "forward_request env h m up oc cx forward slot w = (r, effs, slot', w')"
  shows "recorded r effs"
proof -
  obtain res sent slot1 w1 where send:
      "pool_send env (mh_guard h) (rc_authority cx) (outgoing m up cx forward) slot w = (res, sent, slot1, w1)"
    by (metis prod_cases4)
  have contacts: "\<forall>e \<in> set sent. is_contact e"
    using pool_send_effects [OF send] by blast
  note once = recorded_once_contacts [OF contacts]
  show ?thesis
  proof (cases res)
    case (Inl e)
    show ?thesis
    proof (cases "\<exists>message. e = MGuard message")
      case True
      then obtain cx' r' ev n where "effs = sent @ emit h cx' r' ActDeny ev None n False None"
        using assms send Inl by (auto simp add: forward_request_def Let_def)
      then show ?thesis
        by (simp only: recorded_def once recorded_emit simp_thms)
    next
      case False
      then have "effs = sent" "r = Inl e"
        using assms send Inl by (simp_all add: forward_request_def split: mitm_error.splits)
      with contacts_only [OF contacts] show ?thesis
        by (simp only: recorded_def isl_def) simp
    qed
  next
    case (Inr resp)
    with assms send obtain cx' r' ev st n wd rh where
        "effs = sent @ emit h cx' r' ActAllow ev st n wd rh \<or>
         effs = sent @ emit h cx' r' ActAllow ev st n wd rh @ [Upgraded]"
      by (simp add: forward_request_def Let_def split: if_splits prod.splits) metis+
    then show ?thesis
      by (elim disjE) (simp_all only: recorded_def once recorded_emit simp_thms)
  qed
qed

lemma recorded_allowed:
  assumes "allowed_request env h m up rpc oc cx forward slot w = (r, effs, slot', w')"
  shows "recorded r effs"
proof -
  obtain fail cx1 w1 where trans: "apply_transforms (mh_request_transforms h) cx w = ((fail, cx1), w1)"
    by (metis prod.exhaust)
  obtain found cx2 w2 where resp: "ask_responders (mh_responders h) cx1 w1 = ((found, cx2), w2)"
    by (metis prod.exhaust)
  show ?thesis
  proof (cases fail)
    case None
    show ?thesis
    proof (cases found)
      case NoAnswer
      with assms trans resp None show ?thesis
        by (simp add: allowed_request_def recorded_forward)
    next
      case Answered
      with assms trans resp None show ?thesis
        by (auto simp: allowed_request_def recorded_def)
    next
      case ResponderFailed
      with assms trans resp None show ?thesis
        by (simp add: allowed_request_def recorded_refuse)
    qed
  next
    case (Some f)
    with assms trans show ?thesis
      by (cases f) (simp add: allowed_request_def recorded_refuse)
  qed
qed

lemma recorded_request:
  assumes "handle_request env h m u hs incoming slot w = (r, effs, slot', w')"
  shows "recorded r effs"
proof -
  let ?up = "''upgrade'' \<in> set (hdr_keys hs)"
  obtain res where res: "materialise incoming (if ?up then StreamBody else request_body_requirement h u) = res"
    by simp
  show ?thesis
  proof (cases res)
    case (Inl e)
    with assms res show ?thesis
      by (auto simp: handle_request_def Let_def recorded_def)
  next
    case (Inr bf)
    obtain body forward where bf: "bf = (body, forward)"
      by fastforce
    obtain oc w1 where "chain_evaluate (oe_layer_us env) (mh_chain h) (request_cx h m u hs body) w = (oc, w1)"
      by fastforce
    with assms res Inr bf show ?thesis
      by (auto simp: handle_request_def Let_def recorded_allowed recorded_refuse split: if_splits)
  qed
qed

text \<open>
  C4 (invariant). The counters and the audit trail agree, and no answer goes unrecorded: a request
  that is answered leaves exactly one count and exactly one record, of the same identity, profile,
  action and warning; a request that fails without an answer leaves at most one.
\<close>

theorem every_answer_is_recorded_once:
  "case handle_request env h m u hs incoming slot w of (r, effs, _) \<Rightarrow> recorded r effs"
  using recorded_request by (auto split: prod.split)

section \<open>Which connections a tunnel uses\<close>

text \<open>
  A connection is opened for an authority when the guard connected the socket for it and the
  handshake named its host. The slot of a tunnel is empty or holds such a connection, by what
  \<open>intercept\<close> puts there at first and by every request after it.
\<close>

definition opened_for ::
  "('sock, 'conn, 'w) origin_env \<Rightarrow> 'net guard \<Rightarrow> authority \<Rightarrow> 'conn \<Rightarrow> bool" where
  "opened_for env g a c \<longleftrightarrow> (\<exists>w0 tcp tried w1 w2 w3.
     guard_socket env g a w0 = (Inr tcp, tried, w1) \<and>
     handshake_tcp env (auth_host a) tcp w2 = (Inr c, w3))"

definition pool_ok ::
  "('sock, 'conn, 'w) origin_env \<Rightarrow> 'net guard \<Rightarrow> 'conn pool \<Rightarrow> bool" where
  "pool_ok env g slot \<longleftrightarrow> (case slot of None \<Rightarrow> True | Some (a, c) \<Rightarrow> opened_for env g a c)"

fun effect_ok :: "('sock, 'conn, 'w) origin_env \<Rightarrow> 'net guard \<Rightarrow> 'conn effect \<Rightarrow> bool" where
  "effect_ok env g (Dialled a tried) = (\<forall>x \<in> set tried. guard_check g (sa_ip x) = None)"
| "effect_ok env g (Sent c a req) = opened_for env g a c"
| "effect_ok env g _ = True"

lemma effect_ok_emit [simp]:
  "\<forall>e \<in> set (emit h cx r a ev st n wd rh). effect_ok env g e"
  by (simp add: emit_def)

lemma guard_socket_checked:
  assumes "guard_socket env g a w = (r, tried, w')" and "x \<in> set tried"
  shows "guard_check g (sa_ip x) = None"
proof -
  obtain res where "guard_connect (net_env.truncate env) g a w = (res, tried, w')"
    using assms(1) by (auto simp: guard_socket_def split: prod.splits)
  moreover obtain r1 tried1 w1 where one: "try_connect (net_env.truncate env) g a w = (r1, tried1, w1)"
    by (metis prod_cases3)
  moreover obtain r2 tried2 w2 where two: "try_connect (net_env.truncate env) g a w1 = (r2, tried2, w2)"
    by (metis prod_cases3)
  ultimately have "tried = tried1 \<or> tried = tried1 @ tried2"
    by (auto simp: guard_connect_def split: option.splits sum.splits if_splits)
  with assms(2) try_connect_checked [OF one] try_connect_checked [OF two] show ?thesis
    by auto blast+
qed

lemma handshake_origin_cases:
  assumes "handshake_origin env g a w = (r, tried, w')"
  shows "(\<forall>x \<in> set tried. guard_check g (sa_ip x) = None) \<and>
    (\<forall>c. r = Inr c \<longrightarrow> opened_for env g a c)"
proof -
  obtain res tried0 w1 where sock: "guard_socket env g a w = (res, tried0, w1)"
    by (metis prod_cases3)
  with assms have "tried0 = tried"
    by (auto simp: handshake_origin_def split: sum.splits prod.splits)
  moreover have "opened_for env g a c" if "r = Inr c" for c
    using assms sock that
    by (auto simp: handshake_origin_def opened_for_def split: sum.splits prod.splits)
  ultimately show ?thesis
    using guard_socket_checked [OF sock] by blast
qed

lemma pool_send_ok:
  assumes "pool_send env g a req slot w = (r, effs, slot', w')" and "pool_ok env g slot"
  shows "pool_ok env g slot' \<and> (\<forall>e \<in> set effs. effect_ok env g e)"
proof (cases "pooled env slot a w")
  case (Some c)
  then have "slot = Some (a, c)"
    by (auto simp: pooled_def split: option.splits if_splits)
  with assms Some show ?thesis
    by (auto simp: pool_send_def pool_ok_def split: prod.splits)
next
  case None
  obtain res tried w1 where shake: "handshake_origin env g a w = (res, tried, w1)"
    by (metis prod_cases3)
  note ok = handshake_origin_cases [OF shake]
  show ?thesis
  proof (cases res)
    case (Inl e)
    with assms None shake ok show ?thesis
      by (auto simp: pool_send_def)
  next
    case (Inr c)
    with ok have "opened_for env g a c"
      by blast
    with assms None shake Inr ok show ?thesis
      by (auto simp: pool_send_def pool_ok_def split: prod.splits)
  qed
qed

lemma pool_kept:
  assumes "handle_request env h m u hs incoming slot w = (r, effs, slot', w')"
    and "pool_ok env (mh_guard h) slot"
  shows "pool_ok env (mh_guard h) slot' \<and> (\<forall>e \<in> set effs. effect_ok env (mh_guard h) e)"
proof -
  let ?ok = "\<lambda>effs slot'. pool_ok env (mh_guard h) slot' \<and> (\<forall>e \<in> set effs. effect_ok env (mh_guard h) e)"
  have refused: "?ok effs slot'" if "refuse env h rpc cx rs ev slot w1 = (r, effs, slot', w')" for rpc cx rs ev w1
    using that assms(2) by (auto simp: refuse_def)
  have forwarded: "?ok effs slot'"
    if "forward_request env h m up oc cx forward slot w1 = (r, effs, slot', w')" for up oc cx forward w1
  proof -
    obtain res sent slot1 w2 where send: "pool_send env (mh_guard h) (rc_authority cx)
        (outgoing m up cx forward) slot w1 = (res, sent, slot1, w2)"
      by (metis prod_cases4)
    have "slot' = slot1 \<and> (\<exists>rest. effs = sent @ rest \<and> (\<forall>e \<in> set rest. effect_ok env (mh_guard h) e))"
      using that send
      by (auto simp: forward_request_def Let_def split: sum.splits mitm_error.splits if_splits prod.splits)
    with pool_send_ok [OF send assms(2)] show ?thesis
      by auto
  qed
  have allowed: "?ok effs slot'"
    if "allowed_request env h m up rpc oc cx forward slot w1 = (r, effs, slot', w')" for up rpc oc cx forward w1
  proof -
    obtain fail cx1 w2 where trans: "apply_transforms (mh_request_transforms h) cx w1 = ((fail, cx1), w2)"
      by (metis prod.exhaust)
    obtain found cx2 w3 where resp: "ask_responders (mh_responders h) cx1 w2 = ((found, cx2), w3)"
      by (metis prod.exhaust)
    show ?thesis
    proof (cases fail)
      case None
      with that trans resp assms(2) show ?thesis
        by (cases found) (auto simp: allowed_request_def dest: refused forwarded)
    next
      case (Some f)
      with that trans show ?thesis
        by (cases f) (simp add: allowed_request_def refused)
    qed
  qed
  show ?thesis
  proof (cases "materialise incoming
      (if ''upgrade'' \<in> set (hdr_keys hs) then StreamBody else request_body_requirement h u)")
    case (Inl e)
    with assms show ?thesis
      by (auto simp: handle_request_def Let_def)
  next
    case (Inr bf)
    obtain body forward where bf: "bf = (body, forward)"
      by fastforce
    obtain oc w1 where "chain_evaluate (oe_layer_us env) (mh_chain h) (request_cx h m u hs body) w = (oc, w1)"
      by fastforce
    with assms(1) Inr bf show ?thesis
      by (simp add: handle_request_def Let_def allowed refused split: if_splits)
  qed
qed

lemma pool_kept_over_requests:
  assumes "handle_requests env h reqs slot w = (rs, effs, slot', w')"
    and "pool_ok env (mh_guard h) slot"
  shows "pool_ok env (mh_guard h) slot' \<and> (\<forall>e \<in> set effs. effect_ok env (mh_guard h) e)"
  using assms
proof (induction reqs arbitrary: slot w rs effs)
  case (Cons req reqs)
  obtain m u hs body where req: "req = (m, u, hs, body)"
    by (metis prod_cases4)
  obtain r effs1 slot1 w1 where one: "handle_request env h m u hs body slot w = (r, effs1, slot1, w1)"
    by (metis prod_cases4)
  obtain rs2 effs2 slot2 w2 where two: "handle_requests env h reqs slot1 w1 = (rs2, effs2, slot2, w2)"
    by (metis prod_cases4)
  from Cons.prems(1) req one two have "effs = effs1 @ effs2" "slot' = slot2" "w' = w2"
    by auto
  with pool_kept [OF one Cons.prems(2)] Cons.IH [of slot1 w1 rs2 effs2] two show ?case
    by auto
qed simp

text \<open>
  C5 (invariant). A tunnel never talks to a host under another's name or past the guard: over any
  sequence of requests, whatever the transforms retarget, a request for an authority is sent only
  on a connection that the guard opened for that authority with a handshake for its host, and
  every address dialled on the way had passed the guard's check. This needs of the caller only that
  a socket it hands over is one the guard opened for the tunnel's own authority.
\<close>

theorem tunnel_keeps_to_guarded_origins:
  assumes "intercept env client_tls upstream h reqs w = (rs, effs, slot, w')"
    and "\<forall>tcp. upstream = Some tcp \<longrightarrow>
      (\<exists>w0 tried w1. guard_socket env (mh_guard h) (mh_authority h) w0 = (Inr tcp, tried, w1))"
  shows "pool_ok env (mh_guard h) slot \<and> (\<forall>e \<in> set effs. effect_ok env (mh_guard h) e)"
proof (cases "client_tls = None \<and> upstream = None")
  case True
  with assms(1) obtain rs' where "handle_requests env h reqs None w = (rs', effs, slot, w')"
    by (auto simp: intercept_def split: prod.splits)
  from pool_kept_over_requests [OF this] show ?thesis
    by (simp add: pool_ok_def)
next
  case False
  show ?thesis
  proof (cases "effs = [] \<and> slot = None")
    case None: False
    with assms(1) False obtain tcp c w1 rs' where tcp: "upstream = Some tcp"
        and shake: "handshake_tcp env (auth_host (mh_authority h)) tcp w = (Inr c, w1)"
        and run: "handle_requests env h reqs (Some (mh_authority h, c)) w1 = (rs', effs, slot, w')"
      by (auto simp: intercept_def split: option.splits prod.splits sum.splits)
    from assms(2) tcp shake have "opened_for env (mh_guard h) (mh_authority h) c"
      by (auto simp: opened_for_def)
    with pool_kept_over_requests [OF run] show ?thesis
      by (simp add: pool_ok_def)
  qed (simp add: pool_ok_def)
qed

section \<open>A tunnel at work\<close>

definition sample_origin :: "(nat, nat, nat) origin_env" where
  "sample_origin =
     \<lparr>ne_lookup = (\<lambda>_ _ w. (Inr [\<lparr>sa_ip = V4 93 184 216 34, sa_port = 443\<rparr>], w)),
      ne_connect = (\<lambda>_ w. (Inr w, w + 1)), oe_server_name_ok = (\<lambda>_. True),
      oe_tls = (\<lambda>_ tcp w. (Inr tcp, w)), oe_ready = (\<lambda>_ _. True),
      oe_exchange = (\<lambda>_ _ w. (Inr \<lparr>hr_status = 200, hr_headers = [], hr_body = []\<rparr>, w)),
      oe_json = \<lparr>jl_parse = (\<lambda>_. None), jl_error = (\<lambda>_. []), jl_show = (\<lambda>_. [])\<rparr>,
      oe_pretty = (\<lambda>_. []), oe_header_name = Some, oe_layer_us = (\<lambda>_. 0), oe_elapsed_ms = (\<lambda>_. 0)\<rparr>"

definition sample_handler :: "decision \<Rightarrow> (unit, nat) mitm_handler" where
  "sample_handler d =
     \<lparr>mh_chain = chain_new ''p'' [] d denying_decider,
      mh_authority = \<lparr>auth_host = ''example.com'', auth_port = 443\<rparr>, mh_ingress = Explicit,
      mh_identity = ''agent'', mh_profile = ''p'',
      mh_client_addr = \<lparr>sa_ip = V4 127 0 0 1, sa_port = 1\<rparr>, mh_request_transforms = [],
      mh_responders = [], mh_response_transforms = [], mh_attributed = True, mh_resolver = None,
      mh_guard = \<lparr>gd_net = \<lparr>net_parse = (\<lambda>_. None), net_contains = (\<lambda>_ _. False), net_show = (\<lambda>_. [])\<rparr>,
        gd_deny = [], gd_allow_private = False\<rparr>\<rparr>"

abbreviation sample_run where
  "sample_run d \<equiv> handle_request sample_origin (sample_handler d) ''GET''
     \<lparr>uri_path = ''/'', uri_query = None\<rparr> [] [] None 0"

lemma sample_guard_socket:
  "guard_socket sample_origin (mh_guard (sample_handler d)) \<lparr>auth_host = ''example.com'', auth_port = 443\<rparr> 0 =
     (Inr 0, [\<lparr>sa_ip = V4 93 184 216 34, sa_port = 443\<rparr>], 1)"
  unfolding sample_handler_def by code_simp

lemma sample_outgoing:
  "outgoing ''GET'' False (request_cx (sample_handler d) ''GET'' \<lparr>uri_path = ''/'', uri_query = None\<rparr> [] Streaming) [] =
     \<lparr>uq_method = ''GET'', uq_uri = \<lparr>uri_path = ''/'', uri_query = None\<rparr>,
      uq_headers = [(''host'', [''example.com''])], uq_body = []\<rparr>"
  unfolding sample_handler_def by code_simp

lemma sample_run_effects:
  "\<exists>r ev rest slot w. sample_run DecAllow =
    (r, [Dialled \<lparr>auth_host = ''example.com'', auth_port = 443\<rparr> [\<lparr>sa_ip = V4 93 184 216 34, sa_port = 443\<rparr>],
      Sent 0 \<lparr>auth_host = ''example.com'', auth_port = 443\<rparr>
        \<lparr>uq_method = ''GET'', uq_uri = \<lparr>uri_path = ''/'', uri_query = None\<rparr>,
         uq_headers = [(''host'', [''example.com''])], uq_body = []\<rparr>] @ rest, slot, w)"
proof -
  let ?h = "sample_handler DecAllow"
  have "mh_request_transforms ?h = []" "mh_responders ?h = []" "mh_response_transforms ?h = []"
    "ch_layers (mh_chain ?h) = []" "mh_authority ?h = \<lparr>auth_host = ''example.com'', auth_port = 443\<rparr>"
    by (simp_all add: sample_handler_def chain_new_def)
  moreover have "oc_action (by_default (mh_chain ?h) ev) = ActAllow" for ev
    by (simp add: sample_handler_def chain_new_def by_default_def terminate_def)
  moreover have "oe_server_name_ok sample_origin = (\<lambda>_. True)" "oe_tls sample_origin = (\<lambda>_ tcp w. (Inr tcp, w))"
    "oe_exchange sample_origin = (\<lambda>_ _ w. (Inr \<lparr>hr_status = 200, hr_headers = [], hr_body = []\<rparr>, w))"
    by (simp_all add: sample_origin_def)
  ultimately show ?thesis
    using sample_guard_socket [of DecAllow] sample_outgoing [of DecAllow]
    by (simp add: handle_request_def hdr_keys_def materialise_def request_body_requirement_def chain_body_requirement_def
        chain_evaluate_def allowed_request_def forward_request_def pool_send_def pooled_def handshake_origin_def
        handshake_tcp_def exchange_def Let_def answer_def request_cx_def split: prod.splits)
qed

theorem origin_contacted_only_when_allowed_witness:
  "\<exists>e oc w1 body. e \<in> set (fst (snd (sample_run DecAllow))) \<and> is_contact e
    \<and> chain_evaluate (oe_layer_us sample_origin) (mh_chain (sample_handler DecAllow))
        (request_cx (sample_handler DecAllow) ''GET'' \<lparr>uri_path = ''/'', uri_query = None\<rparr> [] body) 0 = (oc, w1)
    \<and> oc_action oc = ActAllow"
proof -
  obtain r effs slot w e where run: "sample_run DecAllow = (r, effs, slot, w)" "e \<in> set effs" "is_contact e"
    using sample_run_effects by fastforce
  from origin_contacted_only_when_allowed [OF run] run show ?thesis
    by auto
qed

theorem tunnel_keeps_to_guarded_origins_witness:
  "\<exists>rs effs slot w. intercept sample_origin None None (sample_handler DecAllow)
      [(''GET'', \<lparr>uri_path = ''/'', uri_query = None\<rparr>, [], [])] 0 = (rs, effs, slot, w)
    \<and> Dialled \<lparr>auth_host = ''example.com'', auth_port = 443\<rparr> [\<lparr>sa_ip = V4 93 184 216 34, sa_port = 443\<rparr>] \<in> set effs
    \<and> guard_check (mh_guard (sample_handler DecAllow)) (V4 93 184 216 34) = None"
proof -
  let ?h = "sample_handler DecAllow"
  obtain rs effs slot w where run: "intercept sample_origin None None ?h
      [(''GET'', \<lparr>uri_path = ''/'', uri_query = None\<rparr>, [], [])] 0 = (rs, effs, slot, w)"
    by (metis prod_cases4)
  have dialled: "Dialled \<lparr>auth_host = ''example.com'', auth_port = 443\<rparr>
      [\<lparr>sa_ip = V4 93 184 216 34, sa_port = 443\<rparr>] \<in> set effs"
    using run sample_run_effects by (auto simp: intercept_def split: prod.splits)
  from tunnel_keeps_to_guarded_origins [OF run] dialled run show ?thesis
    by (intro exI [of _ rs] exI [of _ effs] exI [of _ slot] exI [of _ w]) force
qed

text \<open>
  An allowed request whose exchange with the origin fails after it was sent is not recorded at
  all, nor is one whose own body cannot be read.
\<close>

lemma failed_exchange_is_not_recorded:
  assumes "pooled env slot a w = Some c" and "oe_exchange env c (outgoing m up cx forward) w = (Inl e, w')"
    and "a = rc_authority cx"
  shows "forward_request env h m up oc cx forward slot w =
    (Inl (MHttp e), [Sent c a (outgoing m up cx forward)], slot, w')"
  using assms by (simp add: forward_request_def pool_send_def exchange_def)

lemma unread_body_is_not_recorded:
  assumes "materialise incoming (if ''upgrade'' \<in> set (hdr_keys hs) then StreamBody else request_body_requirement h u) = Inl e"
  shows "handle_request env h m u hs incoming slot w = (Inl (MHttp e), [], slot, w)"
  using assms by (simp add: handle_request_def Let_def)

section \<open>Whose request it is\<close>

text \<open>
  What the records of a tunnel rely on in a transform or a responder: it may rewrite a request, but
  leaves alone whose it is and what was recorded of it before.
\<close>

locale request_rewriter =
  fixes rewrite :: "request_context \<Rightarrow> 'w \<Rightarrow> ('e \<times> request_context) \<times> 'w"
  assumes keeps_owner: "rewrite cx w = ((e, cx'), w') \<Longrightarrow>
      rc_identity cx' = rc_identity cx \<and> rc_profile cx' = rc_profile cx \<and> rc_ingress cx' = rc_ingress cx"
    and keeps_evidence: "rewrite cx w = ((e, cx'), w') \<Longrightarrow> ev_le (rc_evidence cx) (rc_evidence cx')"
begin

lemma keeps_facts:
  "rewrite cx w = ((e, cx'), w') \<Longrightarrow> facts (rc_evidence cx) k = Some v \<Longrightarrow> facts (rc_evidence cx') k = Some v"
  using keeps_evidence ev_le_fact by blast

end

text \<open>The transforms of the sources under this contract: header filters, set headers, the router.\<close>

definition plain_xform :: "request_transform \<Rightarrow> 'w request_xform" where
  "plain_xform t =
     \<lparr>rx_name = (case t of RtFilter _ \<Rightarrow> ''filter_request_headers'' | RtSet _ \<Rightarrow> ''set_request_headers''),
      rx_requirement = (\<lambda>_ _. StreamBody), rx_defers = (\<lambda>_. False),
      rx_apply = (\<lambda>cx w. ((None, apply_request_transform t cx), w))\<rparr>"

definition router_xform ::
  "json_lib \<Rightarrow> (string \<Rightarrow> string + uri) \<Rightarrow> llm_router_config \<Rightarrow> 'w request_xform" where
  "router_xform js parse_uri config =
     \<lparr>rx_name = ''llm_router'', rx_requirement = request_requirement_for config,
      rx_defers = defers_connect config,
      rx_apply = (\<lambda>cx w. (router_apply_request js parse_uri config cx, w))\<rparr>"

lemma router_keeps_request:
  assumes "router_apply_request js parse_uri config cx = (e, cx')"
  shows "rc_identity cx' = rc_identity cx \<and> rc_profile cx' = rc_profile cx \<and>
    rc_ingress cx' = rc_ingress cx \<and> ev_le (rc_evidence cx) (rc_evidence cx')"
  using assms
  by (auto simp: router_apply_request_def route_to_def request_bytes_def Let_def ev_le_route_facts
      split: option.splits sum.splits body_handle.splits llm_unmapped.splits)

interpretation plain: request_rewriter "rx_apply (plain_xform t)" for t
proof (rule request_rewriter.intro)
  fix cx cx' :: request_context and w w' :: 'w and e
  assume "rx_apply (plain_xform t) cx w = ((e, cx'), w')"
  then have cx': "cx' = apply_request_transform t cx"
    by (simp add: plain_xform_def)
  show "rc_identity cx' = rc_identity cx \<and> rc_profile cx' = rc_profile cx \<and> rc_ingress cx' = rc_ingress cx"
    by (cases t) (simp_all add: cx' request_header_filter_def set_request_headers_def)
  show "ev_le (rc_evidence cx) (rc_evidence cx')"
    by (cases t) (simp_all add: cx' request_header_filter_def set_request_headers_def)
qed

interpretation router: request_rewriter "rx_apply (router_xform js parse_uri config)" for js parse_uri config
  by (rule request_rewriter.intro) (auto simp: router_xform_def dest: router_keeps_request)

lemma apply_transforms_rewriter:
  assumes "\<forall>t \<in> set ts. request_rewriter (rx_apply t)"
  shows "request_rewriter (apply_transforms ts)"
proof -
  have keeps: "rc_identity cx' = rc_identity cx \<and> rc_profile cx' = rc_profile cx \<and>
      rc_ingress cx' = rc_ingress cx \<and> ev_le (rc_evidence cx) (rc_evidence cx')"
    if "apply_transforms ts cx w = ((e, cx'), w')" for cx w e cx' w'
    using assms that
  proof (induction ts arbitrary: cx w)
    case (Cons t ts)
    obtain e1 cx1 w1 where one: "rx_apply t cx w = ((e1, cx1), w1)"
      by (metis prod.exhaust)
    from Cons.prems(1) have t: "request_rewriter (rx_apply t)"
      by simp
    note kept = request_rewriter.keeps_owner [OF t one] request_rewriter.keeps_evidence [OF t one]
    show ?case
    proof (cases e1)
      case None
      with Cons.prems one have rest: "apply_transforms ts cx1 w1 = ((e, cx'), w')"
        by simp
      from Cons.IH [OF _ rest] Cons.prems(1) kept show ?thesis
        by (auto intro: ev_le_trans)
    qed (use Cons.prems one kept in auto)
  qed simp
  show ?thesis
    by (rule request_rewriter.intro) (use keeps in blast)+
qed

lemma ask_responders_rewriter:
  assumes "\<forall>r \<in> set rs. request_rewriter (rd_respond r)"
  shows "request_rewriter (ask_responders rs)"
proof -
  have keeps: "rc_identity cx' = rc_identity cx \<and> rc_profile cx' = rc_profile cx \<and>
      rc_ingress cx' = rc_ingress cx \<and> ev_le (rc_evidence cx) (rc_evidence cx')"
    if "ask_responders rs cx w = ((e, cx'), w')" for cx w e cx' w'
    using assms that
  proof (induction rs arbitrary: cx w)
    case (Cons r rs)
    obtain e1 cx1 w1 where one: "rd_respond r cx w = ((e1, cx1), w1)"
      by (metis prod.exhaust)
    from Cons.prems(1) have r: "request_rewriter (rd_respond r)"
      by simp
    note kept = request_rewriter.keeps_owner [OF r one] request_rewriter.keeps_evidence [OF r one]
    show ?case
    proof (cases "e1 = Inr None")
      case True
      with Cons.prems one have rest: "ask_responders rs cx1 w1 = ((e, cx'), w')"
        by simp
      from Cons.IH [OF _ rest] Cons.prems(1) kept show ?thesis
        by (auto intro: ev_le_trans)
    next
      case False
      with Cons.prems one have "cx' = cx1"
        by (auto split: sum.splits option.splits)
      with kept show ?thesis
        by simp
    qed
  qed simp
  show ?thesis
    by (rule request_rewriter.intro) (use keeps in blast)+
qed

section \<open>Whose record it is\<close>

definition owned_by :: "('net, 'w) mitm_handler \<Rightarrow> request_context \<Rightarrow> bool" where
  "owned_by h cx \<longleftrightarrow> rc_identity cx = mh_identity h \<and> rc_profile cx = mh_profile h \<and> rc_ingress cx = mh_ingress h"

lemma owned_by_request_cx [simp]: "owned_by h (request_cx h m u hs body)"
  by (simp add: owned_by_def request_cx_def)

lemma owned_by_rewritten:
  "request_rewriter f \<Longrightarrow> f cx w = ((e, cx'), w') \<Longrightarrow> owned_by h cx \<Longrightarrow> owned_by h cx'"
  using request_rewriter.keeps_owner [of f cx w e cx' w'] by (simp add: owned_by_def)

definition record_of :: "('net, 'w) mitm_handler \<Rightarrow> evidence \<Rightarrow> audit_record \<Rightarrow> bool" where
  "record_of h ev rec \<longleftrightarrow> (\<exists>cx r act st n wd rh. owned_by h cx \<and> rec = audit_of h cx r act ev st n wd rh)"

lemma record_of_emit:
  "Audited rec \<in> set (emit h cx r act ev st n wd rh) \<Longrightarrow> owned_by h cx \<Longrightarrow> record_of h ev rec"
  by (simp add: emit_def record_of_def) blast

lemma record_of_forward:
  assumes "forward_request env h m up oc cx forward slot w = (r, effs, slot', w')"
    and "Audited rec \<in> set effs" and "owned_by h cx"
  shows "record_of h (oc_evidence oc) rec"
proof -
  obtain res sent slot1 w1 where send:
      "pool_send env (mh_guard h) (rc_authority cx) (outgoing m up cx forward) slot w = (res, sent, slot1, w1)"
    by (metis prod_cases4)
  have "Audited rec \<notin> set sent"
    using pool_send_effects [OF send] by auto
  with assms send show ?thesis
    by (auto simp: forward_request_def Let_def dest!: record_of_emit
        split: sum.splits mitm_error.splits if_splits prod.splits)
qed

lemma record_of_allowed:
  assumes "allowed_request env h m up rpc oc cx forward slot w = (r, effs, slot', w')"
    and "Audited rec \<in> set effs" and "owned_by h cx"
    and "request_rewriter (apply_transforms (mh_request_transforms h))"
    and "request_rewriter (ask_responders (mh_responders h))"
  shows "record_of h (oc_evidence oc) rec"
proof -
  obtain fail cx1 w1 where trans: "apply_transforms (mh_request_transforms h) cx w = ((fail, cx1), w1)"
    by (metis prod.exhaust)
  obtain found cx2 w2 where resp: "ask_responders (mh_responders h) cx1 w1 = ((found, cx2), w2)"
    by (metis prod.exhaust)
  have own: "owned_by h cx1" "owned_by h cx2"
    using owned_by_rewritten [OF assms(4) trans assms(3)] owned_by_rewritten [OF assms(5) resp] by simp_all
  show ?thesis
  proof (cases fail)
    case None
    with assms(1,2) trans resp own show ?thesis
      by (cases found) (auto simp: allowed_request_def refuse_def dest: record_of_emit record_of_forward)
  next
    case (Some f)
    with assms(1,2) trans own show ?thesis
      by (cases f) (auto simp: allowed_request_def refuse_def dest: record_of_emit)
  qed
qed

lemma record_of_fields:
  assumes "record_of h ev rec"
  shows "ar_identity rec = mh_identity h" and "ar_profile rec = mh_profile h"
    and "ar_ingress rec = ingress_str (mh_ingress h)" and "ar_attributed rec = mh_attributed h"
    and "prefix (trail ev) (ar_trail rec)"
  using assms by (auto simp: record_of_def owned_by_def audit_of_def Let_def absorb_def)

text \<open>
  C3 (invariant). A record is about the client that the tunnel was attributed to, and shows how the
  request was decided: whatever the transforms and responders do within their contract, every
  record of a request carries the tunnel's identity, profile, ingress and attribution, and its trail
  begins with the trail of the policy chain's decision on that very request.
\<close>

theorem record_names_owner_and_decision:
  assumes "handle_request env h m u hs incoming slot w = (r, effs, slot', w')"
    and "Audited rec \<in> set effs"
    and "\<forall>t \<in> set (mh_request_transforms h). request_rewriter (rx_apply t)"
    and "\<forall>t \<in> set (mh_responders h). request_rewriter (rd_respond t)"
  shows "ar_identity rec = mh_identity h \<and> ar_profile rec = mh_profile h \<and>
    ar_ingress rec = ingress_str (mh_ingress h) \<and> ar_attributed rec = mh_attributed h \<and>
    (\<exists>body forward oc w1.
       materialise incoming (if ''upgrade'' \<in> set (hdr_keys hs) then StreamBody else request_body_requirement h u)
         = Inr (body, forward) \<and>
       chain_evaluate (oe_layer_us env) (mh_chain h) (request_cx h m u hs body) w = (oc, w1) \<and>
       prefix (trail (oc_evidence oc)) (ar_trail rec))"
proof -
  obtain body forward where body: "materialise incoming
      (if ''upgrade'' \<in> set (hdr_keys hs) then StreamBody else request_body_requirement h u) = Inr (body, forward)"
    using assms(1,2) by (auto simp: handle_request_def Let_def split: sum.splits)
  obtain oc w1 where chain:
      "chain_evaluate (oe_layer_us env) (mh_chain h) (request_cx h m u hs body) w = (oc, w1)"
    by fastforce
  have "record_of h (oc_evidence oc) rec"
    using assms(1,2) body chain apply_transforms_rewriter [OF assms(3)] ask_responders_rewriter [OF assms(4)]
    by (auto simp: handle_request_def Let_def refuse_def split: if_splits
        dest: record_of_emit record_of_allowed)
  from record_of_fields [OF this] body chain show ?thesis
    by blast
qed

lemma sample_refused:
  "\<exists>r rec slot w. sample_run DecDeny = (r, [Counted ''agent'' ''p'' False False, Audited rec], slot, w)"
proof -
  let ?h = "sample_handler DecDeny"
  have "mh_request_transforms ?h = []" "mh_responders ?h = []" "ch_layers (mh_chain ?h) = []"
    "mh_identity ?h = ''agent''" "mh_profile ?h = ''p''"
    by (simp_all add: sample_handler_def chain_new_def)
  moreover have "oc_action (by_default (mh_chain ?h) ev) = ActDeny" for ev
    by (simp add: sample_handler_def chain_new_def by_default_def terminate_def)
  ultimately show ?thesis
    by (simp add: handle_request_def hdr_keys_def materialise_def request_body_requirement_def chain_body_requirement_def
        chain_evaluate_def refuse_def Let_def request_cx_def emit_def split: prod.splits)
qed

theorem record_names_owner_and_decision_witness:
  "\<exists>rec. Audited rec \<in> set (fst (snd (sample_run DecDeny))) \<and> ar_identity rec = ''agent'' \<and>
    ar_profile rec = ''p'' \<and> ar_ingress rec = ''explicit''"
proof -
  obtain r rec slot w where run:
      "sample_run DecDeny = (r, [Counted ''agent'' ''p'' False False, Audited rec], slot, w)"
    using sample_refused by blast
  have rec: "Audited rec \<in> set [Counted ''agent'' ''p'' False False, Audited rec]"
    by simp
  have "ar_identity rec = mh_identity (sample_handler DecDeny) \<and>
      ar_profile rec = mh_profile (sample_handler DecDeny) \<and>
      ar_ingress rec = ingress_str (mh_ingress (sample_handler DecDeny))"
    using record_names_owner_and_decision [OF run rec] by (simp add: sample_handler_def)
  with run show ?thesis
    by (intro exI [of _ rec]) (simp add: sample_handler_def)
qed

end
