(* ===== verification/Stats.thy ===== *)
theory Stats
  imports Intercept
begin

text \<open>
  The request counters of \<open>crates/marshal-proxy/src/stats.rs\<close>. The two hash maps are association lists
  kept sorted by key; the code sorts the rows it makes of them. A counter is a \<open>u64\<close> and wraps.
\<close>

section \<open>Counters\<close>

record counters =
  ct_allowed :: u64
  ct_denied :: u64
  ct_would_deny :: u64

definition no_counts :: counters where
  "no_counts = \<lparr>ct_allowed = 0, ct_denied = 0, ct_would_deny = 0\<rparr>"

type_synonym counter_map = "(string \<times> counters) list"

record identity_stats =
  st_identities :: counter_map
  st_profiles :: counter_map

definition stats_new :: identity_stats where
  "stats_new = \<lparr>st_identities = [], st_profiles = []\<rparr>"

record row =
  rw_key :: string
  rw_allowed :: u64
  rw_denied :: u64
  rw_would_deny :: u64

definition count_one :: "bool \<Rightarrow> bool \<Rightarrow> counters \<Rightarrow> counters" where
  "count_one allowed would_deny c =
    (let c1 = (if allowed then c\<lparr>ct_allowed := ct_allowed c + 1\<rparr> else c\<lparr>ct_denied := ct_denied c + 1\<rparr>) in
     if would_deny then c1\<lparr>ct_would_deny := ct_would_deny c1 + 1\<rparr> else c1)"

definition counter_entry :: "counter_map \<Rightarrow> string \<Rightarrow> counters" where
  "counter_entry m key = (case map_of m key of Some c \<Rightarrow> c | None \<Rightarrow> no_counts)"

definition stats_record :: "string \<Rightarrow> string \<Rightarrow> bool \<Rightarrow> bool \<Rightarrow> identity_stats \<Rightarrow> identity_stats" where
  "stats_record identity profile allowed would_deny st =
     \<lparr>st_identities = map_insert identity
        (count_one allowed would_deny (counter_entry (st_identities st) identity)) (st_identities st),
      st_profiles = map_insert profile
        (count_one allowed would_deny (counter_entry (st_profiles st) profile)) (st_profiles st)\<rparr>"

definition counter_rows :: "counter_map \<Rightarrow> row list" where
  "counter_rows m =
     sort_key rw_key (map (\<lambda>(k, c).
       \<lparr>rw_key = k, rw_allowed = ct_allowed c, rw_denied = ct_denied c, rw_would_deny = ct_would_deny c\<rparr>) m)"

definition by_identity :: "identity_stats \<Rightarrow> row list" where
  "by_identity st = counter_rows (st_identities st)"

definition by_profile :: "identity_stats \<Rightarrow> row list" where
  "by_profile st = counter_rows (st_profiles st)"

section \<open>The metrics page\<close>

definition replace_char :: "char \<Rightarrow> string \<Rightarrow> string \<Rightarrow> string" where
  "replace_char c by s = concat (map (\<lambda>x. if x = c then by else [x]) s)"

definition escape_label :: "string \<Rightarrow> string" where
  "escape_label value =
     replace_char (CHR 0x0A) [CHR 0x5C, CHR ''n'']
       (replace_char (CHR 0x22) [CHR 0x5C, CHR 0x22]
         (replace_char (CHR 0x5C) [CHR 0x5C, CHR 0x5C] value))"

definition metric_line :: "string \<Rightarrow> (string \<times> string) list \<Rightarrow> u64 \<Rightarrow> string" where
  "metric_line name labels n =
     name @ ''{'' @ join '','' (map (\<lambda>(k, v). k @ ''='' @ [CHR 0x22] @ v @ [CHR 0x22]) labels) @ ''} ''
     @ show_nat (unat n) @ [CHR 0x0A]"

definition prometheus :: "identity_stats \<Rightarrow> string" where
  "prometheus st =
     ''# HELP marshal_requests_total Requests by outcome and profile.'' @ [CHR 0x0A]
     @ ''# TYPE marshal_requests_total counter'' @ [CHR 0x0A]
     @ concat (map (\<lambda>r.
         metric_line ''marshal_requests_total'' [(''profile'', escape_label (rw_key r)), (''action'', ''allow'')] (rw_allowed r)
         @ metric_line ''marshal_requests_total'' [(''profile'', escape_label (rw_key r)), (''action'', ''deny'')] (rw_denied r))
         (by_profile st))
     @ ''# HELP marshal_would_deny_total Requests forwarded only because the profile is in warn mode.'' @ [CHR 0x0A]
     @ ''# TYPE marshal_would_deny_total counter'' @ [CHR 0x0A]
     @ concat (map (\<lambda>r.
         metric_line ''marshal_would_deny_total'' [(''profile'', escape_label (rw_key r))] (rw_would_deny r))
         (by_profile st))
     @ ''# HELP marshal_identity_requests_total Requests by identity.'' @ [CHR 0x0A]
     @ ''# TYPE marshal_identity_requests_total counter'' @ [CHR 0x0A]
     @ concat (map (\<lambda>r.
         metric_line ''marshal_identity_requests_total'' [(''identity'', escape_label (rw_key r)), (''action'', ''allow'')] (rw_allowed r)
         @ metric_line ''marshal_identity_requests_total'' [(''identity'', escape_label (rw_key r)), (''action'', ''deny'')] (rw_denied r))
         (by_identity st))"

section \<open>What the counters count\<close>

text \<open>An event is one call of \<open>stats_record\<close>: identity, profile, allowed, warned.\<close>

type_synonym count_event = "string \<times> string \<times> bool \<times> bool"

definition run_stats :: "count_event list \<Rightarrow> identity_stats \<Rightarrow> identity_stats" where
  "run_stats evs st = fold (\<lambda>(i, p, a, w). stats_record i p a w) evs st"

definition tally :: "(count_event \<Rightarrow> string) \<Rightarrow> string \<Rightarrow> count_event list \<Rightarrow> counters" where
  "tally key k evs =
    (let mine = filter (\<lambda>e. key e = k) evs in
     \<lparr>ct_allowed = of_nat (length (filter (\<lambda>(_, _, a, _). a) mine)),
      ct_denied = of_nat (length (filter (\<lambda>(_, _, a, _). \<not> a) mine)),
      ct_would_deny = of_nat (length (filter (\<lambda>(_, _, _, w). w) mine))\<rparr>)"

lemma run_stats_snoc:
  "run_stats (evs @ [(i, p, a, w)]) st = stats_record i p a w (run_stats evs st)"
  by (simp add: run_stats_def)

lemma counter_entry_insert:
  "counter_entry (map_insert k c m) k' = (if k' = k then c else counter_entry m k')"
  by (simp add: counter_entry_def map_of_map_insert)

lemma tally_snoc:
  "tally key k (evs @ [(i, p, a, w)]) =
     (if key (i, p, a, w) = k then count_one a w (tally key k evs) else tally key k evs)"
  by (simp add: tally_def count_one_def Let_def)

lemma counters_are_tallies:
  "counter_entry (st_identities (run_stats evs stats_new)) i = tally fst i evs \<and>
   counter_entry (st_profiles (run_stats evs stats_new)) p = tally (fst \<circ> snd) p evs"
proof (induction evs rule: rev_induct)
  case Nil
  show ?case
    by (simp add: run_stats_def stats_new_def counter_entry_def tally_def no_counts_def)
next
  case (snoc e evs)
  obtain i' p' a w where "e = (i', p', a, w)"
    by (metis prod_cases4)
  with snoc show ?case
    by (simp add: run_stats_snoc stats_record_def counter_entry_insert tally_snoc)
qed

section \<open>Counters and audit trail\<close>

definition counted_events :: "'conn effect list \<Rightarrow> count_event list" where
  "counted_events effs = List.map_filter (\<lambda>e. case e of Counted i p a w \<Rightarrow> Some (i, p, a, w) | _ \<Rightarrow> None) effs"

definition audited_events :: "'conn effect list \<Rightarrow> count_event list" where
  "audited_events effs = List.map_filter (\<lambda>e. case e of
     Audited rec \<Rightarrow> Some (ar_identity rec, ar_profile rec, ar_action rec = ActAllow, ar_would_deny rec)
   | _ \<Rightarrow> None) effs"

lemma counted_events_filter:
  "counted_events effs = List.map_filter (\<lambda>e. case e of Counted i p a w \<Rightarrow> Some (i, p, a, w) | _ \<Rightarrow> None)
     (filter is_count effs)"
  unfolding counted_events_def by (induction effs) (auto simp: List.map_filter_simps elim!: is_count.elims split: effect.splits)

lemma audited_events_filter:
  "audited_events effs = List.map_filter (\<lambda>e. case e of
     Audited rec \<Rightarrow> Some (ar_identity rec, ar_profile rec, ar_action rec = ActAllow, ar_would_deny rec)
   | _ \<Rightarrow> None) (filter is_audit effs)"
  unfolding audited_events_def by (induction effs) (auto simp: List.map_filter_simps split: effect.splits)

lemma events_append:
  "counted_events (xs @ ys) = counted_events xs @ counted_events ys"
  "audited_events (xs @ ys) = audited_events xs @ audited_events ys"
  by (simp_all add: counted_events_def audited_events_def List.map_filter_def)

lemma recorded_events: "recorded r effs \<Longrightarrow> counted_events effs = audited_events effs"
  by (auto simp: recorded_def recorded_once_def counted_events_filter audited_events_filter List.map_filter_simps)

lemma requests_events:
  "handle_requests env h reqs slot w = (rs, effs, slot', w') \<Longrightarrow> counted_events effs = audited_events effs"
proof (induction reqs arbitrary: slot w rs effs)
  case Nil
  then show ?case
    by (simp add: counted_events_def audited_events_def List.map_filter_simps)
next
  case (Cons req reqs)
  obtain m u hs body where req: "req = (m, u, hs, body)"
    by (metis prod_cases4)
  obtain r effs1 slot1 w1 where one: "handle_request env h m u hs body slot w = (r, effs1, slot1, w1)"
    by (metis prod_cases4)
  obtain rs2 effs2 slot2 w2 where two: "handle_requests env h reqs slot1 w1 = (rs2, effs2, slot2, w2)"
    by (metis prod_cases4)
  from Cons.prems req one two have effs: "effs = effs1 @ effs2" and rest: "slot' = slot2" "w' = w2"
    by auto
  from Cons.IH two rest have "counted_events effs2 = audited_events effs2"
    by blast
  with recorded_events [OF recorded_request [OF one]] show ?case
    by (simp add: effs events_append)
qed

text \<open>
  C7 (refinement). The counters are a summary of the audit trail: after the requests of any tunnel,
  the entry of every identity and of every profile is the number of the audit records that name it
  as allowed, as denied and as warned about, modulo the width of a counter.
\<close>

theorem counters_summarise_audit_trail:
  "case intercept env client_tls upstream h reqs w of (_, effs, _) \<Rightarrow>
     counter_entry (st_identities (run_stats (counted_events effs) stats_new)) i = tally fst i (audited_events effs) \<and>
     counter_entry (st_profiles (run_stats (counted_events effs) stats_new)) p = tally (fst \<circ> snd) p (audited_events effs)"
proof -
  obtain rs effs slot w' where run: "intercept env client_tls upstream h reqs w = (rs, effs, slot, w')"
    by (metis prod_cases4)
  have "counted_events effs = audited_events effs"
  proof (cases "effs = []")
    case True
    then show ?thesis
      by (simp add: counted_events_def audited_events_def List.map_filter_simps)
  next
    case False
    with run obtain slot0 w0 rs' where "handle_requests env h reqs slot0 w0 = (rs', effs, slot, w')"
      by (auto simp: intercept_def split: option.splits prod.splits sum.splits)
    then show ?thesis
      by (rule requests_events)
  qed
  with counters_are_tallies [of "counted_events effs" i p] run show ?thesis
    by simp
qed

section \<open>Labels\<close>

text \<open>What a reader of the exposition format makes of a label value, up to its closing quote.\<close>

fun read_label :: "string \<Rightarrow> (string \<times> string) option" where
  "read_label [] = None"
| "read_label (c # t) =
    (if c = CHR 0x22 then Some ([], t)
     else if c = CHR 0x5C then
       (case t of
          [] \<Rightarrow> None
        | d # t' \<Rightarrow>
            (let x = (if d = CHR ''n'' then CHR 0x0A else d) in
             if d \<in> {CHR 0x5C, CHR 0x22, CHR ''n''} then map_option (\<lambda>(v, r). (x # v, r)) (read_label t')
             else None))
     else map_option (\<lambda>(v, r). (c # v, r)) (read_label t))"

lemma escape_label_Cons:
  "escape_label (c # v) =
     (if c = CHR 0x5C then [CHR 0x5C, CHR 0x5C] else if c = CHR 0x22 then [CHR 0x5C, CHR 0x22]
      else if c = CHR 0x0A then [CHR 0x5C, CHR ''n''] else [c]) @ escape_label v"
  by (simp add: escape_label_def replace_char_def)

lemma label_roundtrip: "read_label (escape_label v @ CHR 0x22 # rest) = Some (v, rest)"
proof (induction v)
  case Nil
  then show ?case
    by (simp add: escape_label_def replace_char_def)
next
  case (Cons c v)
  then show ?case
    by (simp add: escape_label_Cons)
qed

lemma rows_are_sorted: "sorted (map rw_key (counter_rows m))"
  by (simp add: counter_rows_def)

end
