(* ===== verification/Identity.thy ===== *)
theory Identity
  imports Core Encoding Sse Mcp Config Providers
begin

text \<open>
  Which agent a connection belongs to: \<open>crates/marshal-core/src/identity.rs\<close> (what a resolver looks
  at and answers), \<open>crates/marshal-proxy/src/identity\<close> (the resolvers, the registry that runs them, the
  reading of kernel tables), the scope name of \<open>crates/marshal-launch/src/lib.rs\<close>, and
  \<open>build_identities\<close> of \<open>crates/marshal-cli/src/main.rs\<close>. The file system and the user database are
  parameters.
\<close>

unbundle bit_operations_syntax

section \<open>What a resolver sees and says\<close>

record peer_cred =
  peer_uid :: "u32 option"
  peer_gid :: "u32 option"
  peer_pid :: "u32 option"
  peer_cgroup :: "string option"
  peer_cmdline :: "string option"

definition peer_cred_default :: peer_cred where
  "peer_cred_default = \<lparr>peer_uid = None, peer_gid = None, peer_pid = None, peer_cgroup = None, peer_cmdline = None\<rparr>"

definition is_trusted_for_policy :: "peer_cred \<Rightarrow> bool" where
  "is_trusted_for_policy c \<longleftrightarrow> peer_uid c \<noteq> None \<or> peer_gid c \<noteq> None"

record credential =
  cr_user :: string
  cr_password :: string

record conn_info =
  ci_ingress :: ingress_mode
  ci_client_addr :: socket_addr
  ci_local_addr :: socket_addr
  ci_proxy_auth :: "credential option"
  ci_peer_cred :: "peer_cred option"

record resolved =
  rs_identity :: string
  rs_profile :: "string option"
  rs_attributed :: bool
  rs_resolver :: "string option"

definition unidentified_identity :: string where
  "unidentified_identity = ''unidentified''"

definition profile_label :: "resolved \<Rightarrow> string" where
  "profile_label r = (case rs_profile r of Some p \<Rightarrow> p | None \<Rightarrow> ''default'')"

section \<open>Scopes of \<open>marshal run\<close>\<close>

definition scope_prefix :: string where
  "scope_prefix = ''marshal-''"

definition scope_name :: "string option \<Rightarrow> u32 \<Rightarrow> string" where
  "scope_name profile pid =
    (case profile of
       Some p \<Rightarrow> ''marshal-'' @ p @ ''-'' @ show_nat (unat pid) @ ''.scope''
     | None \<Rightarrow> ''marshal-'' @ show_nat (unat pid) @ ''.scope'')"

definition scope_body :: "string \<Rightarrow> (string \<times> string option) option" where
  "scope_body body =
    (case (case rsplit_once (CHR ''-'') body of
             Some (profile, pid) \<Rightarrow> if profile \<noteq> [] then Some (Some profile, pid) else None
           | None \<Rightarrow> Some (None, body)) of
       None \<Rightarrow> None
     | Some (profile, pid) \<Rightarrow>
         if pid = [] \<or> \<not> list_all is_ascii_digit pid then None
         else Some (''pid-'' @ pid, profile))"

definition parse_scope :: "string \<Rightarrow> (string \<times> string option) option" where
  "parse_scope cgroup =
    (case find (\<lambda>c. prefix scope_prefix c \<and> suffix ''.scope'' c) (rev (split_on (CHR ''/'') cgroup)) of
       None \<Rightarrow> None
     | Some scope \<Rightarrow>
         (case strip_prefix scope_prefix scope of
            None \<Rightarrow> None
          | Some rest \<Rightarrow>
              (case strip_suffix ''.scope'' rest of None \<Rightarrow> None | Some body \<Rightarrow> scope_body body)))"

section \<open>The resolvers\<close>

definition constant_time_eq :: "string \<Rightarrow> string \<Rightarrow> bool" where
  "constant_time_eq a b \<longleftrightarrow>
     (if length a \<noteq> length b then False
      else foldl (\<lambda>acc (x, y). acc OR (x XOR y)) (0 :: byte) (zip (bytes_of a) (bytes_of b)) = 0)"

datatype ('net, 'gl) resolver =
    SourceIp "('net \<times> string \<times> string) list"
  | PeerCredEntries "(u32 \<times> string \<times> string) list" "(u32 \<times> string \<times> string) list"
      "('gl \<times> string \<times> string) list"
  | ListenerPorts "(u16 \<times> string \<times> string) list"
  | ProxyAuth "(string \<times> string \<times> string \<times> string) list"
  | RunScopes "string list"

fun resolver_label :: "('net, 'gl) resolver \<Rightarrow> string" where
  "resolver_label (SourceIp _) = ''source_ip''"
| "resolver_label (PeerCredEntries _ _ _) = ''peer_cred''"
| "resolver_label (ListenerPorts _) = ''listener_port''"
| "resolver_label (ProxyAuth _) = ''proxy_auth''"
| "resolver_label (RunScopes _) = ''run''"

definition attributed_to :: "string \<Rightarrow> string \<times> string \<Rightarrow> resolved" where
  "attributed_to by ip =
     \<lparr>rs_identity = fst ip, rs_profile = Some (snd ip), rs_attributed = True, rs_resolver = Some by\<rparr>"

definition source_ip_resolve :: "'net ipnet \<Rightarrow> ('net \<times> string \<times> string) list \<Rightarrow> conn_info \<Rightarrow> resolved option" where
  "source_ip_resolve net entries conn =
     map_option (\<lambda>(_, e). attributed_to ''source_ip'' e)
       (find (\<lambda>(n, _). net_contains net n (sa_ip (ci_client_addr conn))) entries)"

definition keyed :: "'k option \<Rightarrow> ('e \<Rightarrow> 'k \<Rightarrow> bool) \<Rightarrow> ('e \<times> 'v) list \<Rightarrow> 'v option" where
  "keyed key hit entries =
    (case key of None \<Rightarrow> None | Some k \<Rightarrow> map_option snd (find (\<lambda>(e, _). hit e k) entries))"

definition peer_cred_resolve ::
  "'gl glob_lib \<Rightarrow> (u32 \<times> string \<times> string) list \<Rightarrow> (u32 \<times> string \<times> string) list
     \<Rightarrow> ('gl \<times> string \<times> string) list \<Rightarrow> conn_info \<Rightarrow> resolved option" where
  "peer_cred_resolve gl uids gids cgroups conn =
    (case ci_peer_cred conn of
       None \<Rightarrow> None
     | Some cred \<Rightarrow>
         (case keyed (peer_uid cred) (\<lambda>u k. u = k) uids of
            Some e \<Rightarrow> Some (attributed_to ''peer_cred:uid'' e)
          | None \<Rightarrow>
              (case keyed (peer_gid cred) (\<lambda>g k. g = k) gids of
                 Some e \<Rightarrow> Some (attributed_to ''peer_cred:gid'' e)
               | None \<Rightarrow>
                   map_option (attributed_to ''peer_cred:cgroup'')
                     (keyed (peer_cgroup cred) (gl_match gl) cgroups))))"

definition listener_port_resolve :: "(u16 \<times> string \<times> string) list \<Rightarrow> conn_info \<Rightarrow> resolved option" where
  "listener_port_resolve entries conn =
     map_option (\<lambda>(_, e). attributed_to ''listener_port'' e)
       (find (\<lambda>(p, _). p = sa_port (ci_local_addr conn)) entries)"

definition proxy_auth_resolve ::
  "(string \<times> string \<times> string \<times> string) list \<Rightarrow> conn_info \<Rightarrow> resolved option" where
  "proxy_auth_resolve entries conn =
    (case ci_proxy_auth conn of
       None \<Rightarrow> None
     | Some cred \<Rightarrow>
         map_option (\<lambda>(_, _, e). attributed_to ''proxy_auth'' e)
           (find (\<lambda>(u, p, _). u = cr_user cred \<and> constant_time_eq p (cr_password cred)) entries))"

definition run_resolve :: "string list \<Rightarrow> conn_info \<Rightarrow> resolved option" where
  "run_resolve known conn =
    (case Option.bind (ci_peer_cred conn) peer_cgroup of
       None \<Rightarrow> None
     | Some cgroup \<Rightarrow>
         (case parse_scope cgroup of
            None \<Rightarrow> None
          | Some (identity, profile) \<Rightarrow>
              (case profile of
                 Some p \<Rightarrow>
                   if p \<notin> set known then None
                   else Some \<lparr>rs_identity = identity, rs_profile = Some p, rs_attributed = True,
                     rs_resolver = Some ''run''\<rparr>
               | None \<Rightarrow>
                   Some \<lparr>rs_identity = identity, rs_profile = None, rs_attributed = True,
                     rs_resolver = Some ''run''\<rparr>)))"

fun resolver_resolve ::
  "'net ipnet \<Rightarrow> 'gl glob_lib \<Rightarrow> ('net, 'gl) resolver \<Rightarrow> conn_info \<Rightarrow> resolved option" where
  "resolver_resolve net gl (SourceIp entries) conn = source_ip_resolve net entries conn"
| "resolver_resolve net gl (PeerCredEntries us gs cs) conn = peer_cred_resolve gl us gs cs conn"
| "resolver_resolve net gl (ListenerPorts entries) conn = listener_port_resolve entries conn"
| "resolver_resolve net gl (ProxyAuth entries) conn = proxy_auth_resolve entries conn"
| "resolver_resolve net gl (RunScopes known) conn = run_resolve known conn"

record ('net, 'gl) registry =
  rg_resolvers :: "('net, 'gl) resolver list"
  rg_fallback :: "string option"
  rg_deny_unidentified :: bool
  rg_enrich :: bool

fun first_opinion ::
  "'net ipnet \<Rightarrow> 'gl glob_lib \<Rightarrow> ('net, 'gl) resolver list \<Rightarrow> conn_info \<Rightarrow> resolved option" where
  "first_opinion net gl [] conn = None"
| "first_opinion net gl (r # rs) conn =
    (case resolver_resolve net gl r conn of
       Some found \<Rightarrow> Some found
     | None \<Rightarrow> first_opinion net gl rs conn)"

definition registry_resolve ::
  "'net ipnet \<Rightarrow> 'gl glob_lib \<Rightarrow> ('net, 'gl) registry \<Rightarrow> conn_info \<Rightarrow> resolved" where
  "registry_resolve net gl reg conn =
    (case first_opinion net gl (rg_resolvers reg) conn of
       Some found \<Rightarrow> found
     | None \<Rightarrow>
         \<lparr>rs_identity = unidentified_identity, rs_profile = rg_fallback reg, rs_attributed = False,
          rs_resolver = None\<rparr>)"


section \<open>Credentials of a peer from kernel tables\<close>

text \<open>\<open>from_str_radix\<close> at an unsigned integer type, in base 16.\<close>

fun hex_value :: "nat \<Rightarrow> string \<Rightarrow> nat option" where
  "hex_value acc [] = Some acc"
| "hex_value acc (c # t) =
     (case digit_val 16 c of Some d \<Rightarrow> hex_value (16 * acc + d) t | None \<Rightarrow> None)"

definition parse_hex :: "nat \<Rightarrow> string \<Rightarrow> nat option" where
  "parse_hex limit s =
    (let digits = (case s of [] \<Rightarrow> [] | c # t \<Rightarrow> if c = CHR ''+'' then t else s) in
     if digits = [] then None
     else case hex_value 0 digits of
       None \<Rightarrow> None
     | Some n \<Rightarrow> if n \<le> limit then Some n else None)"

text \<open>
  The words of the table are native; the code's \<open>to_be\<close> is a byte swap on the little-endian targets
  the crate is built for, so the octets come out from the least significant byte on.
\<close>

definition le_octets :: "u32 \<Rightarrow> byte list" where
  "le_octets raw = [ucast raw, ucast (drop_bit 8 raw), ucast (drop_bit 16 raw), ucast (drop_bit 24 raw)]"

definition hex_word :: "string \<Rightarrow> u32 option" where
  "hex_word s = map_option word_of_nat (parse_hex 0xFFFFFFFF s)"

definition v6_of_octets :: "byte list \<Rightarrow> ip_addr" where
  "v6_of_octets os = v6_of (map (\<lambda>i. be16 (os ! (2 * i)) (os ! (2 * i + 1))) [0..<8])"

definition parse_hex_addr :: "string \<Rightarrow> (ip_addr \<times> u16) option" where
  "parse_hex_addr field =
    (case split_once (CHR '':'') field of
       None \<Rightarrow> None
     | Some (addr, port) \<Rightarrow>
         (case parse_hex 0xFFFF port of
            None \<Rightarrow> None
          | Some p \<Rightarrow>
              if length addr = 8
              then map_option (\<lambda>raw. (case le_octets raw of [a, b, c, d] \<Rightarrow> V4 a b c d, word_of_nat p))
                     (hex_word addr)
              else if length addr = 32
              then (case those (map hex_word
                       [take 8 addr, take 8 (drop 8 addr), take 8 (drop 16 addr), drop 24 addr]) of
                      None \<Rightarrow> None
                    | Some words \<Rightarrow> Some (v6_of_octets (concat (map le_octets words)), word_of_nat p))
              else None))"

definition unmapped :: "ip_addr \<Rightarrow> ip_addr" where
  "unmapped ip = (case to_ipv4_mapped ip of Some v4 \<Rightarrow> v4 | None \<Rightarrow> ip)"

definition same_addr :: "ip_addr \<Rightarrow> socket_addr \<Rightarrow> bool" where
  "same_addr table peer \<longleftrightarrow> unmapped table = unmapped (sa_ip peer)"

definition parse_u32 :: "string \<Rightarrow> u32 option" where
  "parse_u32 s = map_option word_of_nat (parse_uint (2 ^ 32 - 1) s)"

definition parse_u64 :: "string \<Rightarrow> u64 option" where
  "parse_u64 s = map_option word_of_nat (parse_uint (2 ^ 64 - 1) s)"

fun find_entry_lines :: "string list \<Rightarrow> socket_addr \<Rightarrow> (u32 \<times> u64) option" where
  "find_entry_lines [] peer = None"
| "find_entry_lines (line # rest) peer =
    (case split_whitespace line of
       slot # local # remote # state # queues # timer # retrans # uid # timeout # inode # _ \<Rightarrow>
         (case parse_hex_addr local of
            None \<Rightarrow> find_entry_lines rest peer
          | Some (addr, port) \<Rightarrow>
              if port \<noteq> sa_port peer then find_entry_lines rest peer
              else if \<not> same_addr addr peer then find_entry_lines rest peer
              else (case (parse_u32 uid, parse_u64 inode) of
                      (Some u, Some i) \<Rightarrow> Some (u, i)
                    | _ \<Rightarrow> None))
     | _ \<Rightarrow> None)"

definition find_entry :: "string \<Rightarrow> socket_addr \<Rightarrow> (u32 \<times> u64) option" where
  "find_entry table peer = find_entry_lines (drop 1 (str_lines table)) peer"

text \<open>
  The file system under \<open>/proc\<close>: the files that can be read, and the directories in the order
  they are listed, each with the targets of its open file descriptors when those can be listed.
\<close>

record proc_fs =
  fs_read :: "string \<Rightarrow> string option"
  fs_dirs :: "(string \<times> string list option) list option"

definition find_in_tables :: "proc_fs \<Rightarrow> socket_addr \<Rightarrow> (u32 \<times> u64) option" where
  "find_in_tables fs peer =
     (case Option.bind (fs_read fs ''/proc/net/tcp'') (\<lambda>t. find_entry t peer) of
        Some e \<Rightarrow> Some e
      | None \<Rightarrow> Option.bind (fs_read fs ''/proc/net/tcp6'') (\<lambda>t. find_entry t peer))"

definition uid_for_tcp_peer :: "proc_fs \<Rightarrow> socket_addr \<Rightarrow> u32 option" where
  "uid_for_tcp_peer fs peer = map_option fst (find_in_tables fs peer)"

definition effective_gid_from_status :: "string \<Rightarrow> u32 option" where
  "effective_gid_from_status status =
    (case List.map_filter (strip_prefix ''Gid:'') (str_lines status) of
       [] \<Rightarrow> None
     | rest # _ \<Rightarrow>
         (case split_whitespace rest of _ # g # _ \<Rightarrow> parse_u32 g | _ \<Rightarrow> None))"

record enrichment =
  er_pid :: u32
  er_gid :: "u32 option"
  er_cgroup :: "string option"
  er_cmdline :: "string option"

definition proc_file :: "u32 \<Rightarrow> string \<Rightarrow> string" where
  "proc_file pid name = ''/proc/'' @ show_nat (unat pid) @ ''/'' @ name"

definition read_cgroup :: "proc_fs \<Rightarrow> u32 \<Rightarrow> string option" where
  "read_cgroup fs pid = map_option trim (fs_read fs (proc_file pid ''cgroup''))"

definition read_cmdline :: "proc_fs \<Rightarrow> u32 \<Rightarrow> string option" where
  "read_cmdline fs pid =
     map_option (\<lambda>c. trim (map (\<lambda>x. if x = CHR 0x00 then CHR '' '' else x) c)) (fs_read fs (proc_file pid ''cmdline''))"

definition enrich_from_inode :: "proc_fs \<Rightarrow> u64 \<Rightarrow> enrichment option" where
  "enrich_from_inode fs inode =
    (case fs_dirs fs of
       None \<Rightarrow> None
     | Some dirs \<Rightarrow>
         (let target = ''socket:['' @ show_nat (unat inode) @ '']'' in
          case List.map_filter (\<lambda>(name, fds). case (parse_u32 name, fds) of
                 (Some pid, Some links) \<Rightarrow> if target \<in> set links then Some pid else None
               | _ \<Rightarrow> None) dirs of
            [] \<Rightarrow> None
          | pid # _ \<Rightarrow>
              Some \<lparr>er_pid = pid,
                er_gid = Option.bind (fs_read fs (proc_file pid ''status'')) effective_gid_from_status,
                er_cgroup = read_cgroup fs pid, er_cmdline = read_cmdline fs pid\<rparr>))"

definition peer_cred_for_tcp :: "proc_fs \<Rightarrow> socket_addr \<Rightarrow> bool \<Rightarrow> peer_cred option" where
  "peer_cred_for_tcp fs peer enrich =
    (case find_in_tables fs peer of
       None \<Rightarrow> None
     | Some (uid, inode) \<Rightarrow>
         (let cred = peer_cred_default\<lparr>peer_uid := Some uid\<rparr> in
          case (if enrich then enrich_from_inode fs inode else None) of
            None \<Rightarrow> Some cred
          | Some e \<Rightarrow>
              Some (cred\<lparr>peer_pid := Some (er_pid e), peer_gid := er_gid e, peer_cgroup := er_cgroup e,
                peer_cmdline := er_cmdline e\<rparr>)))"

text \<open>\<open>SO_PEERCRED\<close> is the argument \<open>ucred\<close>: uid, gid and, where known, pid.\<close>

definition peer_cred_for_unix :: "proc_fs \<Rightarrow> (u32 \<times> u32 \<times> u32 option) option \<Rightarrow> bool \<Rightarrow> peer_cred option" where
  "peer_cred_for_unix fs ucred enrich =
    (case ucred of
       None \<Rightarrow> None
     | Some (uid, gid, pid) \<Rightarrow>
         (let cred = peer_cred_default\<lparr>peer_uid := Some uid, peer_gid := Some gid, peer_pid := pid\<rparr> in
          case (if enrich then pid else None) of
            None \<Rightarrow> Some cred
          | Some p \<Rightarrow> Some (cred\<lparr>peer_cgroup := read_cgroup fs p, peer_cmdline := read_cmdline fs p\<rparr>)))"

definition attach_peer_cred :: "proc_fs \<Rightarrow> ('net, 'gl) registry \<Rightarrow> conn_info \<Rightarrow> conn_info" where
  "attach_peer_cred fs reg conn =
    (if ci_peer_cred conn \<noteq> None then conn
     else conn\<lparr>ci_peer_cred := peer_cred_for_tcp fs (ci_client_addr conn) (rg_enrich reg)\<rparr>)"

text \<open>
  \<open>getpwnam_r\<close> and \<open>getgrnam_r\<close> with a buffer of a given length: the loop doubles the buffer
  for as long as it is reported too small.
\<close>

datatype lookup_result = LkFound u32 | LkMissing | LkRange | LkErrno nat

datatype id_error = NameHasNul | NoSuchName string | OsError nat

partial_function (option) resolve_id_loop ::
  "(nat \<Rightarrow> lookup_result) \<Rightarrow> string \<Rightarrow> nat \<Rightarrow> (id_error + u32) option" where
  "resolve_id_loop lookup name buf_len =
    (case lookup buf_len of
       LkFound v \<Rightarrow> Some (Inr v)
     | LkMissing \<Rightarrow> Some (Inl (NoSuchName name))
     | LkRange \<Rightarrow> resolve_id_loop lookup name (2 * buf_len)
     | LkErrno e \<Rightarrow> Some (Inl (OsError e)))"

definition resolve_id :: "(string \<Rightarrow> nat \<Rightarrow> lookup_result) \<Rightarrow> string \<Rightarrow> (id_error + u32) option" where
  "resolve_id lookup name =
    (if CHR 0x00 \<in> set name then Some (Inl NameHasNul)
     else resolve_id_loop (lookup name) name 1024)"


section \<open>The registry of a configuration\<close>

datatype identity_error =
    CredentialUnset string string
  | BadCidr string
  | BadUser string id_error
  | BadGroup string id_error
  | BadGlob string

text \<open>The libraries, the environment and the two user databases, each a terminating lookup.\<close>

record ('net, 'gl) identity_env =
  ie_net :: "'net ipnet"
  ie_glob :: "'gl glob_lib"
  ie_env :: environment
  ie_user :: "string \<Rightarrow> id_error + u32"
  ie_group :: "string \<Rightarrow> id_error + u32"

definition proxy_auth_entries ::
  "environment \<Rightarrow> proxy_auth_entry list \<Rightarrow> identity_error + (string \<times> string \<times> string \<times> string) list" where
  "proxy_auth_entries en =
     traverse (\<lambda>c. case env_var en (pa_password_env c) of
       None \<Rightarrow> Inl (CredentialUnset (pa_password_env c) (pa_user c))
     | Some password \<Rightarrow> Inr (pa_user c, password, pa_identity c, pa_profile c))"

definition source_ip_entries ::
  "'net ipnet \<Rightarrow> source_ip_entry list \<Rightarrow> identity_error + ('net \<times> string \<times> string) list" where
  "source_ip_entries net =
     traverse (\<lambda>e. case net_parse net (si_cidr e) of
       None \<Rightarrow> Inl (BadCidr (si_cidr e))
     | Some n \<Rightarrow> Inr (n, si_identity e, si_profile e))"

fun numeric_id :: "(string \<Rightarrow> id_error + u32) \<Rightarrow> nat option \<Rightarrow> string option \<Rightarrow> id_error + u32 option" where
  "numeric_id lookup (Some n) _ = Inr (Some (word_of_nat n))"
| "numeric_id lookup None (Some name) = map_sum id Some (lookup name)"
| "numeric_id lookup None None = Inr None"

definition peer_cred_ids ::
  "('net, 'gl) identity_env \<Rightarrow> peer_cred_entry \<Rightarrow> identity_error + u32 option \<times> u32 option" where
  "peer_cred_ids ie m =
    (case numeric_id (ie_user ie) (pc_uid m) (pc_username m) of
       Inl e \<Rightarrow> Inl (BadUser (the (pc_username m)) e)
     | Inr uid \<Rightarrow>
         (case numeric_id (ie_group ie) (pc_gid m) (pc_groupname m) of
            Inl e \<Rightarrow> Inl (BadGroup (the (pc_groupname m)) e)
          | Inr gid \<Rightarrow> Inr (uid, gid)))"

definition opt_entry :: "'k option \<Rightarrow> peer_cred_entry \<Rightarrow> ('k \<times> string \<times> string) option" where
  "opt_entry key m = map_option (\<lambda>k. (k, pc_identity m, pc_profile m)) key"

definition peer_cred_resolver ::
  "('net, 'gl) identity_env \<Rightarrow> peer_cred_entry list \<Rightarrow> identity_error + ('net, 'gl) resolver" where
  "peer_cred_resolver ie entries =
    (case traverse (peer_cred_ids ie) entries of
       Inl e \<Rightarrow> Inl e
     | Inr ids \<Rightarrow>
         (case traverse (\<lambda>(pattern, e). case gl_new (ie_glob ie) pattern of
                 Inl err \<Rightarrow> Inl (BadGlob err) | Inr g \<Rightarrow> Inr (g, e))
               (List.map_filter (\<lambda>m. opt_entry (pc_cgroup m) m) entries) of
            Inl e \<Rightarrow> Inl e
          | Inr cgroups \<Rightarrow>
              Inr (PeerCredEntries
                (List.map_filter (\<lambda>((uid, _), m). opt_entry uid m) (zip ids entries))
                (List.map_filter (\<lambda>((_, gid), m). opt_entry gid m) (zip ids entries)) cgroups)))"

fun build_resolver ::
  "('net, 'gl) identity_env \<Rightarrow> config \<Rightarrow> resolver_config \<Rightarrow> identity_error + ('net, 'gl) resolver list" where
  "build_resolver ie cfg (RcProxyAuth credentials) =
     map_sum id (\<lambda>entries. if entries = [] then [] else [ProxyAuth entries])
       (proxy_auth_entries (ie_env ie) credentials)"
| "build_resolver ie cfg (RcSourceIp entries) =
     map_sum id (\<lambda>entries. [SourceIp entries]) (source_ip_entries (ie_net ie) entries)"
| "build_resolver ie cfg (RcPeerCred _ entries) =
     map_sum id (\<lambda>r. [r]) (peer_cred_resolver ie entries)"
| "build_resolver ie cfg RcRun = Inr [RunScopes (map fst (cf_profiles cfg))]"
| "build_resolver ie cfg (RcListenerPort entries) =
     Inr [ListenerPorts (map (\<lambda>e. (lp_port e, lp_identity e, lp_profile e)) entries)]"

fun wants_enrichment :: "resolver_config \<Rightarrow> bool" where
  "wants_enrichment (RcPeerCred e _) = e"
| "wants_enrichment RcRun = True"
| "wants_enrichment _ = False"

definition build_identities ::
  "('net, 'gl) identity_env \<Rightarrow> config \<Rightarrow> string option \<Rightarrow> identity_error + ('net, 'gl) registry" where
  "build_identities ie cfg fallback =
    (case traverse (build_resolver ie cfg) (id_resolvers (cf_identities cfg)) of
       Inl e \<Rightarrow> Inl e
     | Inr rss \<Rightarrow>
         Inr \<lparr>rg_resolvers = concat rss, rg_fallback = fallback,
           rg_deny_unidentified =
             (case id_unidentified (cf_identities cfg) of
                Some u \<Rightarrow> un_action u = UnidentifiedDeny | None \<Rightarrow> False),
           rg_enrich = list_ex wants_enrichment (id_resolvers (cf_identities cfg))\<rparr>)"

section \<open>Facts\<close>

lemma constant_time_eq_iff [simp]: "constant_time_eq a b \<longleftrightarrow> a = b"
proof (cases "length a = length b")
  case True
  then have "(\<forall>(x, y) \<in> set (zip (bytes_of a) (bytes_of b)). x = y) \<longleftrightarrow> bytes_of a = bytes_of b"
    by (simp add: list_eq_iff_zip_eq)
  with True show ?thesis
    by (simp add: constant_time_eq_def fold_differences bytes_of_inject)
qed (auto simp: constant_time_eq_def)

lemma show_nat_no_dash: "CHR ''-'' \<notin> set (show_nat n)" "CHR ''/'' \<notin> set (show_nat n)"
proof -
  have "\<not> is_ascii_digit (CHR ''-'')" "\<not> is_ascii_digit (CHR ''/'')"
    by code_simp+
  then show "CHR ''-'' \<notin> set (show_nat n)" "CHR ''/'' \<notin> set (show_nat n)"
    using show_nat_digits by blast+
qed

lemma list_all_digits_show_nat: "list_all is_ascii_digit (show_nat n)"
  by (auto simp: list_all_iff dest: show_nat_digits)

lemma scope_body_named:
  "p \<noteq> [] \<Longrightarrow> scope_body (p @ ''-'' @ show_nat n) = Some (''pid-'' @ show_nat n, Some p)"
proof -
  assume "p \<noteq> []"
  moreover have "rsplit_once (CHR ''-'') (p @ ''-'' @ show_nat n) = Some (p, show_nat n)"
    by (simp add: rsplit_once_Some show_nat_no_dash)
  ultimately show ?thesis
    by (simp add: scope_body_def list_all_digits_show_nat)
qed

lemma scope_body_unnamed: "scope_body (show_nat n) = Some (''pid-'' @ show_nat n, None)"
proof -
  have "rsplit_once (CHR ''-'') (show_nat n) = None"
    by (simp add: rsplit_once_None show_nat_no_dash)
  then show ?thesis
    by (simp add: scope_body_def list_all_digits_show_nat)
qed

lemma split_on_last: "d \<notin> set s \<Longrightarrow> \<exists>w ws. split_on d (dir @ d # s) = w # ws @ [s]"
proof (induction dir)
  case Nil
  then show ?case
    by (simp add: split_on_single)
next
  case (Cons c dir)
  then obtain w ws where "split_on d (dir @ d # s) = w # ws @ [s]"
    by blast
  then show ?case
    by auto
qed

lemma parse_scope_unit:
  assumes "CHR ''/'' \<notin> set body"
  shows "parse_scope (dir @ ''/marshal-'' @ body @ ''.scope'') = scope_body body"
proof -
  let ?unit = "''marshal-'' @ body @ ''.scope''"
  have "CHR ''/'' \<notin> set ?unit"
    using assms by simp
  then obtain w ws where "split_on (CHR ''/'') (dir @ CHR ''/'' # ?unit) = w # ws @ [?unit]"
    using split_on_last [of "CHR ''/''" ?unit dir] by metis
  then have split: "rev (split_on (CHR ''/'') (dir @ ''/marshal-'' @ body @ ''.scope'')) = ?unit # rev (w # ws)"
    by simp
  have "prefix scope_prefix ?unit"
    by (simp add: scope_prefix_def)
  moreover have "suffix ''.scope'' ((''marshal-'' @ body) @ ''.scope'')"
    by (rule suffixI) (rule refl)
  then have "suffix ''.scope'' ?unit"
    by (simp only: append_assoc)
  moreover have "strip_prefix scope_prefix ?unit = Some (body @ ''.scope'')"
    by (simp add: scope_prefix_def strip_prefix_Some_iff)
  moreover have "strip_suffix ''.scope'' (body @ ''.scope'') = Some body"
    by (simp add: strip_suffix_Some_iff)
  ultimately show ?thesis
    unfolding parse_scope_def split by simp
qed

text \<open>
  What \<open>marshal run\<close> names a scope is what the resolver reads back: wherever the scope
  sits in the hierarchy, the process id and the profile come out as they were given, a profile
  with hyphens and a run without one included.
\<close>

lemma scope_names_roundtrip:
  assumes "\<forall>p. profile = Some p \<longrightarrow> p \<noteq> [] \<and> CHR ''/'' \<notin> set p"
  shows "parse_scope (dir @ ''/'' @ scope_name profile pid) = Some (''pid-'' @ show_nat (unat pid), profile)"
proof (cases profile)
  case None
  then show ?thesis
    using parse_scope_unit [of "show_nat (unat pid)" dir] scope_body_unnamed
    by (simp add: scope_name_def show_nat_no_dash)
next
  case (Some p)
  with assms have p: "p \<noteq> []" "CHR ''/'' \<notin> set (p @ ''-'' @ show_nat (unat pid))"
    by (simp_all add: show_nat_no_dash)
  from parse_scope_unit [OF p(2), of dir] scope_body_named [OF p(1)] Some show ?thesis
    by (simp add: scope_name_def)
qed

lemma resolve_id_loop_steps:
  assumes "\<forall>i < n. lookup (b * 2 ^ i) = LkRange" and "lookup (b * 2 ^ n) \<noteq> LkRange"
  shows "\<exists>r. resolve_id_loop lookup name b = Some r"
  using assms
proof (induction n arbitrary: b)
  case 0
  then show ?case
    by (subst resolve_id_loop.simps) (auto split: lookup_result.splits)
next
  case (Suc n)
  have "\<forall>i < n. lookup (2 * b * 2 ^ i) = LkRange"
    using Suc.prems(1) by (metis Suc_less_eq mult.assoc mult.commute power_Suc)
  moreover have "lookup (2 * b * 2 ^ n) \<noteq> LkRange"
    using Suc.prems(2) by (simp add: mult.assoc mult.left_commute)
  ultimately have "\<exists>r. resolve_id_loop lookup name (2 * b) = Some r"
    by (rule Suc.IH)
  moreover have "lookup b = LkRange"
    using Suc.prems(1) by force
  ultimately show ?case
    by (subst resolve_id_loop.simps) simp
qed

lemma resolve_id_loop_result:
  assumes "resolve_id_loop lookup name b = Some r"
  shows "\<exists>n. (\<forall>i < n. lookup (b * 2 ^ i) = LkRange) \<and> lookup (b * 2 ^ n) \<noteq> LkRange"
proof (rule resolve_id_loop.raw_induct [where P = "\<lambda>lookup name b r.
    \<exists>n. (\<forall>i < n. lookup (b * 2 ^ i) = LkRange) \<and> lookup (b * 2 ^ n) \<noteq> LkRange", OF _ assms])
  fix loop and lookup :: "nat \<Rightarrow> lookup_result" and name b r'
  assume IH: "\<And>lookup name b r. loop lookup name b = Some r \<Longrightarrow>
      \<exists>n. (\<forall>i < n. lookup (b * 2 ^ i) = LkRange) \<and> lookup (b * 2 ^ n) \<noteq> LkRange"
    and step: "(case lookup b of
       LkFound v \<Rightarrow> Some (Inr v)
     | LkMissing \<Rightarrow> Some (Inl (NoSuchName name))
     | LkRange \<Rightarrow> loop lookup name (2 * b)
     | LkErrno e \<Rightarrow> Some (Inl (OsError e))) = Some r'"
  show "\<exists>n. (\<forall>i < n. lookup (b * 2 ^ i) = LkRange) \<and> lookup (b * 2 ^ n) \<noteq> LkRange"
  proof (cases "lookup b = LkRange")
    case True
    with step IH [of lookup name "2 * b" r'] obtain n where n: "\<forall>i < n. lookup (2 * b * 2 ^ i) = LkRange" "lookup (2 * b * 2 ^ n) \<noteq> LkRange"
      by auto
    have "lookup (b * 2 ^ i) = LkRange" if "i < Suc n" for i
      using that True n(1) by (cases i) (simp_all add: mult.assoc mult.left_commute)
    moreover have "lookup (b * 2 ^ Suc n) \<noteq> LkRange"
      using n(2) by (simp add: mult.assoc mult.left_commute)
    ultimately show ?thesis
      by blast
  qed (intro exI [of _ 0], simp)
qed


section \<open>What earns an identity\<close>

text \<open>
  The entries of a configuration, read on their own: a connection is granted an identity and a
  profile by a resolver when one of its entries matches the connection.
\<close>

definition entry_hits :: "('net, 'gl) identity_env \<Rightarrow> peer_cred \<Rightarrow> peer_cred_entry \<Rightarrow> bool" where
  "entry_hits ie cred m \<longleftrightarrow>
     (\<exists>u. numeric_id (ie_user ie) (pc_uid m) (pc_username m) = Inr (Some u) \<and> peer_uid cred = Some u) \<or>
     (\<exists>g. numeric_id (ie_group ie) (pc_gid m) (pc_groupname m) = Inr (Some g) \<and> peer_gid cred = Some g) \<or>
     (\<exists>pat c g. pc_cgroup m = Some pat \<and> peer_cgroup cred = Some c \<and>
        gl_new (ie_glob ie) pat = Inr g \<and> gl_match (ie_glob ie) g c)"

fun grants ::
  "('net, 'gl) identity_env \<Rightarrow> config \<Rightarrow> conn_info \<Rightarrow> string \<Rightarrow> string option \<Rightarrow> resolver_config \<Rightarrow> bool" where
  "grants ie cfg conn i p (RcProxyAuth es) \<longleftrightarrow>
     (\<exists>c e. ci_proxy_auth conn = Some c \<and> e \<in> set es \<and> pa_user e = cr_user c \<and>
        env_var (ie_env ie) (pa_password_env e) = Some (cr_password c) \<and>
        i = pa_identity e \<and> p = Some (pa_profile e))"
| "grants ie cfg conn i p (RcSourceIp es) \<longleftrightarrow>
     (\<exists>e n. e \<in> set es \<and> net_parse (ie_net ie) (si_cidr e) = Some n \<and>
        net_contains (ie_net ie) n (sa_ip (ci_client_addr conn)) \<and>
        i = si_identity e \<and> p = Some (si_profile e))"
| "grants ie cfg conn i p (RcPeerCred _ es) \<longleftrightarrow>
     (\<exists>cred e. ci_peer_cred conn = Some cred \<and> e \<in> set es \<and> entry_hits ie cred e \<and>
        i = pc_identity e \<and> p = Some (pc_profile e))"
| "grants ie cfg conn i p RcRun \<longleftrightarrow>
     (\<exists>cred cg. ci_peer_cred conn = Some cred \<and> peer_cgroup cred = Some cg \<and>
        parse_scope cg = Some (i, p) \<and> (\<forall>q. p = Some q \<longrightarrow> q \<in> fst ` set (cf_profiles cfg)))"
| "grants ie cfg conn i p (RcListenerPort es) \<longleftrightarrow>
     (\<exists>e \<in> set es. lp_port e = sa_port (ci_local_addr conn) \<and> i = lp_identity e \<and> p = Some (lp_profile e))"

definition answers_as ::
  "('net, 'gl) identity_env \<Rightarrow> config \<Rightarrow> conn_info \<Rightarrow> resolver_config \<Rightarrow> resolved option \<Rightarrow> bool" where
  "answers_as ie cfg conn rc r =
    (case r of
       Some r \<Rightarrow> rs_attributed r \<and> grants ie cfg conn (rs_identity r) (rs_profile r) rc
     | None \<Rightarrow> \<forall>i p. \<not> grants ie cfg conn i p rc)"

lemma attributed_to_simps [simp]:
  "rs_identity (attributed_to by e) = fst e" "rs_profile (attributed_to by e) = Some (snd e)"
  "rs_attributed (attributed_to by e)"
  by (simp_all add: attributed_to_def)

lemma traverse_in:
  "traverse f xs = Inr ys \<Longrightarrow> y \<in> set ys \<longleftrightarrow> (\<exists>x \<in> set xs. f x = Inr y)"
  by (induction xs arbitrary: ys) (auto split: sum.splits)

lemma traverse_defined: "traverse f xs = Inr ys \<Longrightarrow> x \<in> set xs \<Longrightarrow> \<exists>y. f x = Inr y \<and> y \<in> set ys"
  by (induction xs arbitrary: ys) (auto split: sum.splits)

lemma find_case:
  "find P xs = Some x \<Longrightarrow> x \<in> set xs \<and> P x" "find P xs = None \<Longrightarrow> \<forall>x \<in> set xs. \<not> P x"
  by (metis find_Some_iff nth_mem) (simp add: find_None_iff)

lemma proxy_auth_answers:
  assumes "proxy_auth_entries (ie_env ie) es = Inr entries"
  shows "answers_as ie cfg conn (RcProxyAuth es) (proxy_auth_resolve entries conn)"
proof -
  have entries: "(u, pw, i, p) \<in> set entries \<longleftrightarrow>
      (\<exists>e \<in> set es. pa_user e = u \<and> env_var (ie_env ie) (pa_password_env e) = Some pw \<and>
        pa_identity e = i \<and> pa_profile e = p)" for u pw i p
    using traverse_in [OF assms [unfolded proxy_auth_entries_def]] by (auto split: option.splits)
  show ?thesis
  proof (cases "ci_proxy_auth conn")
    case (Some c)
    let ?hit = "\<lambda>(u, p, _). u = cr_user c \<and> constant_time_eq p (cr_password c)"
    show ?thesis
    proof (cases "find ?hit entries")
      case None
      from find_case(2) [OF this] entries Some None show ?thesis
        by (fastforce simp: answers_as_def proxy_auth_resolve_def)
    next
      case (Some x)
      from find_case(1) [OF this] entries Some \<open>ci_proxy_auth conn = Some c\<close> show ?thesis
        by (cases x) (force simp: answers_as_def proxy_auth_resolve_def)
    qed
  qed (simp add: answers_as_def proxy_auth_resolve_def)
qed

lemma source_ip_answers:
  assumes "source_ip_entries (ie_net ie) es = Inr entries"
  shows "answers_as ie cfg conn (RcSourceIp es) (source_ip_resolve (ie_net ie) entries conn)"
proof -
  have entries: "(n, i, p) \<in> set entries \<longleftrightarrow>
      (\<exists>e \<in> set es. net_parse (ie_net ie) (si_cidr e) = Some n \<and> si_identity e = i \<and> si_profile e = p)" for n i p
    using traverse_in [OF assms [unfolded source_ip_entries_def]] by (auto split: option.splits)
  let ?hit = "\<lambda>(n, _). net_contains (ie_net ie) n (sa_ip (ci_client_addr conn))"
  show ?thesis
  proof (cases "find ?hit entries")
    case None
    from find_case(2) [OF this] entries None show ?thesis
      by (fastforce simp: answers_as_def source_ip_resolve_def)
  next
    case (Some x)
    from find_case(1) [OF this] entries Some show ?thesis
      by (cases x) (force simp: answers_as_def source_ip_resolve_def)
  qed
qed

lemma listener_port_answers:
  "answers_as ie cfg conn (RcListenerPort es)
     (listener_port_resolve (map (\<lambda>e. (lp_port e, lp_identity e, lp_profile e)) es) conn)"
proof (cases "find (\<lambda>(p, _). p = sa_port (ci_local_addr conn)) (map (\<lambda>e. (lp_port e, lp_identity e, lp_profile e)) es)")
  case None
  from find_case(2) [OF this] None show ?thesis
    by (fastforce simp: answers_as_def listener_port_resolve_def)
next
  case (Some x)
  from find_case(1) [OF this] Some show ?thesis
    by (force simp: answers_as_def listener_port_resolve_def)
qed

lemma run_answers: "answers_as ie cfg conn RcRun (run_resolve (map fst (cf_profiles cfg)) conn)"
  by (auto simp: answers_as_def run_resolve_def split: option.splits prod.splits bind_splits)

lemma keyed_cases:
  "keyed key hit entries = Some v \<Longrightarrow> \<exists>k e. key = Some k \<and> (e, v) \<in> set entries \<and> hit e k"
  "keyed key hit entries = None \<Longrightarrow> key = Some k \<Longrightarrow> (e, v) \<in> set entries \<Longrightarrow> \<not> hit e k"
  by (auto simp: keyed_def split: option.splits dest!: find_case)

lemma zip_traverse:
  "traverse f xs = Inr ys \<Longrightarrow> (y, x) \<in> set (zip ys xs) \<longleftrightarrow> x \<in> set xs \<and> f x = Inr y"
  by (induction xs arbitrary: ys) (auto split: sum.splits)

lemma in_map_filter: "y \<in> set (List.map_filter f xs) \<longleftrightarrow> (\<exists>x \<in> set xs. f x = Some y)"
  by (force simp: List.map_filter_def)

lemma peer_cred_ids_Inr:
  "peer_cred_ids ie m = Inr (uid, gid) \<longleftrightarrow>
     numeric_id (ie_user ie) (pc_uid m) (pc_username m) = Inr uid \<and>
     numeric_id (ie_group ie) (pc_gid m) (pc_groupname m) = Inr gid"
  by (auto simp: peer_cred_ids_def split: sum.splits)

lemma peer_cred_resolver_entries:
  assumes "peer_cred_resolver ie es = Inr r"
  shows "\<exists>us gs cs. r = PeerCredEntries us gs cs \<and>
    (\<forall>k v. (k, v) \<in> set us \<longleftrightarrow> (\<exists>m \<in> set es. v = (pc_identity m, pc_profile m) \<and>
       numeric_id (ie_user ie) (pc_uid m) (pc_username m) = Inr (Some k))) \<and>
    (\<forall>k v. (k, v) \<in> set gs \<longleftrightarrow> (\<exists>m \<in> set es. v = (pc_identity m, pc_profile m) \<and>
       numeric_id (ie_group ie) (pc_gid m) (pc_groupname m) = Inr (Some k))) \<and>
    (\<forall>g v. (g, v) \<in> set cs \<longleftrightarrow> (\<exists>m \<in> set es. v = (pc_identity m, pc_profile m) \<and>
       (\<exists>pat. pc_cgroup m = Some pat \<and> gl_new (ie_glob ie) pat = Inr g)))"
proof -
  obtain ids where ids: "traverse (peer_cred_ids ie) es = Inr ids"
    using assms by (auto simp: peer_cred_resolver_def split: sum.splits)
  let ?glob = "\<lambda>(pattern, e). case gl_new (ie_glob ie) pattern of Inl err \<Rightarrow> Inl (BadGlob err) | Inr g \<Rightarrow> Inr (g, e)"
  let ?pats = "List.map_filter (\<lambda>m. opt_entry (pc_cgroup m) m) es"
  obtain cs where cs: "traverse ?glob ?pats = Inr cs"
      "r = PeerCredEntries (List.map_filter (\<lambda>((uid, _), m). opt_entry uid m) (zip ids es))
        (List.map_filter (\<lambda>((_, gid), m). opt_entry gid m) (zip ids es)) cs"
    using assms ids by (auto simp: peer_cred_resolver_def split: sum.splits)
  have ex: "\<exists>ids. peer_cred_ids ie m = Inr ids" if "m \<in> set es" for m
    using traverse_defined [OF ids that] by blast
  have zipped: "((u, g), m) \<in> set (zip ids es) \<longleftrightarrow> m \<in> set es \<and>
      numeric_id (ie_user ie) (pc_uid m) (pc_username m) = Inr u \<and>
      numeric_id (ie_group ie) (pc_gid m) (pc_groupname m) = Inr g" for u g m
    by (simp add: zip_traverse [OF ids] peer_cred_ids_Inr)
  have uids: "(k, v) \<in> set (List.map_filter (\<lambda>((uid, _), m). opt_entry uid m) (zip ids es)) \<longleftrightarrow>
      (\<exists>m \<in> set es. v = (pc_identity m, pc_profile m) \<and>
        numeric_id (ie_user ie) (pc_uid m) (pc_username m) = Inr (Some k))" (is "?lhs k v \<longleftrightarrow> ?rhs k v") for k v
  proof
    assume "?lhs k v"
    then obtain u g m where "((u, g), m) \<in> set (zip ids es)" "opt_entry u m = Some (k, v)"
      by (auto simp: in_map_filter)
    then show "?rhs k v"
      by (auto simp: opt_entry_def zipped)
  next
    assume "?rhs k v"
    then obtain m where m: "m \<in> set es" "v = (pc_identity m, pc_profile m)" "numeric_id (ie_user ie) (pc_uid m) (pc_username m) = Inr (Some k)"
      by blast
    from ex [OF m(1)] m(3) obtain other where "((Some k, other), m) \<in> set (zip ids es)"
      using m(1) by (auto simp: zipped peer_cred_ids_Inr)
    then show "?lhs k v"
      unfolding in_map_filter by (rule bexI [rotated]) (simp add: opt_entry_def m(2))
  qed
  have gids: "(k, v) \<in> set (List.map_filter (\<lambda>((_, gid), m). opt_entry gid m) (zip ids es)) \<longleftrightarrow>
      (\<exists>m \<in> set es. v = (pc_identity m, pc_profile m) \<and>
        numeric_id (ie_group ie) (pc_gid m) (pc_groupname m) = Inr (Some k))" (is "?lhs k v \<longleftrightarrow> ?rhs k v") for k v
  proof
    assume "?lhs k v"
    then obtain u g m where "((u, g), m) \<in> set (zip ids es)" "opt_entry g m = Some (k, v)"
      by (auto simp: in_map_filter)
    then show "?rhs k v"
      by (auto simp: opt_entry_def zipped)
  next
    assume "?rhs k v"
    then obtain m where m: "m \<in> set es" "v = (pc_identity m, pc_profile m)" "numeric_id (ie_group ie) (pc_gid m) (pc_groupname m) = Inr (Some k)"
      by blast
    from ex [OF m(1)] m(3) obtain other where "((other, Some k), m) \<in> set (zip ids es)"
      using m(1) by (auto simp: zipped peer_cred_ids_Inr)
    then show "?lhs k v"
      unfolding in_map_filter by (rule bexI [rotated]) (simp add: opt_entry_def m(2))
  qed
  have "(g, v) \<in> set cs \<longleftrightarrow> (\<exists>m \<in> set es. v = (pc_identity m, pc_profile m) \<and>
       (\<exists>pat. pc_cgroup m = Some pat \<and> gl_new (ie_glob ie) pat = Inr g))" for g v
    unfolding traverse_in [OF cs(1)]
    by (force simp: in_map_filter opt_entry_def split: sum.splits)
  with uids gids cs(2) show ?thesis
    by blast
qed

lemma peer_cred_answers:
  assumes "peer_cred_resolver ie es = Inr r"
  shows "answers_as ie cfg conn (RcPeerCred en es) (resolver_resolve (ie_net ie) (ie_glob ie) r conn)"
proof -
  obtain us gs cs where r: "r = PeerCredEntries us gs cs"
    and us: "\<forall>k v. (k, v) \<in> set us \<longleftrightarrow> (\<exists>m \<in> set es. v = (pc_identity m, pc_profile m) \<and>
       numeric_id (ie_user ie) (pc_uid m) (pc_username m) = Inr (Some k))"
    and gs: "\<forall>k v. (k, v) \<in> set gs \<longleftrightarrow> (\<exists>m \<in> set es. v = (pc_identity m, pc_profile m) \<and>
       numeric_id (ie_group ie) (pc_gid m) (pc_groupname m) = Inr (Some k))"
    and cs: "\<forall>g v. (g, v) \<in> set cs \<longleftrightarrow> (\<exists>m \<in> set es. v = (pc_identity m, pc_profile m) \<and>
       (\<exists>pat. pc_cgroup m = Some pat \<and> gl_new (ie_glob ie) pat = Inr g))"
    using peer_cred_resolver_entries [OF assms] by (elim exE conjE) (rule that)
  show ?thesis
  proof (cases "ci_peer_cred conn")
    case (Some cred)
    let ?u = "keyed (peer_uid cred) (\<lambda>u k. u = k) us" and ?g = "keyed (peer_gid cred) (\<lambda>g k. g = k) gs"
      and ?c = "keyed (peer_cgroup cred) (gl_match (ie_glob ie)) cs"
    have granted: "grants ie cfg conn (fst v) (Some (snd v)) (RcPeerCred en es)"
      if "m \<in> set es" "v = (pc_identity m, pc_profile m)" "entry_hits ie cred m" for m v
      using that Some by auto
    have hit_u: "grants ie cfg conn (fst v) (Some (snd v)) (RcPeerCred en es)" if "?u = Some v" for v
      using keyed_cases(1) [OF that] us granted [of _ v] by (metis entry_hits_def)
    have hit_g: "grants ie cfg conn (fst v) (Some (snd v)) (RcPeerCred en es)" if "?g = Some v" for v
      using keyed_cases(1) [OF that] gs granted [of _ v] by (metis entry_hits_def)
    have hit_c: "grants ie cfg conn (fst v) (Some (snd v)) (RcPeerCred en es)" if "?c = Some v" for v
      using keyed_cases(1) [OF that] cs granted [of _ v] by (metis entry_hits_def)
    have miss: "\<not> entry_hits ie cred m" if "?u = None" "?g = None" "?c = None" "m \<in> set es" for m
    proof
      assume "entry_hits ie cred m"
      then consider u where "numeric_id (ie_user ie) (pc_uid m) (pc_username m) = Inr (Some u)" "peer_uid cred = Some u"
        | g where "numeric_id (ie_group ie) (pc_gid m) (pc_groupname m) = Inr (Some g)" "peer_gid cred = Some g"
        | pat c g where "pc_cgroup m = Some pat" "peer_cgroup cred = Some c"
            "gl_new (ie_glob ie) pat = Inr g" "gl_match (ie_glob ie) g c"
        unfolding entry_hits_def by blast
      then show False
      proof cases
        case 1
        with us that(4) keyed_cases(2) [OF that(1) 1(2)] show False
          by metis
      next
        case 2
        with gs that(4) keyed_cases(2) [OF that(2) 2(2)] show False
          by metis
      next
        case 3
        with cs that(4) keyed_cases(2) [OF that(3) 3(2)] show False
          by metis
      qed
    qed
    have res: "resolver_resolve (ie_net ie) (ie_glob ie) r conn =
        (case ?u of Some e \<Rightarrow> Some (attributed_to ''peer_cred:uid'' e)
         | None \<Rightarrow> (case ?g of Some e \<Rightarrow> Some (attributed_to ''peer_cred:gid'' e)
             | None \<Rightarrow> map_option (attributed_to ''peer_cred:cgroup'') ?c))"
      by (simp add: r peer_cred_resolve_def Some)
    show ?thesis
    proof (cases "?u = None \<and> ?g = None \<and> ?c = None")
      case True
      with miss show ?thesis
        unfolding res by (auto simp: answers_as_def Some)
    next
      case False
      then show ?thesis
        unfolding res answers_as_def
        by (cases ?u; cases ?g; cases ?c; simp only: option.case option.map attributed_to_simps simp_thms
            hit_u hit_g hit_c)
    qed
  qed (simp add: answers_as_def r peer_cred_resolve_def)
qed

lemma first_opinion_append:
  "first_opinion net gl (rs @ rs') conn =
     (case first_opinion net gl rs conn of Some r \<Rightarrow> Some r | None \<Rightarrow> first_opinion net gl rs' conn)"
  by (induction rs) (auto split: option.splits)

lemma build_resolver_answers:
  assumes "build_resolver ie cfg rc = Inr rs"
  shows "answers_as ie cfg conn rc (first_opinion (ie_net ie) (ie_glob ie) rs conn)"
proof (cases rc)
  case (RcProxyAuth es)
  with assms obtain entries where entries: "proxy_auth_entries (ie_env ie) es = Inr entries"
      "rs = (if entries = [] then [] else [ProxyAuth entries])"
    by (cases "proxy_auth_entries (ie_env ie) es") auto
  have "first_opinion (ie_net ie) (ie_glob ie) rs conn = proxy_auth_resolve entries conn"
    by (auto simp: entries(2) proxy_auth_resolve_def split: option.splits)
  with proxy_auth_answers [OF entries(1)] RcProxyAuth show ?thesis
    by simp
next
  case (RcSourceIp es)
  with assms obtain entries where "source_ip_entries (ie_net ie) es = Inr entries" "rs = [SourceIp entries]"
    by (cases "source_ip_entries (ie_net ie) es") auto
  with source_ip_answers [of ie es entries cfg conn] RcSourceIp show ?thesis
    by (auto split: option.split)
next
  case (RcPeerCred en es)
  with assms obtain r where "peer_cred_resolver ie es = Inr r" "rs = [r]"
    by (cases "peer_cred_resolver ie es") auto
  with peer_cred_answers [of ie es r cfg conn en] RcPeerCred show ?thesis
    by (auto split: option.split)
next
  case RcRun
  with assms run_answers [of ie cfg conn] show ?thesis
    by (auto split: option.split)
next
  case (RcListenerPort es)
  with assms listener_port_answers [of ie cfg conn es] show ?thesis
    by (auto split: option.split)
qed

lemma first_opinion_answers:
  assumes "traverse (build_resolver ie cfg) rcs = Inr rss"
  shows "case first_opinion (ie_net ie) (ie_glob ie) (concat rss) conn of
      Some r \<Rightarrow> rs_attributed r \<and> (\<exists>rc \<in> set rcs. grants ie cfg conn (rs_identity r) (rs_profile r) rc)
    | None \<Rightarrow> \<forall>rc \<in> set rcs. \<forall>i p. \<not> grants ie cfg conn i p rc"
  using assms
proof (induction rcs arbitrary: rss)
  case (Cons rc rcs)
  then obtain rs rss' where one: "build_resolver ie cfg rc = Inr rs"
      and rest: "traverse (build_resolver ie cfg) rcs = Inr rss'" "rss = rs # rss'"
    by (auto split: sum.splits)
  from build_resolver_answers [OF one, of conn] Cons.IH [OF rest(1)] show ?case
    by (auto simp: rest(2) first_opinion_append answers_as_def split: option.splits)
qed simp

text \<open>
  C6 (safety). Attribution is earned: a connection is recorded as attributed only with an identity
  and a profile that an entry of the configuration gives to that very connection, by its
  credential, its address, the port it came in on, the kernel's word on its process or the scope it
  was launched in. When no entry matches, it is the unidentified one, under the fallback
  profile, and marked as unattributed.
\<close>

theorem attribution_is_earned:
  assumes "build_identities ie cfg fallback = Inr reg"
  shows "let r = registry_resolve (ie_net ie) (ie_glob ie) reg conn in
    if rs_attributed r
    then \<exists>rc \<in> set (id_resolvers (cf_identities cfg)). grants ie cfg conn (rs_identity r) (rs_profile r) rc
    else r = \<lparr>rs_identity = unidentified_identity, rs_profile = fallback, rs_attributed = False, rs_resolver = None\<rparr> \<and>
      (\<forall>rc \<in> set (id_resolvers (cf_identities cfg)). \<forall>i p. \<not> grants ie cfg conn i p rc)"
proof -
  obtain rss where rss: "traverse (build_resolver ie cfg) (id_resolvers (cf_identities cfg)) = Inr rss"
      "rg_resolvers reg = concat rss" "rg_fallback reg = fallback"
    using assms by (auto simp: build_identities_def split: sum.splits)
  from first_opinion_answers [OF rss(1), of conn] show ?thesis
    by (auto simp: registry_resolve_def rss Let_def split: option.splits)
qed

definition no_libs :: "(string, string) identity_env" where
  "no_libs =
     \<lparr>ie_net = \<lparr>net_parse = Some, net_contains = (\<lambda>n ip. n = show_ip ip), net_show = id\<rparr>,
      ie_glob = \<lparr>gl_new = Inr, gl_match = (\<lambda>g s. g = s)\<rparr>,
      ie_env = \<lparr>en_process = (\<lambda>_. EnvNotPresent), en_overlay = None\<rparr>,
      ie_user = (\<lambda>n. Inl (NoSuchName n)), ie_group = (\<lambda>n. Inl (NoSuchName n))\<rparr>"

definition port_config :: config where
  "port_config = default_config\<lparr>cf_identities :=
     \<lparr>id_resolvers = [RcListenerPort [\<lparr>lp_port = 8081, lp_identity = ''agent'', lp_profile = ''p''\<rparr>]],
      id_unidentified = None\<rparr>\<rparr>"

definition local_conn :: "u16 \<Rightarrow> conn_info" where
  "local_conn port =
     \<lparr>ci_ingress = Explicit, ci_client_addr = \<lparr>sa_ip = V4 127 0 0 1, sa_port = 40000\<rparr>,
      ci_local_addr = \<lparr>sa_ip = V4 127 0 0 1, sa_port = port\<rparr>, ci_proxy_auth = None, ci_peer_cred = None\<rparr>"

theorem attribution_is_earned_witness:
  "\<exists>reg. build_identities no_libs port_config None = Inr reg \<and>
     registry_resolve (ie_net no_libs) (ie_glob no_libs) reg (local_conn 8081) =
       attributed_to ''listener_port'' (''agent'', ''p'') \<and>
     (\<exists>rc \<in> set (id_resolvers (cf_identities port_config)).
        grants no_libs port_config (local_conn 8081) ''agent'' (Some ''p'') rc) \<and>
     rs_identity (registry_resolve (ie_net no_libs) (ie_glob no_libs) reg (local_conn 8080)) = unidentified_identity"
proof -
  let ?reg = "\<lparr>rg_resolvers = [ListenerPorts [(8081, ''agent'', ''p'')]], rg_fallback = None,
    rg_deny_unidentified = False, rg_enrich = False\<rparr>"
  have built: "build_identities no_libs port_config None = Inr ?reg"
    by (simp add: build_identities_def port_config_def)
  have "registry_resolve (ie_net no_libs) (ie_glob no_libs) ?reg (local_conn 8081) =
      attributed_to ''listener_port'' (''agent'', ''p'')"
    and "rs_identity (registry_resolve (ie_net no_libs) (ie_glob no_libs) ?reg (local_conn 8080)) = unidentified_identity"
    by (simp_all add: registry_resolve_def listener_port_resolve_def local_conn_def)
  with built attribution_is_earned [OF built, of "local_conn 8081"] show ?thesis
    by (intro exI [of _ ?reg]) (simp add: Let_def)
qed

section \<open>The kernel's table\<close>

text \<open>
  The table as the kernel writes it: addresses as native words in capital hexadecimal digits, the
  other columns as words without white space.
\<close>

definition upper_hex :: "nat \<Rightarrow> char" where
  "upper_hex d = (if d < 10 then char_of (48 + d) else char_of (55 + d))"

fun hex_fixed :: "nat \<Rightarrow> nat \<Rightarrow> string" where
  "hex_fixed 0 n = []"
| "hex_fixed (Suc k) n = hex_fixed k (n div 16) @ [upper_hex (n mod 16)]"

definition le_word :: "byte \<Rightarrow> byte \<Rightarrow> byte \<Rightarrow> byte \<Rightarrow> u32" where
  "le_word a b c d = ucast a OR push_bit 8 (ucast b) OR push_bit 16 (ucast c) OR push_bit 24 (ucast d)"

definition native_word :: "byte \<Rightarrow> byte \<Rightarrow> byte \<Rightarrow> byte \<Rightarrow> string" where
  "native_word a b c d = hex_fixed 8 (unat (le_word a b c d))"

definition hi :: "u16 \<Rightarrow> byte" where "hi s = ucast (drop_bit 8 s)"
definition lo :: "u16 \<Rightarrow> byte" where "lo s = ucast s"

fun kernel_addr :: "ip_addr \<Rightarrow> string" where
  "kernel_addr (V4 a b c d) = native_word a b c d"
| "kernel_addr (V6 s0 s1 s2 s3 s4 s5 s6 s7) =
     native_word (hi s0) (lo s0) (hi s1) (lo s1) @ native_word (hi s2) (lo s2) (hi s3) (lo s3)
     @ native_word (hi s4) (lo s4) (hi s5) (lo s5) @ native_word (hi s6) (lo s6) (hi s7) (lo s7)"

record tcp_row =
  tr_addr :: ip_addr
  tr_port :: u16
  tr_uid :: u32
  tr_inode :: u64
  tr_slot :: string
  tr_remote :: string
  tr_state :: string
  tr_queues :: string
  tr_timer :: string
  tr_retrans :: string
  tr_timeout :: string
  tr_rest :: "string list"

definition row_fields :: "tcp_row \<Rightarrow> string list" where
  "row_fields r =
     [tr_slot r, kernel_addr (tr_addr r) @ '':'' @ hex_fixed 4 (unat (tr_port r)), tr_remote r, tr_state r,
      tr_queues r, tr_timer r, tr_retrans r, show_nat (unat (tr_uid r)), tr_timeout r,
      show_nat (unat (tr_inode r))] @ tr_rest r"

definition kernel_row :: "tcp_row \<Rightarrow> string" where
  "kernel_row r = join '' '' (row_fields r)"

definition terminated :: "string list \<Rightarrow> string" where
  "terminated ls = concat (map (\<lambda>l. l @ [CHR 0x0A]) ls)"

definition kernel_table :: "string \<Rightarrow> tcp_row list \<Rightarrow> string" where
  "kernel_table header rows = terminated (header # map kernel_row rows)"

definition plain_char :: "char \<Rightarrow> bool" where
  "plain_char c \<longleftrightarrow> 0x21 \<le> (of_char c :: nat) \<and> (of_char c :: nat) \<le> 0x7E"

definition plain_word :: "string \<Rightarrow> bool" where
  "plain_word w \<longleftrightarrow> w \<noteq> [] \<and> list_all plain_char w"

definition row_ok :: "tcp_row \<Rightarrow> bool" where
  "row_ok r \<longleftrightarrow> list_all plain_word
     ([tr_slot r, tr_remote r, tr_state r, tr_queues r, tr_timer r, tr_retrans r, tr_timeout r] @ tr_rest r)"

lemma upper_hex_props:
  assumes "d < 16"
  shows "digit_val 16 (upper_hex d) = Some d" and "plain_char (upper_hex d)"
    and "upper_hex d \<noteq> CHR ''+''" and "upper_hex d \<noteq> CHR '':''"
proof -
  have "list_all (\<lambda>d. digit_val 16 (upper_hex d) = Some d \<and> plain_char (upper_hex d) \<and>
      upper_hex d \<noteq> CHR ''+'' \<and> upper_hex d \<noteq> CHR '':'') [0..<16]"
    by code_simp
  with assms show "digit_val 16 (upper_hex d) = Some d" "plain_char (upper_hex d)"
      "upper_hex d \<noteq> CHR ''+''" "upper_hex d \<noteq> CHR '':''"
    by (simp_all add: list_all_iff)
qed

lemma length_hex_fixed [simp]: "length (hex_fixed k n) = k"
  by (induction k arbitrary: n) simp_all

lemma hex_fixed_chars: "c \<in> set (hex_fixed k n) \<Longrightarrow> plain_char c \<and> c \<noteq> CHR ''+'' \<and> c \<noteq> CHR '':''"
  by (induction k arbitrary: n) (auto simp: upper_hex_props)

lemma hex_value_append: "hex_value acc (s @ t) = Option.bind (hex_value acc s) (\<lambda>n. hex_value n t)"
  by (induction acc s rule: hex_value.induct) (auto split: option.splits)

lemma hex_value_fixed: "n < 16 ^ k \<Longrightarrow> hex_value 0 (hex_fixed k n) = Some n"
proof (induction k arbitrary: n)
  case (Suc k)
  then have "hex_value 0 (hex_fixed k (n div 16)) = Some (n div 16)"
    by (simp add: less_mult_imp_div_less mult.commute)
  then show ?case
    by (simp add: hex_value_append upper_hex_props)
qed simp

lemma parse_hex_fixed:
  assumes "0 < k" and "n < 16 ^ k" and "n \<le> limit"
  shows "parse_hex limit (hex_fixed k n) = Some n"
proof -
  obtain c t where ct: "hex_fixed k n = c # t"
    using assms(1) by (metis length_hex_fixed list.exhaust list.size(3) less_irrefl)
  with hex_fixed_chars [of c k n] have "c \<noteq> CHR ''+''"
    by simp
  with hex_value_fixed [OF assms(2)] assms(3) show ?thesis
    unfolding parse_hex_def ct by simp
qed

lemma hex_word_fixed: "hex_word (hex_fixed 8 (unat w)) = Some w"
proof -
  have "unat w < 2 ^ 32"
    using unsigned_less [of w, where ?'a = nat] by simp
  then show ?thesis
    by (simp add: hex_word_def parse_hex_fixed)
qed

lemma le_octets_word: "le_octets (le_word a b c d) = [a, b, c, d]"
  unfolding le_octets_def le_word_def by (auto intro!: bit_word_eqI simp: bit_simps)

lemma be16_hi_lo: "be16 (hi s) (lo s) = s"
  unfolding be16_def hi_def lo_def by (rule bit_word_eqI) (auto simp: bit_simps)

lemma length_native_word [simp]: "length (native_word a b c d) = 8"
  by (simp add: native_word_def)

lemma hex_word_native: "hex_word (native_word a b c d) = Some (le_word a b c d)"
  by (simp add: native_word_def hex_word_fixed)

lemma kernel_addr_chars: "c \<in> set (kernel_addr ip) \<Longrightarrow> plain_char c \<and> c \<noteq> CHR '':''"
  by (cases ip) (auto simp: native_word_def dest: hex_fixed_chars)

lemma parse_kernel_addr:
  "parse_hex_addr (kernel_addr ip @ '':'' @ hex_fixed 4 (unat p)) = Some (ip, p)"
proof -
  have split: "split_once (CHR '':'') (kernel_addr ip @ '':'' @ hex_fixed 4 (unat p)) =
      Some (kernel_addr ip, hex_fixed 4 (unat p))"
    unfolding split_once_Some using kernel_addr_chars by auto
  have "unat p < 2 ^ 16"
    using unsigned_less [of p, where ?'a = nat] by simp
  then have port: "parse_hex 0xFFFF (hex_fixed 4 (unat p)) = Some (unat p)"
    by (simp add: parse_hex_fixed)
  show ?thesis
  proof (cases ip)
    case V4
    then show ?thesis
      unfolding parse_hex_addr_def split option.case prod.case port
      by (simp add: hex_word_native le_octets_word)
  next
    case V6
    then show ?thesis
      unfolding parse_hex_addr_def split option.case prod.case port
      by (simp add: hex_word_native le_octets_word v6_of_octets_def v6_of_def be16_hi_lo)
  qed
qed

lemma plain_no_white_space: "plain_char c \<Longrightarrow> find (\<lambda>x. prefix x (c # t)) white_space = None"
proof -
  have "list_all (\<lambda>x. x \<noteq> [] \<and> \<not> plain_char (hd x)) white_space"
    by code_simp
  moreover assume "plain_char c"
  ultimately show ?thesis
    by (auto simp: find_None_iff list_all_iff prefix_def) (metis append_Cons list.exhaust_sel list.inject)
qed

lemma split_ws_plain: "list_all plain_char u \<Longrightarrow> split_ws 0 w (u @ t) = split_ws 0 (w @ u) t"
  by (induction u arbitrary: w) (simp_all add: plain_no_white_space)

lemma split_ws_space: "split_ws 0 w (CHR '' '' # t) = flush_word w @ split_ws 0 [] t"
  by (simp add: white_space_def)

lemma split_whitespace_join: "list_all plain_word ws \<Longrightarrow> split_whitespace (join '' '' ws) = ws"
proof (induction ws rule: induct_list012)
  case (2 w)
  then show ?case
    using split_ws_plain [of w "[]" "[]"] by (simp add: split_whitespace_def plain_word_def flush_word_def)
next
  case (3 w v ws)
  then show ?case
    by (simp add: split_whitespace_def split_ws_plain split_ws_space plain_word_def flush_word_def del: split_ws.simps)
qed (simp add: split_whitespace_def flush_word_def)

lemma split_inclusive_line:
  "d \<notin> set l \<Longrightarrow> split_inclusive d (l @ d # t) = (l @ [d]) # split_inclusive d t"
  by (induction l) auto

lemma str_lines_terminated:
  assumes "\<forall>l \<in> set ls. CHR 0x0A \<notin> set l \<and> CHR 0x0D \<notin> set l"
  shows "str_lines (terminated ls) = ls"
  using assms
proof (induction ls)
  case (Cons l ls)
  have "line_of (l @ [CHR 0x0A]) = l"
  proof -
    have "strip_suffix [CHR 0x0D] l = None"
      using Cons.prems by (auto simp: strip_suffix_def suffix_def)
    then show ?thesis
      by (simp add: line_of_def strip_suffix_def)
  qed
  with Cons show ?case
    by (simp add: str_lines_def terminated_def split_inclusive_line)
qed (simp add: str_lines_def terminated_def)

lemma plain_show_nat: "plain_word (show_nat n)"
  by (auto simp: plain_word_def list_all_iff plain_char_def is_ascii_digit_def less_eq_char_def
      dest!: show_nat_digits)

lemma plain_addr: "plain_word (kernel_addr ip @ CHR '':'' # hex_fixed k n)"
proof -
  have "plain_char (CHR '':'')"
    by (simp add: plain_char_def)
  then show ?thesis
    by (auto simp: plain_word_def list_all_iff dest: kernel_addr_chars hex_fixed_chars)
qed

lemma plain_row: "row_ok r \<Longrightarrow> list_all plain_word (row_fields r)"
  by (simp add: row_ok_def row_fields_def plain_show_nat plain_addr)

lemma row_no_breaks: "row_ok r \<Longrightarrow> CHR 0x0A \<notin> set (kernel_row r) \<and> CHR 0x0D \<notin> set (kernel_row r)"
proof -
  have join: "c \<in> set (join '' '' ws) \<Longrightarrow> c = CHR '' '' \<or> (\<exists>w \<in> set ws. c \<in> set w)" for c ws
    by (induction ws rule: induct_list012) auto
  have "\<not> plain_char (CHR 0x0A)" "\<not> plain_char (CHR 0x0D)"
    by (simp_all add: plain_char_def)
  moreover assume "row_ok r"
  note plain_row [OF this]
  ultimately show ?thesis
    unfolding kernel_row_def list_all_iff plain_word_def using join by fastforce
qed

lemma parse_u32_show: "parse_u32 (show_nat (unat u)) = Some u"
proof -
  have "unat u < 2 ^ 32"
    using unsigned_less [of u, where ?'a = nat] by simp
  then show ?thesis
    by (simp add: parse_u32_def parse_uint_show)
qed

lemma parse_u64_show: "parse_u64 (show_nat (unat u)) = Some u"
proof -
  have "unat u < 2 ^ 64"
    using unsigned_less [of u, where ?'a = nat] by simp
  then show ?thesis
    by (simp add: parse_u64_def parse_uint_show)
qed

definition local_to :: "socket_addr \<Rightarrow> tcp_row \<Rightarrow> bool" where
  "local_to peer r \<longleftrightarrow> tr_port r = sa_port peer \<and> same_addr (tr_addr r) peer"

lemma find_entry_rows:
  "\<forall>r \<in> set rows. row_ok r \<Longrightarrow>
     find_entry_lines (map kernel_row rows) peer =
       map_option (\<lambda>r. (tr_uid r, tr_inode r)) (find (local_to peer) rows)"
proof (induction rows)
  case (Cons r rows)
  then have "split_whitespace (kernel_row r) = row_fields r"
    by (simp add: kernel_row_def split_whitespace_join plain_row)
  with Cons show ?case
    by (simp add: row_fields_def parse_kernel_addr [simplified] parse_u32_show parse_u64_show local_to_def)
qed simp

text \<open>
  The owner of a connection is looked up by its local end: in a table as the kernel
  writes it, the user and the socket found are those of the first row whose local port and address
  are the client's, an IPv4 address and its mapped form being the same address.
\<close>

lemma owner_is_of_first_local_row:
  assumes "\<forall>r \<in> set rows. row_ok r" and "CHR 0x0A \<notin> set header" and "CHR 0x0D \<notin> set header"
  shows "find_entry (kernel_table header rows) peer =
    map_option (\<lambda>r. (tr_uid r, tr_inode r)) (find (local_to peer) rows)"
proof -
  have "str_lines (kernel_table header rows) = header # map kernel_row rows"
    unfolding kernel_table_def by (rule str_lines_terminated) (use assms row_no_breaks in auto)
  then show ?thesis
    by (simp add: find_entry_def find_entry_rows [OF assms(1)])
qed

definition sample_row :: "u32 \<Rightarrow> string \<Rightarrow> tcp_row" where
  "sample_row uid remote =
     \<lparr>tr_addr = V4 127 0 0 1, tr_port = 40000, tr_uid = uid, tr_inode = 12345, tr_slot = ''0:'',
      tr_remote = remote, tr_state = ''01'', tr_queues = ''00000000:00000000'', tr_timer = ''00:00000000'',
      tr_retrans = ''00000000'', tr_timeout = ''0'', tr_rest = []\<rparr>"

abbreviation sample_peer :: socket_addr where
  "sample_peer \<equiv> \<lparr>sa_ip = V4 127 0 0 1, sa_port = 40000\<rparr>"

lemma sample_row_ok: "plain_word remote \<Longrightarrow> row_ok (sample_row uid remote)"
  by (simp add: row_ok_def sample_row_def plain_word_def plain_char_def)

lemma sample_row_local: "local_to sample_peer (sample_row uid remote)"
  by (simp add: local_to_def sample_row_def same_addr_def)

text \<open>
  The remote column is not compared: where two sockets have the same local end and different remote
  ends, as the kernel allows for outgoing connections, the first row's user is taken for both.
\<close>

lemma remote_end_is_not_compared:
  assumes "plain_word remote" and "plain_word remote'"
  shows "find_entry (kernel_table [] [sample_row uid remote, sample_row uid' remote']) sample_peer = Some (uid, 12345)"
proof -
  have rows: "kernel_table [] [sample_row uid remote, sample_row uid' remote'] =
      terminated ([] # map kernel_row [sample_row uid remote, sample_row uid' remote'])"
    by (simp add: kernel_table_def)
  have "str_lines (kernel_table [] [sample_row uid remote, sample_row uid' remote']) =
      [] # map kernel_row [sample_row uid remote, sample_row uid' remote']"
    unfolding rows by (rule str_lines_terminated) (use assms row_no_breaks sample_row_ok in auto)
  moreover have "find_entry_lines (map kernel_row [sample_row uid remote, sample_row uid' remote']) sample_peer =
      Some (uid, 12345)"
    using find_entry_rows [of "[sample_row uid remote, sample_row uid' remote']" sample_peer] assms
    by (simp add: sample_row_ok sample_row_local) (simp add: sample_row_def)
  ultimately show ?thesis
    by (simp add: find_entry_def)
qed

end
