(* ===== verification/Front.thy ===== *)
theory Front
  imports Identity Intercept
begin

text \<open>
  The front ends of \<open>crates/marshal-proxy/src\<close>: telling the protocols apart and reading the server name of
  a ClientHello (\<open>sniff.rs\<close>), the HTTP request head (\<open>httpfront.rs\<close>), the SOCKS5 handshake
  (\<open>socks5.rs\<close>), bytes pushed back (\<open>rewind.rs\<close>) and the relay of a tunnel (\<open>tunnel.rs\<close>). A stream
  is the list of the bytes still to come; its end is the only way reading fails.
\<close>

section \<open>Sniffing\<close>

datatype protocol = Socks5 | Socks4 | HttpProxy

definition detect :: "byte \<Rightarrow> protocol" where
  "detect first_byte = (if first_byte = 0x05 then Socks5 else if first_byte = 0x04 then Socks4 else HttpProxy)"

text \<open>The cursor of \<open>sniff.rs\<close> is what is left of the buffer.\<close>

definition rd_take :: "nat \<Rightarrow> byte list \<Rightarrow> (byte list \<times> byte list) option" where
  "rd_take n bs = (if n \<le> length bs then Some (take n bs, drop n bs) else None)"

definition rd_skip :: "nat \<Rightarrow> byte list \<Rightarrow> byte list option" where
  "rd_skip n bs = map_option snd (rd_take n bs)"

fun rd_u8 :: "byte list \<Rightarrow> (byte \<times> byte list) option" where
  "rd_u8 (b # r) = Some (b, r)"
| "rd_u8 _ = None"

fun rd_u16 :: "byte list \<Rightarrow> (nat \<times> byte list) option" where
  "rd_u16 (a # b # r) = Some (unat a * 256 + unat b, r)"
| "rd_u16 _ = None"

fun rd_u24 :: "byte list \<Rightarrow> (nat \<times> byte list) option" where
  "rd_u24 (a # b # c # r) = Some (unat a * 65536 + unat b * 256 + unat c, r)"
| "rd_u24 _ = None"

lemma rd_take_length: "rd_take n bs = Some (x, r) \<Longrightarrow> length r + n = length bs"
  by (auto simp: rd_take_def split: if_splits)

function sni_names :: "byte list \<Rightarrow> string option" where
  "sni_names l =
    (case l of
       t # a # b # r \<Rightarrow>
         (case rd_take (unat a * 256 + unat b) r of
            None \<Rightarrow> None
          | Some (name, r') \<Rightarrow>
              if t = 0 then map_option to_ascii_lowercase (from_utf8 name) else sni_names r')
     | _ \<Rightarrow> None)"
  by pat_completeness auto
termination
  by (relation "measure length") (auto dest: rd_take_length)

declare sni_names.simps [simp del]

function sni_extensions :: "byte list \<Rightarrow> string option" where
  "sni_extensions e =
    (case e of
       t1 # t2 # a # b # r \<Rightarrow>
         (case rd_take (unat a * 256 + unat b) r of
            None \<Rightarrow> None
          | Some (body, r') \<Rightarrow>
              if \<not> (t1 = 0 \<and> t2 = 0) then sni_extensions r'
              else (case rd_u16 body of
                      None \<Rightarrow> None
                    | Some (list_len, s) \<Rightarrow>
                        (case rd_take list_len s of None \<Rightarrow> None | Some (names, _) \<Rightarrow> sni_names names)))
     | _ \<Rightarrow> None)"
  by pat_completeness auto
termination
  by (relation "measure length") (auto dest: rd_take_length)

declare sni_extensions.simps [simp del]

text \<open>The handshake message after its header: version, random, session, cipher suites, compression.\<close>

definition sni_from_hello :: "byte list \<Rightarrow> string option" where
  "sni_from_hello hs =
    do { hs \<leftarrow> rd_skip 2 hs;
         hs \<leftarrow> rd_skip 32 hs;
         (n, hs) \<leftarrow> rd_u8 hs;
         hs \<leftarrow> rd_skip (unat n) hs;
         (n, hs) \<leftarrow> rd_u16 hs;
         hs \<leftarrow> rd_skip n hs;
         (n, hs) \<leftarrow> rd_u8 hs;
         hs \<leftarrow> rd_skip (unat n) hs;
         (n, hs) \<leftarrow> rd_u16 hs;
         (ext, _) \<leftarrow> rd_take n hs;
         sni_extensions ext }"

definition sni_from_client_hello :: "byte list \<Rightarrow> string option" where
  "sni_from_client_hello buf =
    do { (content_type, r) \<leftarrow> rd_u8 buf;
         (if content_type \<noteq> 0x16 then None else Some ());
         r \<leftarrow> rd_skip 2 r;
         (record_len, r) \<leftarrow> rd_u16 r;
         (rec, _) \<leftarrow> rd_take record_len r;
         (msg_type, rec) \<leftarrow> rd_u8 rec;
         (if msg_type \<noteq> 0x01 then None else Some ());
         (hs_len, rec) \<leftarrow> rd_u24 rec;
         (hs, _) \<leftarrow> rd_take hs_len rec;
         sni_from_hello hs }"

definition check_sni :: "byte list \<Rightarrow> authority \<Rightarrow> string option" where
  "check_sni looked a =
    (case sni_from_client_hello looked of
       None \<Rightarrow> None
     | Some sni \<Rightarrow>
         if sni = to_ascii_lowercase (auth_host a) then None
         else Some (''CONNECT authority `'' @ auth_host a @ ''` does not match TLS SNI `'' @ sni
           @ ''`; refusing to relay''))"

section \<open>A relay that looks first\<close>

definition max_opening_bytes :: nat where
  "max_opening_bytes = 8 * 1024"

text \<open>
  The client's side of the relay is the list of what its reads return; an empty read is the end.
\<close>

fun read_opening :: "byte list \<Rightarrow> byte list list \<Rightarrow> byte list \<times> byte list list" where
  "read_opening buf [] = (buf, [])"
| "read_opening buf (chunk # rest) =
    (if chunk = [] then (buf, rest)
     else
       (let b = buf @ chunk in
        if b ! 0 \<noteq> 0x16 then (b, rest)
        else if 5 \<le> length b \<and>
            (5 + (unat (b ! 3) * 256 + unat (b ! 4)) \<le> length b \<or> max_opening_bytes \<le> length b) then (b, rest)
        else if max_opening_bytes \<le> length b then (b, rest)
        else read_opening b rest))"

text \<open>What reaches the upstream, or why nothing does.\<close>

definition relay_inspected :: "(byte list \<Rightarrow> string option) \<Rightarrow> byte list list \<Rightarrow> string + byte list" where
  "relay_inspected inspect chunks =
    (case read_opening [] chunks of
       (looked, rest) \<Rightarrow>
         (case inspect looked of
            Some why \<Rightarrow> Inl why
          | None \<Rightarrow> Inr (looked @ concat (takeWhile (\<lambda>c. c \<noteq> []) rest))))"

section \<open>Bytes pushed back\<close>

record rewind =
  rw_prefix :: "byte list"
  rw_pos :: nat
  rw_inner :: "byte list"

definition rewind_new :: "byte list \<Rightarrow> byte list \<Rightarrow> rewind" where
  "rewind_new inner pushed = \<lparr>rw_prefix = pushed, rw_pos = 0, rw_inner = inner\<rparr>"

text \<open>One read into a buffer of \<open>cap\<close> bytes; the inner stream gives what it has, up to \<open>cap\<close>.\<close>

definition rewind_read :: "nat \<Rightarrow> rewind \<Rightarrow> byte list \<times> rewind" where
  "rewind_read cap r =
    (if rw_pos r < length (rw_prefix r)
     then
       (let remaining = drop (rw_pos r) (rw_prefix r); n = min (length remaining) cap;
            r' = r\<lparr>rw_pos := rw_pos r + n\<rparr> in
        (take n remaining,
         if rw_pos r' = length (rw_prefix r') then r'\<lparr>rw_prefix := [], rw_pos := 0\<rparr> else r'))
     else (take cap (rw_inner r), r\<lparr>rw_inner := drop cap (rw_inner r)\<rparr>))"

definition rewind_stream :: "rewind \<Rightarrow> byte list" where
  "rewind_stream r = drop (rw_pos r) (rw_prefix r) @ rw_inner r"

lemma take_then_drop: "take n (drop p xs) @ drop (p + n) xs = drop p xs"
  by (metis add.commute append_take_drop_id drop_drop)

lemma rewind_reads_in_order:
  "rewind_read cap r = (bs, r') \<Longrightarrow> bs @ rewind_stream r' = rewind_stream r"
  by (auto simp: rewind_read_def rewind_stream_def Let_def min_def take_then_drop split: if_splits)

section \<open>What a ClientHello says\<close>

definition be_len16 :: "nat \<Rightarrow> byte list" where
  "be_len16 n = [word_of_nat (n div 256), word_of_nat (n mod 256)]"

definition vec16 :: "byte list \<Rightarrow> byte list" where
  "vec16 bs = be_len16 (length bs) @ bs"

text \<open>A ClientHello by its parts; \<open>ch_pre\<close> and \<open>ch_post\<close> are extensions (type and body).\<close>

record client_hello =
  ch_version :: "byte list"
  ch_random :: "byte list"
  ch_session :: "byte list"
  ch_ciphers :: "byte list"
  ch_compression :: "byte list"
  ch_pre :: "((byte \<times> byte) \<times> byte list) list"
  ch_name :: string
  ch_post :: "byte list"

definition ext_bytes :: "(byte \<times> byte) \<times> byte list \<Rightarrow> byte list" where
  "ext_bytes e = [fst (fst e), snd (fst e)] @ vec16 (snd e)"

definition server_name_list :: "string \<Rightarrow> byte list" where
  "server_name_list name = [0] @ vec16 (bytes_of name)"

definition hello_extensions :: "client_hello \<Rightarrow> byte list" where
  "hello_extensions h =
     concat (map ext_bytes (ch_pre h)) @ ext_bytes ((0, 0), vec16 (server_name_list (ch_name h))) @ ch_post h"

definition hello_message :: "client_hello \<Rightarrow> byte list" where
  "hello_message h =
     ch_version h @ ch_random h @ [word_of_nat (length (ch_session h))] @ ch_session h @ vec16 (ch_ciphers h)
     @ [word_of_nat (length (ch_compression h))] @ ch_compression h @ vec16 (hello_extensions h)"

definition handshake_bytes :: "client_hello \<Rightarrow> byte list" where
  "handshake_bytes h =
     (let m = hello_message h in
      [1, word_of_nat (length m div 65536)] @ be_len16 (length m mod 65536) @ m)"

definition record_bytes :: "byte list \<Rightarrow> byte list" where
  "record_bytes fragment = [0x16, 3, 1] @ vec16 fragment"

definition hello_ok :: "client_hello \<Rightarrow> bool" where
  "hello_ok h \<longleftrightarrow>
     length (ch_version h) = 2 \<and> length (ch_random h) = 32 \<and> length (ch_session h) < 256 \<and>
     length (ch_compression h) < 256 \<and> length (handshake_bytes h) < 65536 \<and>
     (\<forall>e \<in> set (ch_pre h). fst e \<noteq> (0, 0)) \<and> utf8_ok (bytes_of (ch_name h))"

lemma unat_byte: "n < 256 \<Longrightarrow> unat (word_of_nat n :: byte) = n"
  by (simp add: unat_of_nat)

lemma rd_u16_len [simp]: "n < 65536 \<Longrightarrow> rd_u16 (be_len16 n @ r) = Some (n, r)"
  by (simp add: be_len16_def unat_byte)

lemma rd_take_append [simp]: "rd_take (length bs) (bs @ r) = Some (bs, r)"
  by (simp add: rd_take_def)

lemma rd_skip_append: "length bs = n \<Longrightarrow> rd_skip n (bs @ r) = Some r"
  by (simp add: rd_skip_def rd_take_def)

lemma rd_vec16: "length bs < 65536 \<Longrightarrow> rd_u16 (vec16 bs @ r) = Some (length bs, bs @ r)"
  by (simp add: vec16_def)

lemma length_vec16 [simp]: "length (vec16 bs) = length bs + 2"
  by (simp add: vec16_def be_len16_def)

lemma sni_names_found:
  assumes "length (bytes_of name) < 65536" and "utf8_ok (bytes_of name)"
  shows "sni_names (server_name_list name) = Some (to_ascii_lowercase name)"
  using assms
  by (subst sni_names.simps)
    (simp add: server_name_list_def vec16_def be_len16_def unat_byte rd_take_def from_utf8_def)

lemma sni_extensions_skip:
  assumes "fst e \<noteq> (0, 0)" and "length (snd e) < 65536"
  shows "sni_extensions (ext_bytes e @ r) = sni_extensions r"
proof -
  obtain a b body where e: "e = ((a, b), body)"
    by (metis prod.exhaust)
  with assms show ?thesis
    by (subst sni_extensions.simps) (auto simp: ext_bytes_def vec16_def be_len16_def unat_byte rd_take_def)
qed

lemma sni_extensions_found:
  assumes "\<forall>e \<in> set pre. fst e \<noteq> (0, 0) \<and> length (snd e) < 65536"
    and "length (server_name_list name) + 2 < 65536" and "utf8_ok (bytes_of name)"
  shows "sni_extensions (concat (map ext_bytes pre) @ ext_bytes ((0, 0), vec16 (server_name_list name)) @ post) =
    Some (to_ascii_lowercase name)"
  using assms
proof (induction pre)
  case Nil
  have "length (bytes_of name) < 65536"
    using Nil.prems(2) by (simp add: server_name_list_def)
  with Nil show ?case
    by (subst sni_extensions.simps)
      (simp add: ext_bytes_def vec16_def be_len16_def unat_byte rd_take_def sni_names_found)
next
  case (Cons e pre)
  then show ?case
    by (simp add: sni_extensions_skip)
qed

lemma hello_ok_lengths:
  assumes "hello_ok h"
  shows "length (hello_message h) < 65532" and "length (ch_ciphers h) < 65536"
    and "length (hello_extensions h) < 65536" and "length (server_name_list (ch_name h)) + 2 < 65536"
    and "\<forall>e \<in> set (ch_pre h). fst e \<noteq> (0, 0) \<and> length (snd e) < 65536"
proof -
  have msg: "length (hello_message h) + 4 < 65536"
    using assms by (simp add: hello_ok_def handshake_bytes_def Let_def be_len16_def)
  then show "length (hello_message h) < 65532" "length (ch_ciphers h) < 65536"
    and ext: "length (hello_extensions h) < 65536"
    by (simp_all add: hello_message_def)
  then show "length (server_name_list (ch_name h)) + 2 < 65536"
    by (simp add: hello_extensions_def ext_bytes_def)
  have "length (snd e) \<le> length (concat (map ext_bytes (ch_pre h)))" if "e \<in> set (ch_pre h)" for e
    using that by (induction "ch_pre h" arbitrary: h) (auto simp: ext_bytes_def length_concat sum_list_map_remove1)
  moreover have "length (concat (map ext_bytes (ch_pre h))) < 65536"
    using ext by (simp add: hello_extensions_def)
  ultimately show "\<forall>e \<in> set (ch_pre h). fst e \<noteq> (0, 0) \<and> length (snd e) < 65536"
    using assms by (auto simp: hello_ok_def) (meson le_less_trans)
qed

lemma sni_from_hello_message:
  assumes "hello_ok h"
  shows "sni_from_hello (hello_message h) = Some (to_ascii_lowercase (ch_name h))"
proof -
  note len = hello_ok_lengths [OF assms]
  have ok: "length (ch_version h) = 2" "length (ch_random h) = 32" "length (ch_session h) < 256"
      "length (ch_compression h) < 256" "utf8_ok (bytes_of (ch_name h))"
    using assms by (simp_all add: hello_ok_def)
  have ext: "sni_extensions (hello_extensions h) = Some (to_ascii_lowercase (ch_name h))"
    unfolding hello_extensions_def using len ok by (intro sni_extensions_found) simp_all
  have "rd_take (length (hello_extensions h)) (hello_extensions h) = Some (hello_extensions h, [])"
    by (simp add: rd_take_def)
  moreover have "rd_u16 (vec16 (hello_extensions h)) = Some (length (hello_extensions h), hello_extensions h)"
    using rd_vec16 [OF len(3), of "[]"] by simp
  ultimately show ?thesis
    using ok len ext
    by (simp add: sni_from_hello_def hello_message_def rd_skip_append rd_vec16 unat_byte)
qed

lemma handshake_shape:
  assumes "hello_ok h"
  shows "\<exists>l. handshake_bytes h = 1 # l @ hello_message h \<and> length l = 3 \<and>
    (\<forall>r. rd_u24 (l @ r) = Some (length (hello_message h), r))"
proof -
  let ?n = "length (hello_message h)"
  have n: "?n < 65536"
    using hello_ok_lengths(1) [OF assms] by simp
  then have "?n div 65536 = 0" "?n mod 65536 = ?n"
    by simp_all
  then have bytes: "handshake_bytes h = 1 # (0 # be_len16 ?n) @ hello_message h"
    unfolding handshake_bytes_def Let_def by simp
  have "rd_u24 ((0 # be_len16 ?n) @ r) = Some (?n, r)" for r
    using n by (simp add: be_len16_def unat_byte)
  moreover have "length ((0 :: byte) # be_len16 ?n) = 3"
    by (simp add: be_len16_def)
  ultimately show ?thesis
    using bytes by blast
qed

lemma sni_of_record:
  assumes "length rec < 65536"
  shows "sni_from_client_hello (record_bytes rec @ more_bytes) =
    (case rec of [] \<Rightarrow> None
     | t # r \<Rightarrow> if t \<noteq> 1 then None
         else do { (n, r) \<leftarrow> rd_u24 r; (hs, _) \<leftarrow> rd_take n r; sni_from_hello hs })"
proof -
  have "rd_u16 (vec16 rec @ more_bytes) = Some (length rec, rec @ more_bytes)"
    using assms by (rule rd_vec16)
  then show ?thesis
    by (cases rec) (simp_all add: sni_from_client_hello_def record_bytes_def rd_skip_def rd_take_def)
qed

lemma hello_in_one_record:
  assumes "hello_ok h"
  shows "sni_from_client_hello (record_bytes (handshake_bytes h) @ rest) = Some (to_ascii_lowercase (ch_name h))"
proof -
  obtain l where l: "handshake_bytes h = 1 # l @ hello_message h"
      "\<And>r. rd_u24 (l @ r) = Some (length (hello_message h), r)"
    using handshake_shape [OF assms] by blast
  have "length (handshake_bytes h) < 65536"
    using assms by (simp add: hello_ok_def)
  from sni_of_record [OF this, of rest] show ?thesis
    using sni_from_hello_message [OF assms] by (simp add: l rd_take_def)
qed


text \<open>
  A ClientHello cut into two records is not understood, and passes whatever name is in it.
\<close>

lemma fragmented_hello_passes:
  assumes "hello_ok h" and "handshake_bytes h = first @ second" and "4 \<le> length first" and "second \<noteq> []"
  shows "check_sni (record_bytes first @ record_bytes second @ rest) a = None"
proof -
  obtain l where l: "handshake_bytes h = 1 # l @ hello_message h" "length l = 3"
      "\<And>r. rd_u24 (l @ r) = Some (length (hello_message h), r)"
    using handshake_shape [OF assms(1)] by blast
  have "prefix (1 # l) (handshake_bytes h)"
    by (simp add: l(1))
  moreover have "prefix first (handshake_bytes h)"
    by (simp add: assms(2))
  moreover have "length (1 # l) \<le> length first"
    using assms(3) by (simp add: l(2))
  ultimately have "prefix (1 # l) first"
    by (rule prefix_length_prefix)
  then obtain part where part: "first = 1 # l @ part"
    by (auto simp: prefix_def)
  with l(1) assms(2) have "hello_message h = part @ second"
    by simp
  with assms(4) have "rd_take (length (hello_message h)) part = None"
    by (simp add: rd_take_def)
  moreover have "length first < 65536"
    using assms(1,2) by (auto simp: hello_ok_def)
  ultimately have "sni_from_client_hello (record_bytes first @ record_bytes second @ rest) = None"
    using sni_of_record [of first "record_bytes second @ rest"] by (simp add: part l(3))
  then show ?thesis
    by (simp add: check_sni_def)
qed

section \<open>What the relay passes on\<close>

lemma read_opening_keeps_bytes:
  "\<forall>c \<in> set chunks. c \<noteq> [] \<Longrightarrow> read_opening buf chunks = (looked, rest) \<Longrightarrow>
     looked @ concat rest = buf @ concat chunks \<and> set rest \<subseteq> set chunks"
  by (induction buf chunks rule: read_opening.induct) (auto simp: Let_def split: if_splits)

lemma read_opening_bounded:
  "\<forall>c \<in> set chunks. length c \<le> 1024 \<Longrightarrow> length buf < max_opening_bytes \<Longrightarrow>
     length (fst (read_opening buf chunks)) < max_opening_bytes + 1024"
proof (induction buf chunks rule: read_opening.induct)
  case (2 buf chunk rest)
  show ?case
  proof (cases "chunk = [] \<or> max_opening_bytes \<le> length (buf @ chunk)")
    case True
    with "2.prems" show ?thesis
      by (auto simp: Let_def)
  next
    case False
    with 2 show ?thesis
      by (auto simp: Let_def)
  qed
qed (simp add: max_opening_bytes_def)

text \<open>
  The relay is all or nothing: whatever way the client's bytes arrive, either the
  inspection refused the opening and not one byte goes to the upstream, or every byte goes, in
  order and unchanged; the opening that was judged is a prefix of them, and bounded.
\<close>

lemma relay_is_all_or_nothing:
  assumes "\<forall>c \<in> set chunks. c \<noteq> [] \<and> length c \<le> 1024"
  shows "\<exists>looked. prefix looked (concat chunks) \<and> length looked < max_opening_bytes + 1024 \<and>
    relay_inspected inspect chunks =
      (case inspect looked of Some why \<Rightarrow> Inl why | None \<Rightarrow> Inr (concat chunks))"
proof -
  obtain looked rest where split: "read_opening [] chunks = (looked, rest)"
    by fastforce
  have keeps: "looked @ concat rest = concat chunks" "set rest \<subseteq> set chunks"
    using read_opening_keeps_bytes [OF _ split] assms by auto
  then have whole: "takeWhile (\<lambda>c. c \<noteq> []) rest = rest"
    using assms by (auto simp: takeWhile_eq_all_conv)
  have pre: "prefix looked (concat chunks)"
    using keeps(1) by (metis prefixI)
  have "length looked < max_opening_bytes + 1024"
    using read_opening_bounded [of chunks "[]"] assms split by (simp add: max_opening_bytes_def)
  with pre show ?thesis
    unfolding relay_inspected_def split prod.case whole keeps(1) by blast
qed

section \<open>The request head\<close>

definition max_head_bytes :: nat where
  "max_head_bytes = 64 * 1024"

datatype http_front_error =
    MalformedRequestLine | HeadTooLarge | NoHost | UnsupportedUri string

fun show_http_front_error :: "http_front_error \<Rightarrow> string" where
  "show_http_front_error MalformedRequestLine = ''malformed request line''"
| "show_http_front_error HeadTooLarge = ''request head exceeded 65536 bytes''"
| "show_http_front_error NoHost = ''cannot determine the target host; absolute-form URI or Host header required''"
| "show_http_front_error (UnsupportedUri u) = ''unsupported URI form: '' @ u"

record proxy_request =
  pq_authority :: authority
  pq_method :: string
  pq_path :: string
  pq_raw_head :: "byte list"
  pq_headers :: headers
  pq_host_header :: "string option"
  pq_is_connect :: bool
  pq_proxy_auth :: "credential option"

text \<open>\<open>read_until\<close> of a buffered reader: up to the delimiter, however far that is.\<close>

fun read_until :: "byte \<Rightarrow> byte list \<Rightarrow> byte list \<times> byte list" where
  "read_until d [] = ([], [])"
| "read_until d (b # r) = (if b = d then ([b], r) else (case read_until d r of (l, r') \<Rightarrow> (b # l, r')))"

lemma read_until_split: "read_until d bs = (l, r) \<Longrightarrow> bs = l @ r"
  by (induction d bs arbitrary: l r rule: read_until.induct) (auto split: if_splits prod.splits)

function read_head :: "byte list \<Rightarrow> byte list \<Rightarrow> (http_front_error + byte list) \<times> byte list" where
  "read_head head inp =
    (case read_until 0x0A inp of
       (line, rest) \<Rightarrow>
         if line = [] then (Inl MalformedRequestLine, rest)
         else if max_head_bytes < length (head @ line) then (Inl HeadTooLarge, rest)
         else if list_all (\<lambda>b. b = 0x0D \<or> b = 0x0A) line then (Inr (head @ line), rest)
         else read_head (head @ line) rest)"
  by pat_completeness auto
termination
  by (relation "measure (\<lambda>(_, inp). length inp)") (auto dest!: read_until_split [OF sym])

declare read_head.simps [simp del]

text \<open>The loop of \<open>base64_decode\<close>; the shift of the accumulator drops what does not fit 32 bits.\<close>

fun b64_std_value :: "byte \<Rightarrow> u32 option" where
  "b64_std_value b =
    (if 0x41 \<le> b \<and> b \<le> 0x5A then Some (ucast (b - 0x41))
     else if 0x61 \<le> b \<and> b \<le> 0x7A then Some (ucast (b - 0x61 + 26))
     else if 0x30 \<le> b \<and> b \<le> 0x39 then Some (ucast (b - 0x30 + 52))
     else if b = 0x2B then Some 62
     else if b = 0x2F then Some 63
     else None)"

fun b64_std_loop :: "u32 \<Rightarrow> nat \<Rightarrow> byte list \<Rightarrow> byte list \<Rightarrow> byte list option" where
  "b64_std_loop acc bits out [] = Some out"
| "b64_std_loop acc bits out (b # bs) =
    (if b = 0x3D then Some out
     else if b = 0x0D \<or> b = 0x0A then b64_std_loop acc bits out bs
     else (case b64_std_value b of
             None \<Rightarrow> None
           | Some v \<Rightarrow>
               (let acc = push_bit 6 acc OR v; bits = bits + 6 in
                if 8 \<le> bits
                then b64_std_loop acc (bits - 8) (out @ [ucast (drop_bit (bits - 8) acc)]) bs
                else b64_std_loop acc bits out bs)))"

definition base64_decode :: "string \<Rightarrow> byte list option" where
  "base64_decode input = b64_std_loop 0 0 [] (bytes_of input)"

definition parse_basic :: "string \<Rightarrow> credential option" where
  "parse_basic value =
    (case (case strip_prefix ''Basic '' value of
             Some e \<Rightarrow> Some e | None \<Rightarrow> strip_prefix ''basic '' value) of
       None \<Rightarrow> None
     | Some encoded \<Rightarrow>
         (case Option.bind (base64_decode (trim encoded)) from_utf8 of
            None \<Rightarrow> None
          | Some text \<Rightarrow>
              map_option (\<lambda>(user, password). \<lparr>cr_user = user, cr_password = password\<rparr>)
                (split_once (CHR '':'') text)))"

definition parse_port :: "string \<Rightarrow> http_front_error + u16" where
  "parse_port p =
    (case parse_uint 65535 p of None \<Rightarrow> Inl MalformedRequestLine | Some n \<Rightarrow> Inr (word_of_nat n))"

definition parse_authority :: "string \<Rightarrow> u16 \<Rightarrow> http_front_error + authority" where
  "parse_authority raw default_port =
    (let s = trim raw in
     case strip_prefix ''['' s of
       Some rest \<Rightarrow>
         (case split_once (CHR '']'') rest of
            None \<Rightarrow> Inl MalformedRequestLine
          | Some (host, tail) \<Rightarrow>
              map_sum id (\<lambda>p. \<lparr>auth_host = to_ascii_lowercase host, auth_port = p\<rparr>)
                (case strip_prefix '':'' tail of Some p \<Rightarrow> parse_port p | None \<Rightarrow> Inr default_port))
     | None \<Rightarrow>
         (case (case rsplit_once (CHR '':'') s of
                  Some (host, port) \<Rightarrow> if host \<noteq> [] then Some (host, port) else None
                | None \<Rightarrow> None) of
            Some (host, port) \<Rightarrow>
              map_sum id (\<lambda>p. \<lparr>auth_host = to_ascii_lowercase host, auth_port = p\<rparr>) (parse_port port)
          | None \<Rightarrow>
              if s \<noteq> [] then Inr \<lparr>auth_host = to_ascii_lowercase s, auth_port = default_port\<rparr>
              else Inl NoHost))"

definition header_lines :: "string list \<Rightarrow> (string \<times> string) list" where
  "header_lines ls =
     List.map_filter (\<lambda>l. map_option (\<lambda>(k, v). (trim k, trim v)) (split_once (CHR '':'') l)) ls"

definition find_header :: "string \<Rightarrow> (string \<times> string) list \<Rightarrow> string option" where
  "find_header name hs = map_option snd (find (\<lambda>(k, _). eq_ignore_ascii_case k name) hs)"

definition front_headers :: "(string \<Rightarrow> string option) \<Rightarrow> (string \<times> string) list \<Rightarrow> headers" where
  "front_headers header_name hs =
     fold (\<lambda>(k, v) h. case header_name k of
         Some n \<Rightarrow> if header_value_ok v then hdr_append n v h else h
       | None \<Rightarrow> h) hs []"

definition split_target :: "string \<Rightarrow> string \<times> string" where
  "split_target rest =
    (case split_once (CHR ''/'') rest of Some (a, p) \<Rightarrow> (a, CHR ''/'' # p) | None \<Rightarrow> (rest, ''/''))"

definition request_target ::
  "string \<Rightarrow> string \<Rightarrow> string option \<Rightarrow> http_front_error + authority \<times> string" where
  "request_target method_name target host_named =
    (if eq_ignore_ascii_case method_name ''CONNECT''
     then map_sum id (\<lambda>a. (a, [])) (parse_authority target 443)
     else case (case strip_prefix ''http://'' target of
                  Some r \<Rightarrow> Some r | None \<Rightarrow> strip_prefix ''HTTP://'' target) of
       Some rest \<Rightarrow>
         (case split_target rest of (a, path) \<Rightarrow> map_sum id (\<lambda>a. (a, path)) (parse_authority a 80))
     | None \<Rightarrow>
         if prefix ''https://'' target then Inl (UnsupportedUri target)
         else (case host_named of
                 None \<Rightarrow> Inl NoHost
               | Some host \<Rightarrow> map_sum id (\<lambda>a. (a, target)) (parse_authority host 80)))"

definition parse_head :: "(string \<Rightarrow> string option) \<Rightarrow> byte list \<Rightarrow> http_front_error + proxy_request" where
  "parse_head header_name head =
    (case filter (\<lambda>l. l \<noteq> []) (split_str [CHR 0x0D, CHR 0x0A] (from_utf8_lossy head)) of
       [] \<Rightarrow> Inl MalformedRequestLine
     | request_line # ls \<Rightarrow>
         (case split_whitespace request_line of
            method_name # target # _ \<Rightarrow>
              (let hs = header_lines ls; host = find_header ''host'' hs in
               case request_target method_name target host of
                 Inl e \<Rightarrow> Inl e
               | Inr (a, path) \<Rightarrow>
                   Inr \<lparr>pq_authority = a, pq_method = method_name, pq_path = path, pq_raw_head = head,
                     pq_headers = front_headers header_name hs, pq_host_header = host,
                     pq_is_connect = eq_ignore_ascii_case method_name ''CONNECT'',
                     pq_proxy_auth = Option.bind (find_header ''proxy-authorization'' hs) parse_basic\<rparr>)
          | _ \<Rightarrow> Inl MalformedRequestLine))"

definition read_request ::
  "(string \<Rightarrow> string option) \<Rightarrow> byte \<Rightarrow> byte list \<Rightarrow> (http_front_error + proxy_request) \<times> byte list" where
  "read_request header_name first_byte inp =
    (case read_head [first_byte] inp of
       (Inl e, rest) \<Rightarrow> (Inl e, rest)
     | (Inr head, rest) \<Rightarrow> (parse_head header_name head, rest))"

section \<open>Answers\<close>

definition crlf :: string where
  "crlf = [CHR 0x0D, CHR 0x0A]"

definition response_head :: "string \<Rightarrow> nat \<Rightarrow> string" where
  "response_head status len =
     ''HTTP/1.1 '' @ status @ crlf @ ''Content-Type: application/json'' @ crlf
     @ ''Content-Length: '' @ show_nat len @ crlf @ ''Proxy-Agent: bot-marshal'' @ crlf
     @ ''Connection: close'' @ crlf @ crlf"

definition write_denial :: "(json \<Rightarrow> string) \<Rightarrow> reason \<Rightarrow> string \<Rightarrow> string \<Rightarrow> string" where
  "write_denial pretty r identity profile =
    (let body = pretty (jobj [(''error'', JStr ''egress_denied''), (''proxy'', JStr ''bot-marshal''),
           (''identity'', JStr identity), (''profile'', JStr profile), (''reason'', reason_json r)]) in
     response_head ''403 Forbidden'' (length body) @ body)"

definition write_status :: "(json \<Rightarrow> string) \<Rightarrow> string \<Rightarrow> string \<Rightarrow> string" where
  "write_status show_json status detail =
    (let body = show_json (jobj [(''error'', JStr detail), (''proxy'', JStr ''bot-marshal'')]) in
     response_head status (length body) @ body)"

section \<open>SOCKS5\<close>

datatype socks_error =
    SocksIo | NoAcceptableAuth | UnsupportedCommand byte | UnsupportedAddressType byte | SocksMalformed

datatype socks_reply =
    Succeeded | GeneralFailure | NotAllowed | NetworkUnreachable | HostUnreachable | ConnectionRefused
  | CommandNotSupported | AddressTypeNotSupported

fun reply_code :: "socks_reply \<Rightarrow> byte" where
  "reply_code Succeeded = 0x00"
| "reply_code GeneralFailure = 0x01"
| "reply_code NotAllowed = 0x02"
| "reply_code NetworkUnreachable = 0x03"
| "reply_code HostUnreachable = 0x04"
| "reply_code ConnectionRefused = 0x05"
| "reply_code CommandNotSupported = 0x07"
| "reply_code AddressTypeNotSupported = 0x08"

definition socks_reply_bytes :: "socks_reply \<Rightarrow> byte list" where
  "socks_reply_bytes r = [0x05, reply_code r, 0, 1, 0, 0, 0, 0, 0, 0]"

record socks_request =
  sq_authority :: authority
  sq_credential :: "credential option"

text \<open>\<open>read_u8\<close> and \<open>read_exact\<close> on the length-prefixed fields; the result is the field and the rest.\<close>

definition rd_vec8 :: "byte list \<Rightarrow> (byte list \<times> byte list) option" where
  "rd_vec8 inp = Option.bind (rd_u8 inp) (\<lambda>(n, r). rd_take (unat n) r)"

text \<open>Each step gives its result with what is left of the input, and what was written.\<close>

definition read_userpass :: "byte list \<Rightarrow> (socks_error + credential \<times> byte list) \<times> byte list" where
  "read_userpass inp =
    (case rd_u8 inp of
       None \<Rightarrow> (Inl SocksIo, [])
     | Some (version, r) \<Rightarrow>
         if version \<noteq> 0x01 then (Inl SocksMalformed, [])
         else (case do { (user, r) \<leftarrow> rd_vec8 r; (pass, r) \<leftarrow> rd_vec8 r; Some (user, pass, r) } of
                 None \<Rightarrow> (Inl SocksIo, [])
               | Some (user, pass, r) \<Rightarrow>
                   (case (from_utf8 user, from_utf8 pass) of
                      (Some u, Some p) \<Rightarrow> (Inr (\<lparr>cr_user = u, cr_password = p\<rparr>, r), [0x01, 0x00])
                    | _ \<Rightarrow> (Inl SocksMalformed, [0x01, 0x00]))))"

definition socks_host :: "byte \<Rightarrow> byte list \<Rightarrow> socks_error + string \<times> byte list" where
  "socks_host atyp r =
    (if atyp = 0x01
     then (case rd_take 4 r of
             Some ([a, b, c, d], r') \<Rightarrow> Inr (show_ip (V4 a b c d), r')
           | _ \<Rightarrow> Inl SocksIo)
     else if atyp = 0x03
     then (case rd_vec8 r of
             None \<Rightarrow> Inl SocksIo
           | Some (name, r') \<Rightarrow>
               (case from_utf8 name of None \<Rightarrow> Inl SocksMalformed | Some host \<Rightarrow> Inr (host, r')))
     else if atyp = 0x04
     then (case rd_take 16 r of
             None \<Rightarrow> Inl SocksIo
           | Some (octets, r') \<Rightarrow> Inr (show_ip (v6_of_octets octets), r'))
     else Inl (UnsupportedAddressType atyp))"

definition socks_command ::
  "credential option \<Rightarrow> byte list \<Rightarrow> (socks_error + socks_request \<times> byte list) \<times> byte list" where
  "socks_command cred inp =
    (case rd_take 4 inp of
       Some ([ver, cmd, rsv, atyp], r) \<Rightarrow>
         if ver \<noteq> 0x05 then (Inl SocksMalformed, [])
         else if cmd \<noteq> 0x01 then (Inl (UnsupportedCommand cmd), socks_reply_bytes CommandNotSupported)
         else (case socks_host atyp r of
                 Inl e \<Rightarrow>
                   (Inl e, case e of UnsupportedAddressType _ \<Rightarrow> socks_reply_bytes AddressTypeNotSupported | _ \<Rightarrow> [])
               | Inr (host, r') \<Rightarrow>
                   (case rd_u16 r' of
                      None \<Rightarrow> (Inl SocksIo, [])
                    | Some (port, r'') \<Rightarrow>
                        (Inr (\<lparr>sq_authority = \<lparr>auth_host = host, auth_port = word_of_nat port\<rparr>,
                           sq_credential = cred\<rparr>, r''), [])))
     | _ \<Rightarrow> (Inl SocksIo, []))"

definition handshake :: "byte list \<Rightarrow> (socks_error + socks_request \<times> byte list) \<times> byte list" where
  "handshake inp =
    (case rd_vec8 inp of
       None \<Rightarrow> (Inl SocksIo, [])
     | Some (methods_offered, r) \<Rightarrow>
         if 0x02 \<in> set methods_offered
         then (case read_userpass r of
                 (Inl e, out) \<Rightarrow> (Inl e, [0x05, 0x02] @ out)
               | (Inr (cred, r'), out) \<Rightarrow>
                   (case socks_command (Some cred) r' of (res, out') \<Rightarrow> (res, [0x05, 0x02] @ out @ out')))
         else if 0x00 \<in> set methods_offered
         then (case socks_command None r of (res, out) \<Rightarrow> (res, [0x05, 0x00] @ out))
         else (Inl NoAcceptableAuth, [0x05, 0xFF]))"

section \<open>Facts about the front ends\<close>

lemma head_is_bounded: "fst (read_head head inp) = Inr h \<Longrightarrow> length h \<le> max_head_bytes"
proof (induction head inp rule: read_head.induct)
  case (1 head inp)
  obtain line rest where line: "read_until 0x0A inp = (line, rest)"
    by fastforce
  with 1 show ?case
    by (subst (asm) (2) read_head.simps) (auto simp: not_less split: if_splits)
qed

text \<open>
  The bound is tested only after a whole line is in memory: a client that sends no line feed is read
  to the end of what it sends, however long that is.
\<close>

lemma endless_line_is_read_whole:
  assumes "0x0A \<notin> set inp" and "inp \<noteq> []" and "max_head_bytes \<le> length inp"
  shows "read_head [b] inp = (Inl HeadTooLarge, [])"
proof -
  have "read_until 0x0A inp = (inp, [])"
    using assms(1) by (induction inp) auto
  with assms(2,3) show ?thesis
    by (subst read_head.simps) simp
qed

section \<open>What a client means is what is read\<close>

lemma b64_std_value_alphabet:
  assumes "x < (64 :: byte)"
  shows "b64_std_value (word_of_nat (of_char (STANDARD ! unat x))) = Some (ucast x)"
    and "(word_of_nat (of_char (STANDARD ! unat x)) :: byte) \<notin> {0x3D, 0x0D, 0x0A}"
proof -
  have all: "list_all2 (\<lambda>c v. b64_std_value (word_of_nat (of_char c)) = Some v \<and>
      (word_of_nat (of_char c) :: byte) \<notin> {0x3D, 0x0D, 0x0A}) STANDARD (map word_of_nat [0..<64])"
    by (simp add: STANDARD_def upt_conv_Cons)
  have "unat x < length STANDARD" "unat x < 64"
    using assms by (simp_all add: word_less_nat_alt STANDARD_def)
  with list_all2_nthD [OF all, of "unat x"] have "b64_std_value (word_of_nat (of_char (STANDARD ! unat x))) = Some (word_of_nat (unat x)) \<and>
      (word_of_nat (of_char (STANDARD ! unat x)) :: byte) \<notin> {0x3D, 0x0D, 0x0A}"
    by (simp del: b64_std_value.simps insert_iff)
  then show "b64_std_value (word_of_nat (of_char (STANDARD ! unat x))) = Some (ucast x)"
      "(word_of_nat (of_char (STANDARD ! unat x)) :: byte) \<notin> {0x3D, 0x0D, 0x0A}"
    by (simp_all del: b64_std_value.simps)
qed

lemma b64_std_step:
  assumes "x < (64 :: byte)"
  shows "b64_std_loop acc 0 out (word_of_nat (of_char (STANDARD ! unat x)) # cs) =
      b64_std_loop (shift_in acc (ucast x)) 6 out cs"
    and "b64_std_loop acc 6 out (word_of_nat (of_char (STANDARD ! unat x)) # cs) =
      b64_std_loop (shift_in acc (ucast x)) 4 (out @ [ucast (drop_bit 4 (shift_in acc (ucast x)))]) cs"
    and "b64_std_loop acc 4 out (word_of_nat (of_char (STANDARD ! unat x)) # cs) =
      b64_std_loop (shift_in acc (ucast x)) 2 (out @ [ucast (drop_bit 2 (shift_in acc (ucast x)))]) cs"
    and "b64_std_loop acc 2 out (word_of_nat (of_char (STANDARD ! unat x)) # cs) =
      b64_std_loop (shift_in acc (ucast x)) 0 (out @ [ucast (shift_in acc (ucast x))]) cs"
  using b64_std_value_alphabet [OF assms]
  by (simp_all add: b64_std_loop.simps shift_in_def [symmetric] Let_def del: b64_std_value.simps)

declare b64_std_loop.simps(2) [simp del]

lemma b64_std_pad: "b64_std_loop acc bits out (0x3D # cs) = Some out"
  by (simp add: b64_std_loop.simps)

lemma b64_std_encoded:
  "b64_std_loop acc 0 out (bytes_of (encode_with STANDARD bs True)) = Some (out @ bs)"
proof (induction STANDARD bs True arbitrary: acc out rule: encode_with.induct)
  case (2 b0 b1 b2 rest)
  then show ?case
    by (simp add: encode_chunk_sextets bytes_of_def b64_std_step sextet_bounds decoded_bytes)
qed (simp_all add: encode_chunk_sextets bytes_of_def b64_std_step b64_std_pad sextet_bounds decoded_bytes)

lemma base64_standard_roundtrip: "base64_decode (base64_encode bs) = Some bs"
  by (simp add: base64_decode_def base64_encode_def b64_std_encoded)

lemma string_of_bytes [simp]: "string_of (bytes_of s) = s"
  by (simp add: string_of_bytes_of)

lemma standard_char:
  assumes "x < (64 :: byte)"
  shows "plain_char (STANDARD ! unat x)"
proof -
  have "list_all plain_char STANDARD" "length STANDARD = 64"
    by code_simp+
  moreover have "unat x < 64"
    using assms by (simp add: word_less_nat_alt)
  ultimately show ?thesis
    by (simp add: list_all_length)
qed

lemma base64_chars: "list_all plain_char (encode_with STANDARD bs True)"
proof -
  have "plain_char (CHR ''='')"
    by (simp add: plain_char_def)
  then show ?thesis
    by (induction STANDARD bs True rule: encode_with.induct)
      (simp_all add: encode_chunk_sextets standard_char sextet_bounds)
qed

lemma plain_trim:
  assumes "list_all plain_char s"
  shows "trim s = s"
proof -
  have "list_all (\<lambda>w. w \<noteq> [] \<and> \<not> plain_char (hd w) \<and> \<not> plain_char (last w)) white_space"
    by code_simp
  then have ends: "\<not> plain_char (hd w)" "\<not> plain_char (hd (rev w))" "w \<noteq> []" if "w \<in> set white_space" for w
    using that by (simp_all add: list_all_iff hd_rev)
  have no: "\<not> prefix w t" if "\<not> plain_char (hd w)" "w \<noteq> []" "list_all plain_char t" for w t
    using that by (cases w; cases t) auto
  have "trim_start s = s"
    unfolding trim_start_def strip_any_fixed_iff using no ends assms by blast
  moreover have "strip_any (map rev white_space) (rev s) = rev s"
    unfolding strip_any_fixed_iff using no [of "rev w" "rev s" for w] ends assms by auto
  ultimately show ?thesis
    by (simp add: trim_def trim_end_def)
qed

text \<open>
  Credentials mean what the client sent: a header built from a user and a password with
  the encoder of \<open>marshal_core\<close>, as clients build it, is read back as that user and that password, a
  password with colons included.
\<close>

lemma basic_credentials_roundtrip:
  assumes "utf8_ok (bytes_of (user @ '':'' @ password))" and "CHR '':'' \<notin> set user"
  shows "parse_basic (''Basic '' @ base64_encode (bytes_of (user @ '':'' @ password))) =
    Some \<lparr>cr_user = user, cr_password = password\<rparr>"
proof -
  have "strip_prefix ''Basic '' (''Basic '' @ base64_encode (bytes_of (user @ '':'' @ password))) =
      Some (base64_encode (bytes_of (user @ '':'' @ password)))"
    by (simp add: strip_prefix_Some_iff)
  moreover have "split_once (CHR '':'') (user @ '':'' @ password) = Some (user, password)"
    by (simp add: split_once_Some assms(2))
  moreover have "from_utf8 (bytes_of (user @ '':'' @ password)) = Some (user @ '':'' @ password)"
    unfolding from_utf8_def by (simp only: assms(1) if_True string_of_bytes)
  moreover have "trim (base64_encode (bytes_of (user @ '':'' @ password))) = base64_encode (bytes_of (user @ '':'' @ password))"
    unfolding base64_encode_def by (rule plain_trim [OF base64_chars])
  ultimately show ?thesis
    unfolding parse_basic_def by (simp only: option.case base64_standard_roundtrip bind.simps) simp
qed

lemma rd_vec8_append: "length bs < 256 \<Longrightarrow> rd_vec8 (word_of_nat (length bs) # bs @ r) = Some (bs, r)"
  by (simp add: rd_vec8_def unat_byte)

definition port_bytes :: "u16 \<Rightarrow> byte list" where
  "port_bytes p = be_len16 (unat p)"

lemma rd_port: "rd_u16 (port_bytes p @ r) = Some (unat p, r)"
proof -
  have "unat p < 65536"
    using unsigned_less [of p, where ?'a = nat] by simp
  then show ?thesis
    by (simp add: port_bytes_def)
qed

text \<open>What a client sends to be connected to a named host, with or without a password.\<close>

definition vec8 :: "string \<Rightarrow> byte list" where
  "vec8 s = word_of_nat (length (bytes_of s)) # bytes_of s"

definition connect_message :: "authority \<Rightarrow> byte list" where
  "connect_message a = [0x05, 0x01, 0x00, 0x03] @ vec8 (auth_host a) @ port_bytes (auth_port a)"

fun client_messages :: "credential option \<Rightarrow> authority \<Rightarrow> byte list" where
  "client_messages None a = [1, 0x00] @ connect_message a"
| "client_messages (Some c) a =
     [2, 0x00, 0x02] @ [0x01] @ vec8 (cr_user c) @ vec8 (cr_password c) @ connect_message a"

definition short_text :: "string \<Rightarrow> bool" where
  "short_text s \<longleftrightarrow> length s < 256 \<and> utf8_ok (bytes_of s)"

lemma rd_vec8_text: "short_text s \<Longrightarrow> rd_vec8 (vec8 s @ r) = Some (bytes_of s, r)"
  using rd_vec8_append [of "bytes_of s" r] by (simp add: vec8_def short_text_def)

lemma from_utf8_text: "short_text s \<Longrightarrow> from_utf8 (bytes_of s) = Some s"
  by (simp add: short_text_def from_utf8_def)

lemma socks_connect:
  assumes "short_text (auth_host a)"
  shows "socks_command cred (connect_message a @ rest) =
    (Inr (\<lparr>sq_authority = a, sq_credential = cred\<rparr>, rest), [])"
  using rd_vec8_text [OF assms, of "port_bytes (auth_port a) @ rest"] from_utf8_text [OF assms]
  by (simp add: socks_command_def connect_message_def rd_take_def socks_host_def rd_port)

text \<open>
  A SOCKS5 client is understood: the handshake for a host of up to 255 bytes and a
  port yields that host and port, and the credential exactly when the client sent one; what follows
  is left untouched, and nothing but the choice of method and its acknowledgement is answered yet.
\<close>

lemma socks_handshake_roundtrip:
  assumes "short_text (auth_host a)"
    and "\<forall>c. cred = Some c \<longrightarrow> short_text (cr_user c) \<and> short_text (cr_password c)"
  shows "handshake (client_messages cred a @ rest) =
    (Inr (\<lparr>sq_authority = a, sq_credential = cred\<rparr>, rest),
     case cred of None \<Rightarrow> [0x05, 0x00] | Some _ \<Rightarrow> [0x05, 0x02, 0x01, 0x00])"
proof (cases cred)
  case None
  then show ?thesis
    using socks_connect [OF assms(1), of None rest]
    by (simp add: handshake_def rd_vec8_def rd_take_def)
next
  case (Some c)
  with assms(2) have text_ok: "short_text (cr_user c)" "short_text (cr_password c)"
    by simp_all
  have "read_userpass ([0x01] @ vec8 (cr_user c) @ vec8 (cr_password c) @ connect_message a @ rest) =
      (Inr (c, connect_message a @ rest), [0x01, 0x00])"
    using rd_vec8_text [OF text_ok(1)] rd_vec8_text [OF text_ok(2)] from_utf8_text [OF text_ok(1)]
      from_utf8_text [OF text_ok(2)]
    by (simp add: read_userpass_def)
  with Some socks_connect [OF assms(1), of "Some c" rest] show ?thesis
    by (simp add: handshake_def rd_vec8_def rd_take_def)
qed

text \<open>Only \<open>CONNECT\<close> is served, and a refusal says so.\<close>

lemma only_connect_is_served:
  assumes "cmd \<noteq> 0x01"
  shows "handshake ([1, 0x00, 0x05, cmd, rsv, atyp] @ rest) =
    (Inl (UnsupportedCommand cmd), [0x05, 0x00] @ socks_reply_bytes CommandNotSupported)"
  using assms by (simp add: handshake_def rd_vec8_def rd_take_def socks_command_def)

lemma parse_port_show: "parse_port (show_nat (unat p)) = Inr p"
proof -
  have "unat p \<le> 65535"
    using unsigned_less [of p, where ?'a = nat] by simp
  then show ?thesis
    by (simp add: parse_port_def parse_uint_show)
qed

lemma no_colon_in_number: "CHR '':'' \<notin> set (show_nat n)"
proof -
  have "\<not> is_ascii_digit (CHR '':'')"
    by code_simp
  then show ?thesis
    using show_nat_digits by blast
qed

lemma authority_roundtrip:
  assumes "plain_word (auth_host a)" and "to_ascii_lowercase (auth_host a) = auth_host a"
    and "hd (auth_host a) \<noteq> CHR ''[''"
  shows "parse_authority (show_authority a) default_port = Inr a"
proof -
  let ?s = "auth_host a @ '':'' @ show_nat (unat (auth_port a))"
  have "plain_char (CHR '':'')"
    by (simp add: plain_char_def)
  then have "trim ?s = ?s"
    using assms(1) plain_show_nat [of "unat (auth_port a)"] by (intro plain_trim) (simp add: plain_word_def)
  moreover have "strip_prefix ''['' ?s = None"
    using assms(1,3) by (cases "auth_host a") (auto simp: plain_word_def strip_prefix_None_iff)
  moreover have "rsplit_once (CHR '':'') ?s = Some (auth_host a, show_nat (unat (auth_port a)))"
    by (simp add: rsplit_once_Some no_colon_in_number)
  moreover have "auth_host a \<noteq> []"
    using assms(1) by (simp add: plain_word_def)
  ultimately show ?thesis
    unfolding parse_authority_def show_authority_def Let_def
    by (simp only: option.case prod.case if_True parse_port_show map_sum.simps assms(2) not_False_eq_True) simp
qed

section \<open>Clients at work\<close>

definition sample_hello :: client_hello where
  "sample_hello =
     \<lparr>ch_version = [3, 3], ch_random = replicate 32 7, ch_session = [], ch_ciphers = [0x13, 1],
      ch_compression = [0], ch_pre = [((0, 0x0A), [0, 2, 0, 0x17])], ch_name = ''evil.test'', ch_post = []\<rparr>"

lemma sample_hello_ok: "hello_ok sample_hello"
proof -
  have "utf8_ok (bytes_of ''evil.test'')"
    by code_simp
  then show ?thesis
    by (simp add: hello_ok_def sample_hello_def handshake_bytes_def hello_message_def hello_extensions_def
        ext_bytes_def server_name_list_def be_len16_def Let_def)
qed


end
