(* ===== verification/Runtime.thy ===== *)
theory Runtime
  imports Stats Front
begin

text \<open>
  What a running proxy keeps (\<open>crates/marshal-proxy/src/runtime.rs\<close>) and the management interface on it
  (\<open>crates/marshal-proxy/src/management.rs\<close>). A lock is held for a whole operation, so an operation is
  a function of the state. The builder of a new runtime reads the outside world.
\<close>

section \<open>The runtime\<close>

record ('net, 'gl, 'w) runtime =
  rt_chains :: "(string \<times> 'w chain) list"
  rt_response_transforms :: "(string \<times> 'w response_xform list) list"
  rt_request_transforms :: "(string \<times> 'w request_xform list) list"
  rt_responders :: "(string \<times> 'w responder list) list"
  rt_default_chain :: "'w chain"
  rt_default_response_transforms :: "'w response_xform list"
  rt_default_request_transforms :: "'w request_xform list"
  rt_default_responders :: "'w responder list"
  rt_identities :: "('net, 'gl) registry"
  rt_passthrough :: "'net host_matcher"

definition warn_only_profiles :: "('net, 'gl, 'w) runtime \<Rightarrow> string list" where
  "warn_only_profiles rt = sort (map fst (filter (\<lambda>(_, c). ch_warn_only c) (rt_chains rt)))"

record ('net, 'gl, 'w) runtime_handle =
  rh_current :: "('net, 'gl, 'w) runtime"
  rh_generation :: u64

definition handle_new :: "('net, 'gl, 'w) runtime \<Rightarrow> ('net, 'gl, 'w) runtime_handle" where
  "handle_new rt = \<lparr>rh_current = rt, rh_generation = 0\<rparr>"

definition handle_store ::
  "('net, 'gl, 'w) runtime \<Rightarrow> ('net, 'gl, 'w) runtime_handle \<Rightarrow> ('net, 'gl, 'w) runtime_handle" where
  "handle_store rt rh = \<lparr>rh_current = rt, rh_generation = rh_generation rh + 1\<rparr>"

section \<open>The management interface\<close>

record ('net, 'gl, 'w) management =
  mg_runtime :: "('net, 'gl, 'w) runtime_handle"
  mg_stats :: identity_stats
  mg_token :: "string option"

datatype answer_body = JsonBody json | TextBody string

record management_answer =
  ma_status :: nat
  ma_body :: answer_body

definition authorised :: "string option \<Rightarrow> headers \<Rightarrow> bool" where
  "authorised token hs =
    (case token of
       None \<Rightarrow> False
     | Some expected \<Rightarrow>
         (case Option.bind (Option.bind (hdr_get hs ''authorization'') value_to_str) (strip_prefix ''Bearer '') of
            None \<Rightarrow> False
          | Some offered \<Rightarrow>
              if length offered \<noteq> length expected then False
              else foldl (\<lambda>acc (x, y). acc OR (x XOR y)) (0 :: byte) (zip (bytes_of offered) (bytes_of expected)) = 0))"

definition unauthorised :: management_answer where
  "unauthorised = \<lparr>ma_status = 401, ma_body = JsonBody (jobj [(''error'', JStr ''unauthorized'')])\<rparr>"

definition json_word :: "u64 \<Rightarrow> json" where
  "json_word n = jint (int (unat n))"

definition healthz :: "string \<Rightarrow> ('net, 'gl, 'w) management \<Rightarrow> management_answer" where
  "healthz version mg =
    (let rt = rh_current (mg_runtime mg) in
     \<lparr>ma_status = 200, ma_body = JsonBody (jobj
        [(''status'', JStr ''ok''), (''version'', JStr version),
         (''generation'', json_word (rh_generation (mg_runtime mg))),
         (''profiles'', JArr (map (\<lambda>(k, _). JStr k) (rt_chains rt))),
         (''passthrough_configured'', JBool (\<not> matcher_is_empty (rt_passthrough rt))),
         (''warn_only_profiles'', JArr (map JStr (warn_only_profiles rt)))])\<rparr>)"

definition row_json :: "row \<Rightarrow> json" where
  "row_json r = jobj [(''identity'', JStr (rw_key r)), (''allowed'', json_word (rw_allowed r)),
     (''denied'', json_word (rw_denied r)), (''would_deny'', json_word (rw_would_deny r))]"

definition identities_answer :: "('net, 'gl, 'w) management \<Rightarrow> headers \<Rightarrow> management_answer" where
  "identities_answer mg hs =
    (if \<not> authorised (mg_token mg) hs then unauthorised
     else \<lparr>ma_status = 200,
       ma_body = JsonBody (jobj [(''identities'', JArr (map row_json (by_identity (mg_stats mg))))])\<rparr>)"

definition metrics :: "('net, 'gl, 'w) management \<Rightarrow> management_answer" where
  "metrics mg = \<lparr>ma_status = 200, ma_body = TextBody (prometheus (mg_stats mg))\<rparr>"

definition reload ::
  "('w \<Rightarrow> (string + ('net, 'gl, 'w) runtime) \<times> 'w) \<Rightarrow> ('net, 'gl, 'w) management \<Rightarrow> headers \<Rightarrow> 'w
     \<Rightarrow> management_answer \<times> ('net, 'gl, 'w) management \<times> 'w" where
  "reload build mg hs w =
    (if \<not> authorised (mg_token mg) hs then (unauthorised, mg, w)
     else case build w of
       (Inr rt, w') \<Rightarrow>
         (let mg' = mg\<lparr>mg_runtime := handle_store rt (mg_runtime mg)\<rparr> in
          (\<lparr>ma_status = 200, ma_body = JsonBody (jobj
              [(''status'', JStr ''reloaded''), (''generation'', json_word (rh_generation (mg_runtime mg'))),
               (''profiles'', JArr (map (\<lambda>(k, _). JStr k) (rt_chains rt))),
               (''warn_only_profiles'', JArr (map JStr (warn_only_profiles rt)))])\<rparr>, mg', w'))
     | (Inl message, w') \<Rightarrow>
         (\<lparr>ma_status = 400, ma_body = JsonBody (jobj
             [(''status'', JStr ''rejected''), (''error'', JStr message),
              (''generation'', json_word (rh_generation (mg_runtime mg))),
              (''note'', JStr ''the previously loaded configuration is still in effect'')])\<rparr>, mg, w'))"

section \<open>Who may change the policy\<close>

definition bearer :: "string \<Rightarrow> headers \<Rightarrow> bool" where
  "bearer token hs \<longleftrightarrow> (\<exists>v. hdr_get hs ''authorization'' = Some v \<and> value_to_str v = Some (''Bearer '' @ token))"

lemma authorised_iff: "authorised token hs \<longleftrightarrow> (\<exists>t. token = Some t \<and> bearer t hs)"
proof -
  have "authorised token hs =
      (case token of None \<Rightarrow> False
       | Some expected \<Rightarrow>
           (case Option.bind (Option.bind (hdr_get hs ''authorization'') value_to_str) (strip_prefix ''Bearer '') of
              None \<Rightarrow> False | Some offered \<Rightarrow> constant_time_eq offered expected))"
    by (simp only: authorised_def constant_time_eq_def)
  moreover have "(case Option.bind (Option.bind (hdr_get hs ''authorization'') value_to_str) (strip_prefix ''Bearer '') of
      None \<Rightarrow> False | Some offered \<Rightarrow> offered = t) \<longleftrightarrow> bearer t hs" for t
    by (cases "Option.bind (hdr_get hs ''authorization'') value_to_str"; cases "hdr_get hs ''authorization''")
      (auto simp: bearer_def strip_prefix_None_iff split: option.split dest: strip_prefix_Some_iff [THEN iffD1])
  ultimately show ?thesis
    by (simp only: constant_time_eq_iff) (auto split: option.split)
qed

text \<open>
  C22 (safety). Only the holder of the token changes the policy, and only as a whole: the state of the
  proxy is different after a call only when a token is configured, the call carried it, and the
  builder made a complete runtime, which is then the current one under the next generation number;
  without the token the builder is not even run, and a failed build leaves every part as it was.
\<close>

theorem reload_is_guarded_and_atomic:
  "case reload build mg hs w of (resp, mg', w') \<Rightarrow>
     (if \<exists>t. mg_token mg = Some t \<and> bearer t hs
      then case build w of
          (Inr rt, w1) \<Rightarrow> w' = w1 \<and> ma_status resp = 200 \<and>
            mg' = mg\<lparr>mg_runtime := \<lparr>rh_current = rt, rh_generation = rh_generation (mg_runtime mg) + 1\<rparr>\<rparr>
        | (Inl _, w1) \<Rightarrow> w' = w1 \<and> ma_status resp = 400 \<and> mg' = mg
      else w' = w \<and> ma_status resp = 401 \<and> mg' = mg)"
  by (auto simp: reload_def authorised_iff unauthorised_def handle_store_def Let_def split: prod.splits sum.splits)

lemma without_token_nothing_is_told:
  "mg_token mg = None \<Longrightarrow> identities_answer mg hs = unauthorised"
  by (simp add: identities_answer_def authorised_def)

end
