(* ===== verification/Server.thy ===== *)
theory Server
  imports Runtime
begin

text \<open>
  The listeners of \<open>crates/marshal-proxy/src/server.rs\<close>: what becomes of one accepted connection, from
  its first byte to the end of its tunnel. The outcome is the list of what was done, in order: the
  bytes written to the client and to the origin, the addresses dialled, the counts and the records.
\<close>

section \<open>Attribution\<close>

record 'w attribution =
  at_resolved :: resolved
  at_chain :: "'w chain"
  at_response_transforms :: "'w response_xform list"
  at_request_transforms :: "'w request_xform list"
  at_responders :: "'w responder list"

definition lookup_list :: "(string \<times> 'a list) list \<Rightarrow> string \<Rightarrow> 'a list" where
  "lookup_list m name = (case map_of m name of Some xs \<Rightarrow> xs | None \<Rightarrow> [])"

definition attribution_for :: "('net, 'gl, 'w) runtime \<Rightarrow> resolved \<Rightarrow> 'w attribution option" where
  "attribution_for rt r =
    (case rs_profile r of
       None \<Rightarrow>
         Some \<lparr>at_resolved = r, at_chain = rt_default_chain rt,
           at_response_transforms = rt_default_response_transforms rt,
           at_request_transforms = rt_default_request_transforms rt,
           at_responders = rt_default_responders rt\<rparr>
     | Some name \<Rightarrow>
         map_option (\<lambda>ch.
             \<lparr>at_resolved = r, at_chain = ch,
              at_response_transforms = lookup_list (rt_response_transforms rt) name,
              at_request_transforms = lookup_list (rt_request_transforms rt) name,
              at_responders = lookup_list (rt_responders rt) name\<rparr>)
           (map_of (rt_chains rt) name))"

definition resolve_attribution ::
  "'net ipnet \<Rightarrow> 'gl glob_lib \<Rightarrow> conn_info \<Rightarrow> ('net, 'gl, 'w) runtime \<Rightarrow> 'w attribution option" where
  "resolve_attribution net gl conn rt = attribution_for rt (registry_resolve net gl (rt_identities rt) conn)"

section \<open>Parameters\<close>

text \<open>
  Beside the origin: the libraries, the files under \<open>/proc\<close>, the parsers of methods and URIs of the crate
  \<open>http\<close>, how the bytes of a stream arrive, how many of them a buffered reader has taken in, and what is
  inside a tunnel once its TLS is terminated.
\<close>

type_synonym tunnel_request = "string \<times> uri \<times> headers \<times> frame list"

record ('sock, 'conn, 'w, 'net, 'gl) server_env = "('sock, 'conn, 'w) origin_env" +
  se_net :: "'net ipnet"
  se_glob :: "'gl glob_lib"
  se_fs :: proc_fs
  se_method :: "string \<Rightarrow> string option"
  se_parse_uri :: "string \<Rightarrow> uri option"
  se_arrives :: "byte list \<Rightarrow> byte list list"
  se_buffered :: "byte list \<Rightarrow> nat"
  se_tunnel :: "byte list \<Rightarrow> mitm_error option \<times> tunnel_request list"

record ('net, 'gl, 'w) server =
  sv_runtime :: "('net, 'gl, 'w) runtime"
  sv_guard :: "'net guard"

datatype 'conn server_effect =
    Replied "byte list"
  | Did "'conn effect"
  | Forwarded authority "byte list"

abbreviation origin_of :: "('sock, 'conn, 'w, 'net, 'gl) server_env \<Rightarrow> ('sock, 'conn, 'w) origin_env" where
  "origin_of env \<equiv> origin_env.truncate env"

definition intercepts :: "('sock, 'conn, 'w, 'net, 'gl) server_env \<Rightarrow> authority \<Rightarrow> ('net, 'gl, 'w) runtime \<Rightarrow> bool" where
  "intercepts env a rt \<longleftrightarrow> host_matches (se_net env) (rt_passthrough rt) (auth_host a) = None"

definition server_conn_info :: "socket_addr \<Rightarrow> socket_addr \<Rightarrow> conn_info" where
  "server_conn_info peer local =
     \<lparr>ci_ingress = Explicit, ci_client_addr = peer, ci_local_addr = local, ci_proxy_auth = None,
      ci_peer_cred = None\<rparr>"

definition root_uri :: uri where
  "root_uri = \<lparr>uri_path = ''/'', uri_query = None\<rparr>"

definition show_uri :: "uri \<Rightarrow> string" where
  "show_uri u = uri_path u @ (case uri_query u of None \<Rightarrow> [] | Some q \<Rightarrow> ''?'' @ q)"

definition server_context ::
  "('sock, 'conn, 'w, 'net, 'gl) server_env \<Rightarrow> 'w attribution \<Rightarrow> ingress_mode \<Rightarrow> socket_addr \<Rightarrow> authority
     \<Rightarrow> string \<Rightarrow> string \<Rightarrow> phase \<Rightarrow> request_context" where
  "server_context env a ingress peer auth method_name path ph =
     \<lparr>rc_identity = rs_identity (at_resolved a), rc_profile = profile_label (at_resolved a),
      rc_ingress = ingress, rc_phase = ph, rc_client_addr = peer, rc_authority = auth,
      rc_method = unwrap_or ''CONNECT'' (se_method env method_name),
      rc_uri = unwrap_or root_uri (se_parse_uri env path), rc_headers = [], rc_body = Empty,
      rc_evidence = ev_new, rc_llm_route = None\<rparr>"

definition mitm_handler_of ::
  "('net, 'gl, 'w) server \<Rightarrow> 'w attribution \<Rightarrow> request_context \<Rightarrow> socket_addr \<Rightarrow> authority
     \<Rightarrow> ('net, 'w) mitm_handler" where
  "mitm_handler_of sv a cx peer auth =
     \<lparr>mh_chain = at_chain a, mh_authority = auth, mh_ingress = rc_ingress cx,
      mh_identity = rc_identity cx, mh_profile = profile_label (at_resolved a), mh_client_addr = peer,
      mh_request_transforms = at_request_transforms a, mh_responders = at_responders a,
      mh_response_transforms = at_response_transforms a, mh_attributed = rs_attributed (at_resolved a),
      mh_resolver = rs_resolver (at_resolved a), mh_guard = sv_guard sv\<rparr>"

section \<open>Records\<close>

definition server_audit_of ::
  "'w attribution \<Rightarrow> request_context \<Rightarrow> reason \<Rightarrow> action \<Rightarrow> evidence \<Rightarrow> nat \<Rightarrow> bool \<Rightarrow> audit_record" where
  "server_audit_of a cx r act ev0 elapsed would_deny =
    (let ev = absorb ev0 (rc_evidence cx) in
     \<lparr>ar_identity = rc_identity cx, ar_attributed = rs_attributed (at_resolved a),
      ar_resolver = rs_resolver (at_resolved a), ar_profile = rc_profile cx,
      ar_ingress = ingress_str (rc_ingress cx), ar_host = auth_host (rc_authority cx),
      ar_method = rc_method cx, ar_path = show_uri (rc_uri cx), ar_action = act, ar_reason = r,
      ar_would_deny = would_deny, ar_trail = trail ev, ar_facts = facts_list (facts ev),
      ar_flags = sorted_list_of_set (flags ev), ar_status_code = None, ar_duration_ms = elapsed,
      ar_request_headers = redact_headers (rc_headers cx), ar_response_headers = []\<rparr>)"

definition emit_audit ::
  "'w attribution \<Rightarrow> request_context \<Rightarrow> reason \<Rightarrow> action \<Rightarrow> evidence \<Rightarrow> nat \<Rightarrow> bool \<Rightarrow> 'conn server_effect list" where
  "emit_audit a cx r act ev elapsed would_deny =
     [Did (Counted (rc_identity cx) (rc_profile cx) (act = ActAllow) would_deny),
      Did (Audited (server_audit_of a cx r act ev elapsed would_deny))]"

fun guard_code :: "guard_error \<Rightarrow> string" where
  "guard_code (GBlocked _ _ _) = ''upstream_blocked''"
| "guard_code (GResolve _ _) = ''upstream_unresolvable''"
| "guard_code (GNoAddresses _) = ''upstream_unresolvable''"
| "guard_code (GConnect _ _ _) = ''upstream_unreachable''"

definition emit_guard_failure ::
  "'w attribution \<Rightarrow> request_context \<Rightarrow> guard_error \<Rightarrow> evidence \<Rightarrow> nat \<Rightarrow> 'conn server_effect list" where
  "emit_guard_failure a cx e ev elapsed =
     emit_audit a cx (reason_new ''upstream_guard'' (guard_code e) (show_guard_error e)) ActDeny ev elapsed False"

fun guard_reply :: "guard_error \<Rightarrow> socks_reply" where
  "guard_reply (GBlocked _ _ _) = NotAllowed"
| "guard_reply (GResolve _ _) = HostUnreachable"
| "guard_reply (GNoAddresses _) = HostUnreachable"
| "guard_reply (GConnect _ _ _) = ConnectionRefused"

definition host_matches_authority :: "string \<Rightarrow> authority \<Rightarrow> bool" where
  "host_matches_authority named a =
    (case parse_authority named (auth_port a) of
       Inr parsed \<Rightarrow> eq_ignore_ascii_case (auth_host parsed) (auth_host a) | Inl _ \<Rightarrow> False)"

definition head_version :: "byte list \<Rightarrow> string" where
  "head_version raw =
    (case from_utf8 (takeWhile (\<lambda>b. b \<noteq> 0x0A) raw) of
       None \<Rightarrow> ''HTTP/1.1''
     | Some line \<Rightarrow> (case split_whitespace line of _ # _ # v # _ \<Rightarrow> v | _ \<Rightarrow> ''HTTP/1.1''))"

definition transformed_origin_form :: "proxy_request \<Rightarrow> request_context \<Rightarrow> byte list" where
  "transformed_origin_form rq cx =
     bytes_of (rc_method cx @ '' '' @ show_uri (rc_uri cx) @ '' '' @ head_version (pq_raw_head rq) @ crlf
       @ concat (map (\<lambda>(n, v). n @ '': '' @ v @ crlf) (hdr_pairs (rc_headers cx))) @ crlf)"

section \<open>Tunnels\<close>

definition tunnel_effects ::
  "('sock, 'conn, 'w, 'net, 'gl) server_env \<Rightarrow> ('net, 'gl, 'w) server \<Rightarrow> 'w attribution \<Rightarrow> request_context
     \<Rightarrow> socket_addr \<Rightarrow> authority \<Rightarrow> 'sock option \<Rightarrow> byte list \<Rightarrow> 'w \<Rightarrow> 'conn server_effect list \<times> 'w" where
  "tunnel_effects env sv a cx peer auth upstream stream w =
    (case se_tunnel env stream of
       (client_tls, reqs) \<Rightarrow>
         (case intercept (origin_of env) client_tls upstream (mitm_handler_of sv a cx peer auth) reqs w of
            (_, effs, _, w') \<Rightarrow> (map Did effs, w')))"

text \<open>The relay of a host that is not intercepted, after its records.\<close>

definition inspected_relay ::
  "('sock, 'conn, 'w, 'net, 'gl) server_env \<Rightarrow> 'w attribution \<Rightarrow> request_context \<Rightarrow> authority \<Rightarrow> byte list \<Rightarrow> 'w
     \<Rightarrow> 'conn server_effect list" where
  "inspected_relay env a cx auth stream w =
    (case relay_inspected (\<lambda>looked. check_sni looked auth) (se_arrives env stream) of
       Inr sent \<Rightarrow> [Forwarded auth sent]
     | Inl why \<Rightarrow>
         emit_audit a cx (reason_new ''allowlist'' ''sni_authority_mismatch'' why) ActDeny ev_new
           (oe_elapsed_ms env w) False)"

section \<open>HTTP\<close>

definition provisional :: "('sock, 'conn, 'w, 'net, 'gl) server_env \<Rightarrow> ('net, 'gl, 'w) runtime \<Rightarrow> 'w chain
     \<Rightarrow> proxy_request \<Rightarrow> outcome \<Rightarrow> bool" where
  "provisional env rt ch rq oc \<longleftrightarrow>
     pq_is_connect rq \<and> oc_action oc = ActDeny \<and> r_layer (oc_reason oc) = ''default_action'' \<and>
     intercepts env (pq_authority rq) rt \<and> request_only_layers ch \<noteq> []"

definition connect_outcome ::
  "('sock, 'conn, 'w, 'net, 'gl) server_env \<Rightarrow> ('net, 'gl, 'w) runtime \<Rightarrow> 'w chain \<Rightarrow> (string list \<Rightarrow> string)
     \<Rightarrow> proxy_request \<Rightarrow> outcome \<Rightarrow> outcome" where
  "connect_outcome env rt ch show_names rq oc =
    (if provisional env rt ch rq oc
     then oc\<lparr>oc_action := ActAllow,
       oc_reason := reason_new ''default_action'' ''connect_provisional''
         (''no host-level layer refused `'' @ auth_host (pq_authority rq) @ ''`; the decision is deferred to the ''
          @ ''request-level layers '' @ show_names (request_only_layers ch) @ '' once TLS is intercepted'')\<rparr>
     else oc)"

definition established :: string where
  "established = ''HTTP/1.1 200 Connection Established'' @ crlf @ ''Proxy-Agent: bot-marshal'' @ crlf @ crlf"

definition serve_connect ::
  "('sock, 'conn, 'w, 'net, 'gl) server_env \<Rightarrow> ('net, 'gl, 'w) server \<Rightarrow> 'w attribution \<Rightarrow> request_context
     \<Rightarrow> outcome \<Rightarrow> socket_addr \<Rightarrow> byte list \<Rightarrow> 'w \<Rightarrow> 'conn server_effect list \<times> 'w" where
  "serve_connect env sv a cx oc peer stream w =
    (let auth = rc_authority cx;
         seen = emit_audit a cx (oc_reason oc) ActAllow (oc_evidence oc) (oe_elapsed_ms env w) (oc_would_deny oc);
         ok = Replied (bytes_of established) in
     if intercepts env auth (sv_runtime sv)
     then
       (if any_defers_connect (at_request_transforms a) (auth_host auth)
        then (case tunnel_effects env sv a cx peer auth None stream w of
                (effs, w') \<Rightarrow> (ok # seen @ effs, w'))
        else
          (case guard_socket (origin_of env) (sv_guard sv) auth w of
             (Inl e, tried, w1) \<Rightarrow>
               (ok # seen @ Did (Dialled auth tried) # emit_guard_failure a cx e ev_new (oe_elapsed_ms env w1), w1)
           | (Inr tcp, tried, w1) \<Rightarrow>
               (case tunnel_effects env sv a cx peer auth (Some tcp) stream w1 of
                  (effs, w') \<Rightarrow> (ok # seen @ Did (Dialled auth tried) # effs, w'))))
     else
       (case guard_socket (origin_of env) (sv_guard sv) auth w of
          (Inl e, tried, w1) \<Rightarrow>
            (ok # Did (Dialled auth tried) # emit_guard_failure a cx e (oc_evidence oc) (oe_elapsed_ms env w1), w1)
        | (Inr tcp, tried, w1) \<Rightarrow>
            (ok # Did (Dialled auth tried)
               # emit_audit a cx (oc_reason oc) ActAllow (oc_evidence oc) (oe_elapsed_ms env w1) (oc_would_deny oc)
               @ inspected_relay env a cx auth stream w1, w1)))"

definition plain_exchange ::
  "('sock, 'conn, 'w, 'net, 'gl) server_env \<Rightarrow> ('net, 'gl, 'w) server \<Rightarrow> 'w attribution \<Rightarrow> request_context
     \<Rightarrow> outcome \<Rightarrow> proxy_request \<Rightarrow> byte list \<Rightarrow> 'w \<Rightarrow> 'conn server_effect list \<times> 'w" where
  "plain_exchange env sv a cx oc rq stream w =
    (let auth = rc_authority cx in
     case guard_socket (origin_of env) (sv_guard sv) auth w of
       (Inl e, tried, w1) \<Rightarrow>
         (Did (Dialled auth tried)
            # Replied (bytes_of (write_status (jl_show (oe_json env)) ''502 Bad Gateway'' (show_guard_error e)))
            # emit_guard_failure a cx e (oc_evidence oc) (oe_elapsed_ms env w1), w1)
     | (Inr tcp, tried, w1) \<Rightarrow>
         (Did (Dialled auth tried) # Forwarded auth (transformed_origin_form rq cx)
            # emit_audit a cx (oc_reason oc) ActAllow (oc_evidence oc) (oe_elapsed_ms env w1) (oc_would_deny oc)
            @ [Forwarded auth stream], w1))"

definition serve_plain ::
  "('sock, 'conn, 'w, 'net, 'gl) server_env \<Rightarrow> ('net, 'gl, 'w) server \<Rightarrow> 'w attribution \<Rightarrow> request_context
     \<Rightarrow> outcome \<Rightarrow> proxy_request \<Rightarrow> byte list \<Rightarrow> 'w \<Rightarrow> 'conn server_effect list \<times> 'w" where
  "serve_plain env sv a cx oc rq stream w =
    (case apply_transforms (at_request_transforms a) cx w of
       ((Some (name, e), cx1), w1) \<Rightarrow>
         (let r = reason_new name ''transform_failed'' (show_error e) in
          (Replied (bytes_of (write_denial (oe_pretty env) r (rc_identity cx1) (profile_label (at_resolved a))))
            # emit_audit a cx1 r ActDeny (oc_evidence oc) (oe_elapsed_ms env w1) False, w1))
     | ((None, cx1), w1) \<Rightarrow>
         plain_exchange env sv a
           (cx1\<lparr>rc_headers := strip_hop_by_hop False (set_host_header (rc_authority cx1) (rc_headers cx1))\<rparr>)
           oc rq stream w1)"

definition http_conn ::
  "('sock, 'conn, 'w, 'net, 'gl) server_env \<Rightarrow> ('net, 'gl, 'w) server \<Rightarrow> socket_addr \<Rightarrow> socket_addr
     \<Rightarrow> peer_cred option \<Rightarrow> proxy_request \<Rightarrow> conn_info" where
  "http_conn env sv peer local cred rq =
     attach_peer_cred (se_fs env) (rt_identities (sv_runtime sv))
       (server_conn_info peer local\<lparr>ci_proxy_auth := pq_proxy_auth rq, ci_peer_cred := cred\<rparr>)"

definition http_context ::
  "('sock, 'conn, 'w, 'net, 'gl) server_env \<Rightarrow> 'w attribution \<Rightarrow> socket_addr \<Rightarrow> proxy_request \<Rightarrow> request_context" where
  "http_context env a peer rq =
    (let cx = server_context env a Explicit peer (pq_authority rq) (pq_method rq)
           (if pq_is_connect rq then [] else pq_path rq) (if pq_is_connect rq then Connect else Request) in
     if pq_is_connect rq then cx else cx\<lparr>rc_headers := pq_headers rq\<rparr>)"

definition bad_request :: "('sock, 'conn, 'w, 'net, 'gl) server_env \<Rightarrow> string \<Rightarrow> 'conn server_effect list" where
  "bad_request env detail = [Replied (bytes_of (write_status (jl_show (oe_json env)) ''400 Bad Request'' detail))]"

definition unattributed :: reason where
  "unattributed = reason_new ''identities'' ''unidentified''
     (''this connection could not be attributed to an identity, and the proxy is configured to refuse ''
      @ ''unattributed traffic'')"

text \<open>The request that was read, and what is done about it.\<close>

definition serve_request ::
  "('sock, 'conn, 'w, 'net, 'gl) server_env \<Rightarrow> (string list \<Rightarrow> string) \<Rightarrow> ('net, 'gl, 'w) server \<Rightarrow> socket_addr
     \<Rightarrow> socket_addr \<Rightarrow> peer_cred option \<Rightarrow> proxy_request \<Rightarrow> byte list \<Rightarrow> 'w \<Rightarrow> 'conn server_effect list \<times> 'w" where
  "serve_request env show_names sv peer local cred rq stream w =
    (let rt = sv_runtime sv in
     case resolve_attribution (se_net env) (se_glob env) (http_conn env sv peer local cred rq) rt of
       None \<Rightarrow>
         ([Replied (bytes_of (write_status (jl_show (oe_json env)) ''500 Internal Server Error''
             ''attribution resolution failed''))], w)
     | Some a \<Rightarrow>
         if \<not> rs_attributed (at_resolved a) \<and> rg_deny_unidentified (rt_identities rt)
         then ([Replied (bytes_of (write_denial (oe_pretty env) unattributed (rs_identity (at_resolved a))
                 (profile_label (at_resolved a))))], w)
         else
           (let cx = http_context env a peer rq in
            case chain_evaluate (oe_layer_us env) (at_chain a) cx w of
              (oc0, w1) \<Rightarrow>
                (let oc = connect_outcome env rt (at_chain a) show_names rq oc0 in
                 if oc_action oc = ActDeny
                 then (Replied (bytes_of (write_denial (oe_pretty env) (oc_reason oc) (rc_identity cx)
                           (profile_label (at_resolved a))))
                         # emit_audit a cx (oc_reason oc) ActDeny (oc_evidence oc) (oe_elapsed_ms env w1)
                             (oc_would_deny oc), w1)
                 else if pq_is_connect rq then serve_connect env sv a cx oc peer stream w1
                 else serve_plain env sv a cx oc rq stream w1)))"

definition host_disagrees :: "proxy_request \<Rightarrow> bool" where
  "host_disagrees rq \<longleftrightarrow> \<not> pq_is_connect rq \<and>
     (case pq_host_header rq of None \<Rightarrow> False | Some h \<Rightarrow> \<not> host_matches_authority h (pq_authority rq))"

definition serve_http ::
  "('sock, 'conn, 'w, 'net, 'gl) server_env \<Rightarrow> (string list \<Rightarrow> string) \<Rightarrow> ('net, 'gl, 'w) server \<Rightarrow> socket_addr
     \<Rightarrow> socket_addr \<Rightarrow> peer_cred option \<Rightarrow> byte \<Rightarrow> byte list \<Rightarrow> 'w \<Rightarrow> 'conn server_effect list \<times> 'w" where
  "serve_http env show_names sv peer local cred first_byte inp w =
    (case read_request (oe_header_name env) first_byte inp of
       (Inl e, _) \<Rightarrow> (bad_request env (show_http_front_error e), w)
     | (Inr rq, stream) \<Rightarrow>
         if host_disagrees rq
         then (bad_request env (''request target `'' @ auth_host (pq_authority rq) @ ''` and Host header `''
                 @ unwrap_or [] (pq_host_header rq) @ ''` name different hosts''), w)
         else serve_request env show_names sv peer local cred rq stream w)"

section \<open>SOCKS5\<close>

definition reply_with :: "socks_reply \<Rightarrow> 'conn server_effect" where
  "reply_with r = Replied (socks_reply_bytes r)"

definition serve_socks_request ::
  "('sock, 'conn, 'w, 'net, 'gl) server_env \<Rightarrow> ('net, 'gl, 'w) server \<Rightarrow> socket_addr \<Rightarrow> socket_addr
     \<Rightarrow> socks_request \<Rightarrow> byte list \<Rightarrow> 'w \<Rightarrow> 'conn server_effect list \<times> 'w" where
  "serve_socks_request env sv peer local rq stream w =
    (let rt = sv_runtime sv; auth = sq_authority rq;
         conn = attach_peer_cred (se_fs env) (rt_identities rt)
           (server_conn_info peer local\<lparr>ci_proxy_auth := sq_credential rq\<rparr>) in
     case resolve_attribution (se_net env) (se_glob env) conn rt of
       None \<Rightarrow> ([reply_with GeneralFailure], w)
     | Some a \<Rightarrow>
         if \<not> rs_attributed (at_resolved a) \<and> rg_deny_unidentified (rt_identities rt)
         then ([reply_with NotAllowed], w)
         else
           (let cx = server_context env a Explicit peer auth ''CONNECT'' [] Connect in
            case chain_evaluate (oe_layer_us env) (at_chain a) cx w of
              (oc, w1) \<Rightarrow>
                (let seen = (\<lambda>act wx. emit_audit a cx (oc_reason oc) act (oc_evidence oc) (oe_elapsed_ms env wx)
                       (oc_would_deny oc)) in
                 if oc_action oc = ActDeny then (reply_with NotAllowed # seen ActDeny w1, w1)
                 else if intercepts env auth rt \<and> any_defers_connect (at_request_transforms a) (auth_host auth)
                 then (case tunnel_effects env sv a cx peer auth None (drop (se_buffered env stream) stream) w1 of
                         (effs, w') \<Rightarrow> (reply_with Succeeded # seen ActAllow w1 @ effs, w'))
                 else
                   (case guard_socket (origin_of env) (sv_guard sv) auth w1 of
                      (Inl e, tried, w2) \<Rightarrow>
                        (Did (Dialled auth tried) # reply_with (guard_reply e)
                           # emit_guard_failure a cx e (oc_evidence oc) (oe_elapsed_ms env w2), w2)
                    | (Inr tcp, tried, w2) \<Rightarrow>
                        if intercepts env auth rt
                        then (case tunnel_effects env sv a cx peer auth (Some tcp)
                                 (drop (se_buffered env stream) stream) w2 of
                                (effs, w') \<Rightarrow>
                                  (Did (Dialled auth tried) # reply_with Succeeded # seen ActAllow w2 @ effs, w'))
                        else (Did (Dialled auth tried) # reply_with Succeeded # seen ActAllow w2
                                @ inspected_relay env a cx auth stream w2, w2)))))"

definition serve_socks5 ::
  "('sock, 'conn, 'w, 'net, 'gl) server_env \<Rightarrow> ('net, 'gl, 'w) server \<Rightarrow> socket_addr \<Rightarrow> socket_addr \<Rightarrow> byte list
     \<Rightarrow> 'w \<Rightarrow> 'conn server_effect list \<times> 'w" where
  "serve_socks5 env sv peer local inp w =
    (case handshake inp of
       (Inl e, out) \<Rightarrow> ([Replied out], w)
     | (Inr (rq, stream), out) \<Rightarrow>
         (case serve_socks_request env sv peer local rq stream w of (effs, w') \<Rightarrow> (Replied out # effs, w')))"

section \<open>Accepted connections\<close>

definition serve_connection ::
  "('sock, 'conn, 'w, 'net, 'gl) server_env \<Rightarrow> (string list \<Rightarrow> string) \<Rightarrow> ('net, 'gl, 'w) server \<Rightarrow> socket_addr
     \<Rightarrow> socket_addr \<Rightarrow> byte list \<Rightarrow> 'w \<Rightarrow> 'conn server_effect list \<times> 'w" where
  "serve_connection env show_names sv peer local inp w =
    (case inp of
       [] \<Rightarrow> ([], w)
     | b # rest \<Rightarrow>
         (case detect b of
            Socks5 \<Rightarrow> serve_socks5 env sv peer local rest w
          | Socks4 \<Rightarrow> ([], w)
          | HttpProxy \<Rightarrow> serve_http env show_names sv peer local None b rest w))"

definition unix_peer :: socket_addr where
  "unix_peer = \<lparr>sa_ip = V4 127 0 0 1, sa_port = 0\<rparr>"

definition serve_unix_connection ::
  "('sock, 'conn, 'w, 'net, 'gl) server_env \<Rightarrow> (string list \<Rightarrow> string) \<Rightarrow> ('net, 'gl, 'w) server
     \<Rightarrow> (u32 \<times> u32 \<times> u32 option) option \<Rightarrow> byte list \<Rightarrow> 'w \<Rightarrow> 'conn server_effect list \<times> 'w" where
  "serve_unix_connection env show_names sv ucred inp w =
    (case inp of
       [] \<Rightarrow> ([], w)
     | b # rest \<Rightarrow>
         if detect b \<noteq> HttpProxy then ([], w)
         else serve_http env show_names sv unix_peer unix_peer
           (peer_cred_for_unix (se_fs env) ucred (rg_enrich (rt_identities (sv_runtime sv)))) b rest w)"

section \<open>What reaches an origin\<close>

fun reaches :: "'conn server_effect \<Rightarrow> bool" where
  "reaches (Replied _) = False"
| "reaches (Did e) = is_contact e"
| "reaches (Forwarded _ _) = True"

text \<open>Every address dialled had passed the guard, and the bytes passed on were for an authority so dialled.\<close>

definition guarded :: "'net guard \<Rightarrow> 'conn server_effect list \<Rightarrow> bool" where
  "guarded g effs \<longleftrightarrow>
     (\<forall>a tried. Did (Dialled a tried) \<in> set effs \<longrightarrow> (\<forall>x \<in> set tried. guard_check g (sa_ip x) = None)) \<and>
     (\<forall>a bs. Forwarded a bs \<in> set effs \<longrightarrow> (\<exists>tried. Did (Dialled a tried) \<in> set effs))"

lemma emit_audit_effects [simp]:
  "e \<in> set (emit_audit a cx r act ev n wd) \<Longrightarrow> \<not> reaches e"
  "Did (Dialled b tried) \<notin> set (emit_audit a cx r act ev n wd)"
  "Forwarded b bs \<notin> set (emit_audit a cx r act ev n wd)"
  by (auto simp: emit_audit_def)

lemma emit_guard_failure_effects [simp]:
  "e \<in> set (emit_guard_failure a cx err ev n) \<Longrightarrow> \<not> reaches e"
  "Did (Dialled b tried) \<notin> set (emit_guard_failure a cx err ev n)"
  "Forwarded b bs \<notin> set (emit_guard_failure a cx err ev n)"
  by (auto simp: emit_guard_failure_def)

lemma inspected_relay_effects:
  "Did (Dialled b tried) \<notin> set (inspected_relay env a cx auth stream w)"
  "Forwarded b bs \<in> set (inspected_relay env a cx auth stream w) \<Longrightarrow> b = auth"
  by (auto simp: inspected_relay_def split: sum.splits)

lemma mitm_handler_of_simps [simp]:
  "mh_guard (mitm_handler_of sv a cx peer auth) = sv_guard sv"
  "mh_authority (mitm_handler_of sv a cx peer auth) = auth"
  "mh_chain (mitm_handler_of sv a cx peer auth) = at_chain a"
  by (simp_all add: mitm_handler_of_def)

definition socket_opened ::
  "('sock, 'conn, 'w) origin_env \<Rightarrow> 'net guard \<Rightarrow> authority \<Rightarrow> 'sock option \<Rightarrow> bool" where
  "socket_opened env g auth up \<longleftrightarrow>
     (\<forall>tcp. up = Some tcp \<longrightarrow> (\<exists>w0 tried w1. guard_socket env g auth w0 = (Inr tcp, tried, w1)))"

lemma socket_opened_simps [simp]:
  "socket_opened env g auth None"
  "guard_socket env g auth w0 = (Inr tcp, tried, w1) \<Longrightarrow> socket_opened env g auth (Some tcp)"
  by (auto simp: socket_opened_def)

lemma intercept_dials:
  assumes "intercept env client_tls up h reqs w = (rs, effs, slot, w')"
    and "socket_opened env (mh_guard h) (mh_authority h) up" and "e \<in> set effs"
  shows "effect_ok env (mh_guard h) e"
proof (cases up)
  case None
  with assms(1,3) obtain rs' where "handle_requests env h reqs None w = (rs', effs, slot, w')"
    by (auto simp: intercept_def split: prod.splits option.splits)
  from pool_kept_over_requests [OF this] assms(3) show ?thesis
    by (simp add: pool_ok_def)
next
  case (Some tcp)
  with assms(1,3) obtain c w1 rs' where
      shake: "handshake_tcp env (auth_host (mh_authority h)) tcp w = (Inr c, w1)"
      and run: "handle_requests env h reqs (Some (mh_authority h, c)) w1 = (rs', effs, slot, w')"
    by (auto simp: intercept_def split: option.splits prod.splits sum.splits)
  from assms(2) Some shake have "opened_for env (mh_guard h) (mh_authority h) c"
    by (auto simp: opened_for_def socket_opened_def)
  with pool_kept_over_requests [OF run] assms(3) show ?thesis
    by (simp add: pool_ok_def)
qed

lemma tunnel_effects_ok:
  assumes "tunnel_effects env sv a cx peer auth up stream w = (effs, w')"
    and "socket_opened (origin_of env) (sv_guard sv) auth up"
  shows "Did (Dialled b tried) \<in> set effs \<Longrightarrow> \<forall>x \<in> set tried. guard_check (sv_guard sv) (sa_ip x) = None"
    and "Forwarded b bs \<notin> set effs"
proof -
  obtain tls reqs where tun: "se_tunnel env stream = (tls, reqs)"
    by fastforce
  obtain rs es slot w1 where run: "intercept (origin_of env) tls up (mitm_handler_of sv a cx peer auth) reqs w
      = (rs, es, slot, w1)"
    by (metis prod_cases4)
  from assms(1) tun run have effs: "effs = map Did es"
    by (simp add: tunnel_effects_def)
  show "\<forall>x \<in> set tried. guard_check (sv_guard sv) (sa_ip x) = None" if "Did (Dialled b tried) \<in> set effs"
  proof -
    from that effs have "Dialled b tried \<in> set es"
      by auto
    from intercept_dials [OF run _ this] assms(2) show ?thesis
      by simp
  qed
  from effs show "Forwarded b bs \<notin> set effs"
    by auto
qed

text \<open>
  What a served request does to origins: nothing past the guard, bytes passed on unread only after an
  \<open>allow\<close> that was not a provisional one.
\<close>

lemma serve_connect_guarded:
  assumes "serve_connect env sv a cx oc peer stream w = (effs, w')"
  shows "guarded (sv_guard sv) effs" and
    "Forwarded b bs \<in> set effs \<Longrightarrow> b = rc_authority cx \<and> \<not> intercepts env (rc_authority cx) (sv_runtime sv)"
proof -
  let ?auth = "rc_authority cx"
  obtain r tried w1 where sock: "guard_socket (origin_of env) (sv_guard sv) ?auth w = (r, tried, w1)"
    by (metis prod_cases3)
  note checked = guard_socket_checked [OF sock]
  have "guarded (sv_guard sv) effs \<and>
      (Forwarded b bs \<in> set effs \<longrightarrow> b = ?auth \<and> \<not> intercepts env ?auth (sv_runtime sv))"
  proof (cases "intercepts env ?auth (sv_runtime sv)")
    case True
    show ?thesis
    proof (cases "any_defers_connect (at_request_transforms a) (auth_host ?auth)")
      case late: True
      obtain es w2 where tun: "tunnel_effects env sv a cx peer ?auth None stream w = (es, w2)"
        by fastforce
      from assms True late tun tunnel_effects_ok [OF tun] show ?thesis
        by (auto simp: serve_connect_def Let_def guarded_def)
    next
      case False
      show ?thesis
      proof (cases r)
        case (Inl e)
        with assms True False sock checked show ?thesis
          by (auto simp: serve_connect_def Let_def guarded_def)
      next
        case (Inr tcp)
        obtain es w2 where tun: "tunnel_effects env sv a cx peer ?auth (Some tcp) stream w1 = (es, w2)"
          by fastforce
        from sock Inr have "socket_opened (origin_of env) (sv_guard sv) ?auth (Some tcp)"
          by simp
        with assms True False sock checked Inr tun tunnel_effects_ok [OF tun] show ?thesis
          by (auto simp: serve_connect_def Let_def guarded_def)
      qed
    qed
  next
    case False
    with assms sock checked show ?thesis
      by (cases r) (auto simp: serve_connect_def Let_def guarded_def inspected_relay_effects
          dest: inspected_relay_effects(2))
  qed
  then show "guarded (sv_guard sv) effs" and
    "Forwarded b bs \<in> set effs \<Longrightarrow> b = rc_authority cx \<and> \<not> intercepts env (rc_authority cx) (sv_runtime sv)"
    by auto
qed

lemma serve_plain_guarded:
  assumes "serve_plain env sv a cx oc rq stream w = (effs, w')"
  shows "guarded (sv_guard sv) effs"
proof -
  obtain fail cx1 w1 where trans: "apply_transforms (at_request_transforms a) cx w = ((fail, cx1), w1)"
    by (metis prod.exhaust)
  show ?thesis
  proof (cases fail)
    case None
    let ?auth = "rc_authority cx1"
    obtain r tried w2 where sock: "guard_socket (origin_of env) (sv_guard sv) ?auth w1 = (r, tried, w2)"
      by (metis prod_cases3)
    from guard_socket_checked [OF sock] None assms trans sock show ?thesis
      by (cases r) (auto simp: serve_plain_def plain_exchange_def Let_def guarded_def)
  next
    case (Some f)
    with assms trans show ?thesis
      by (cases f) (auto simp: serve_plain_def plain_exchange_def Let_def guarded_def)
  qed
qed

text \<open>
  The ground on which a served request may reach an origin: its connection was attributed, which the
  proxy may insist on, and the chain of that attribution, asked about it under the identity so
  found, allowed it or, for a tunnel that will be opened up, left it to the layers within.
\<close>

definition deferred :: "('sock, 'conn, 'w, 'net, 'gl) server_env \<Rightarrow> ('net, 'gl, 'w) server \<Rightarrow> 'w attribution
     \<Rightarrow> request_context \<Rightarrow> outcome \<Rightarrow> bool" where
  "deferred env sv a cx oc \<longleftrightarrow> rc_phase cx = Connect \<and> r_layer (oc_reason oc) = ''default_action'' \<and>
     intercepts env (rc_authority cx) (sv_runtime sv) \<and> request_only_layers (at_chain a) \<noteq> []"

definition let_through :: "('sock, 'conn, 'w, 'net, 'gl) server_env \<Rightarrow> ('net, 'gl, 'w) server \<Rightarrow> conn_info
     \<Rightarrow> 'w attribution \<Rightarrow> request_context \<Rightarrow> outcome \<Rightarrow> 'w \<Rightarrow> bool" where
  "let_through env sv conn a cx oc w \<longleftrightarrow>
     resolve_attribution (se_net env) (se_glob env) conn (sv_runtime sv) = Some a \<and>
     (rg_deny_unidentified (rt_identities (sv_runtime sv)) \<longrightarrow> rs_attributed (at_resolved a)) \<and>
     rc_identity cx = rs_identity (at_resolved a) \<and> rc_profile cx = profile_label (at_resolved a) \<and>
     fst (chain_evaluate (oe_layer_us env) (at_chain a) cx w) = oc \<and>
     (oc_action oc = ActAllow \<or> deferred env sv a cx oc)"

definition passed_unread :: "('sock, 'conn, 'w, 'net, 'gl) server_env \<Rightarrow> ('net, 'gl, 'w) server \<Rightarrow> request_context
     \<Rightarrow> outcome \<Rightarrow> authority \<Rightarrow> bool" where
  "passed_unread env sv cx oc b \<longleftrightarrow> oc_action oc = ActAllow \<and>
     (rc_phase cx = Connect \<longrightarrow> b = rc_authority cx \<and> \<not> intercepts env b (sv_runtime sv))"

definition grounded :: "('sock, 'conn, 'w, 'net, 'gl) server_env \<Rightarrow> ('net, 'gl, 'w) server \<Rightarrow> 'w
     \<Rightarrow> 'conn server_effect list \<Rightarrow> bool" where
  "grounded env sv w effs \<longleftrightarrow>
     (\<forall>e \<in> set effs. reaches e \<longrightarrow>
       (\<exists>conn a cx oc. let_through env sv conn a cx oc w \<and>
          (\<forall>b bs. e = Forwarded b bs \<longrightarrow> passed_unread env sv cx oc b)))"

lemma grounded_unreaching: "\<forall>e \<in> set effs. \<not> reaches e \<Longrightarrow> grounded env sv w effs"
  by (simp add: grounded_def)

lemma grounded_Cons_Replied [simp]: "grounded env sv w (Replied bs # effs) = grounded env sv w effs"
  by (simp add: grounded_def)

lemma guarded_Cons_Replied [simp]: "guarded g (Replied bs # effs) = guarded g effs"
  by (simp add: guarded_def)

lemma server_context_simps [simp]:
  "rc_identity (server_context env a ingress peer auth m path ph) = rs_identity (at_resolved a)"
  "rc_profile (server_context env a ingress peer auth m path ph) = profile_label (at_resolved a)"
  "rc_authority (server_context env a ingress peer auth m path ph) = auth"
  "rc_phase (server_context env a ingress peer auth m path ph) = ph"
  by (simp_all add: server_context_def)

lemma http_context_simps [simp]:
  "rc_identity (http_context env a peer rq) = rs_identity (at_resolved a)"
  "rc_profile (http_context env a peer rq) = profile_label (at_resolved a)"
  "rc_authority (http_context env a peer rq) = pq_authority rq"
  "rc_phase (http_context env a peer rq) = (if pq_is_connect rq then Connect else Request)"
  by (simp_all add: http_context_def Let_def)

lemma action_not_deny: "act \<noteq> ActDeny \<longleftrightarrow> act = ActAllow"
  by (cases act) simp_all

lemma serve_request_grounded:
  assumes "serve_request env sn sv peer local cred rq stream w = (effs, w')"
  shows "grounded env sv w effs \<and> guarded (sv_guard sv) effs"
proof -
  let ?conn = "http_conn env sv peer local cred rq"
  show ?thesis
  proof (cases "resolve_attribution (se_net env) (se_glob env) ?conn (sv_runtime sv)")
    case None
    with assms show ?thesis
      by (auto simp: serve_request_def Let_def guarded_def grounded_def)
  next
    case (Some a)
    let ?cx = "http_context env a peer rq"
    obtain oc0 w1 where ev: "chain_evaluate (oe_layer_us env) (at_chain a) ?cx w = (oc0, w1)"
      by fastforce
    define oc where "oc = connect_outcome env (sv_runtime sv) (at_chain a) sn rq oc0"
    show ?thesis
    proof (cases "\<not> rs_attributed (at_resolved a) \<and> rg_deny_unidentified (rt_identities (sv_runtime sv)) \<or>
        oc_action oc = ActDeny")
      case True
      with assms Some ev show ?thesis
        by (auto simp: serve_request_def Let_def guarded_def grounded_def oc_def split: if_splits)
    next
      case False
      then have thru: "let_through env sv ?conn a ?cx oc0 w"
        using Some ev by (auto simp: let_through_def deferred_def oc_def connect_outcome_def provisional_def
            action_not_deny split: if_splits)
      show ?thesis
      proof (cases "pq_is_connect rq")
        case True
        with assms Some ev False have run: "serve_connect env sv a ?cx oc peer stream w1 = (effs, w')"
          by (auto simp: serve_request_def Let_def oc_def)
        have "oc_action oc0 = ActAllow" if "\<not> intercepts env (pq_authority rq) (sv_runtime sv)"
          using that False by (auto simp: oc_def connect_outcome_def provisional_def action_not_deny)
        with serve_connect_guarded [OF run] thru True show ?thesis
          by (fastforce simp: grounded_def passed_unread_def)
      next
        case plain: False
        with assms Some ev False have run: "serve_plain env sv a ?cx oc rq stream w1 = (effs, w')"
          by (auto simp: serve_request_def Let_def oc_def)
        have "oc_action oc0 = ActAllow"
          using plain False by (auto simp: oc_def connect_outcome_def provisional_def action_not_deny)
        with serve_plain_guarded [OF run] thru plain show ?thesis
          by (fastforce simp: grounded_def passed_unread_def)
      qed
    qed
  qed
qed

lemma serve_http_grounded:
  assumes "serve_http env sn sv peer local cred b inp w = (effs, w')"
  shows "grounded env sv w effs \<and> guarded (sv_guard sv) effs"
proof -
  obtain r stream where read: "read_request (oe_header_name env) b inp = (r, stream)"
    by fastforce
  show ?thesis
  proof (cases r)
    case (Inl e)
    with assms read show ?thesis
      by (auto simp: serve_http_def bad_request_def guarded_def grounded_def)
  next
    case (Inr rq)
    with assms read serve_request_grounded show ?thesis
      by (fastforce simp: serve_http_def bad_request_def guarded_def grounded_def split: if_splits)
  qed
qed

lemma serve_socks_request_grounded:
  assumes "serve_socks_request env sv peer local rq stream w = (effs, w')"
  shows "grounded env sv w effs \<and> guarded (sv_guard sv) effs"
proof -
  let ?auth = "sq_authority rq"
  define conn where "conn = attach_peer_cred (se_fs env) (rt_identities (sv_runtime sv))
           (server_conn_info peer local\<lparr>ci_proxy_auth := sq_credential rq\<rparr>)"
  show ?thesis
  proof (cases "resolve_attribution (se_net env) (se_glob env) conn (sv_runtime sv)")
    case None
    with assms show ?thesis
      by (auto simp: serve_socks_request_def Let_def guarded_def grounded_def reply_with_def conn_def)
  next
    case (Some a)
    let ?cx = "server_context env a Explicit peer ?auth ''CONNECT'' [] Connect"
    obtain oc w1 where ev: "chain_evaluate (oe_layer_us env) (at_chain a) ?cx w = (oc, w1)"
      by fastforce
    obtain r tried w2 where sock: "guard_socket (origin_of env) (sv_guard sv) ?auth w1 = (r, tried, w2)"
      by (metis prod_cases3)
    note checked = guard_socket_checked [OF sock]
    let ?late = "any_defers_connect (at_request_transforms a) (auth_host ?auth)"
    let ?opened = "intercepts env ?auth (sv_runtime sv)"
    let ?rest = "drop (se_buffered env stream) stream"
    consider (refused) "\<not> rs_attributed (at_resolved a) \<and> rg_deny_unidentified (rt_identities (sv_runtime sv)) \<or>
        oc_action oc = ActDeny"
      | (dialled) "rg_deny_unidentified (rt_identities (sv_runtime sv)) \<longrightarrow> rs_attributed (at_resolved a)"
          "oc_action oc = ActAllow"
      by (cases "oc_action oc") blast+
    then show ?thesis
    proof cases
      case refused
      with assms Some ev show ?thesis
        by (auto simp: serve_socks_request_def Let_def guarded_def grounded_def reply_with_def conn_def
            split: if_splits)
    next
      case dialled
      have thru: "let_through env sv conn a ?cx oc w"
        using dialled Some ev by (auto simp: let_through_def)
      have body: "guarded (sv_guard sv) effs \<and>
          (\<forall>b bs. Forwarded b bs \<in> set effs \<longrightarrow> b = ?auth \<and> \<not> ?opened)"
      proof (cases "?opened \<and> ?late")
        case True
        obtain es w3 where tun: "tunnel_effects env sv a ?cx peer ?auth None ?rest w1 = (es, w3)"
          by fastforce
        from assms Some ev dialled True tun tunnel_effects_ok [OF tun] show ?thesis
          by (auto simp: serve_socks_request_def Let_def guarded_def reply_with_def conn_def)
      next
        case now: False
        show ?thesis
        proof (cases r)
          case (Inl e)
          with assms Some ev dialled now sock checked show ?thesis
            by (auto simp: serve_socks_request_def Let_def guarded_def reply_with_def conn_def)
        next
          case (Inr tcp)
          obtain es w3 where tun: "tunnel_effects env sv a ?cx peer ?auth (Some tcp) ?rest w2 = (es, w3)"
            by fastforce
          from sock Inr have "socket_opened (origin_of env) (sv_guard sv) ?auth (Some tcp)"
            by simp
          with assms Some ev dialled now sock checked Inr tun tunnel_effects_ok [OF tun] show ?thesis
            by (auto simp: serve_socks_request_def Let_def guarded_def reply_with_def conn_def
                inspected_relay_effects dest: inspected_relay_effects(2) split: if_splits)
        qed
      qed
      with thru dialled show ?thesis
        by (fastforce simp: grounded_def passed_unread_def)
    qed
  qed
qed


section \<open>A connection at work\<close>

definition sample_server_env :: "(nat, nat, nat, unit, unit) server_env" where
  "sample_server_env = origin_env.extend sample_origin
     (server_env.fields \<lparr>net_parse = (\<lambda>_. None), net_contains = (\<lambda>_ _. False), net_show = (\<lambda>_. [])\<rparr>
        \<lparr>gl_new = Inl, gl_match = (\<lambda>_ _. False)\<rparr>
        \<lparr>fs_read = (\<lambda>_. None), fs_dirs = None\<rparr> Some (\<lambda>_. None) (\<lambda>bs. [bs]) (\<lambda>_. 0) (\<lambda>_. (None, [])))"

definition sample_server :: "(unit, unit, nat) server" where
  "sample_server =
     \<lparr>sv_runtime = \<lparr>rt_chains = [], rt_response_transforms = [], rt_request_transforms = [], rt_responders = [],
        rt_default_chain = mh_chain (sample_handler DecAllow), rt_default_response_transforms = [],
        rt_default_request_transforms = [], rt_default_responders = [],
        rt_identities = \<lparr>rg_resolvers = [], rg_fallback = None, rg_deny_unidentified = False, rg_enrich = False\<rparr>,
        rt_passthrough = \<lparr>hm_exact = [], hm_suffix = [], hm_cidrs = []\<rparr>\<rparr>,
      sv_guard = mh_guard (sample_handler DecAllow)\<rparr>"

definition sample_socks :: "byte list" where
  "sample_socks = [5, 1, 0, 5, 1, 0, 3, 11] @ bytes_of ''example.com'' @ [1, 187]"

abbreviation sample_addr :: socket_addr where
  "sample_addr \<equiv> \<lparr>sa_ip = V4 127 0 0 1, sa_port = 40000\<rparr>"

abbreviation sample_authority :: authority where
  "sample_authority \<equiv> \<lparr>auth_host = ''example.com'', auth_port = 443\<rparr>"

lemma sample_intercepts:
  "intercepts sample_server_env sample_authority (sv_runtime sample_server)"
  unfolding intercepts_def sample_server_env_def sample_server_def by code_simp

lemma sample_env_simps:
  "origin_of sample_server_env = sample_origin" "oe_layer_us sample_server_env = (\<lambda>_. 0)"
  by (simp_all add: sample_server_env_def sample_origin_def origin_env.defs server_env.defs)

lemma sample_connection_dials:
  "\<exists>effs w'. serve_connection sample_server_env (\<lambda>_. []) sample_server sample_addr sample_addr sample_socks 0 = (effs, w')
     \<and> Did (Dialled sample_authority [\<lparr>sa_ip = V4 93 184 216 34, sa_port = 443\<rparr>]) \<in> set effs"
proof -
  define conn where "conn = attach_peer_cred (se_fs sample_server_env) (rt_identities (sv_runtime sample_server))
           (server_conn_info sample_addr sample_addr\<lparr>ci_proxy_auth := None\<rparr>)"
  define a where "a = \<lparr>at_resolved = registry_resolve (se_net sample_server_env) (se_glob sample_server_env)
       (rt_identities (sv_runtime sample_server)) conn, at_chain = mh_chain (sample_handler DecAllow),
       at_response_transforms = [], at_request_transforms = [], at_responders = []\<rparr>"
  let ?cx = "server_context sample_server_env a Explicit sample_addr sample_authority ''CONNECT'' [] Connect"
  have res: "resolve_attribution (se_net sample_server_env) (se_glob sample_server_env) conn
      (sv_runtime sample_server) = Some a"
    by (simp add: resolve_attribution_def attribution_for_def a_def sample_server_def registry_resolve_def)
  have insist: "\<not> rg_deny_unidentified (rt_identities (sv_runtime sample_server))"
    by (simp add: sample_server_def)
  obtain oc where ev: "chain_evaluate (oe_layer_us sample_server_env) (at_chain a) ?cx 0 = (oc, 0)"
      and allow: "oc_action oc = ActAllow"
    by (simp add: a_def sample_handler_def chain_new_def chain_evaluate_def by_default_def terminate_def)
  have sock: "guard_socket (origin_of sample_server_env) (sv_guard sample_server) sample_authority 0 =
      (Inr 0, [\<lparr>sa_ip = V4 93 184 216 34, sa_port = 443\<rparr>], 1)"
    using sample_guard_socket by (simp add: sample_env_simps sample_server_def)
  have late: "\<not> any_defers_connect (at_request_transforms a) ''example.com''"
    by (simp add: a_def any_defers_connect_def)
  obtain effs w' where run: "serve_socks_request sample_server_env sample_server sample_addr sample_addr
      \<lparr>sq_authority = sample_authority, sq_credential = None\<rparr> [] 0 = (effs, w')"
    by fastforce
  have dial: "Did (Dialled sample_authority [\<lparr>sa_ip = V4 93 184 216 34, sa_port = 443\<rparr>]) \<in> set effs"
    using run res insist ev allow sock late sample_intercepts
    by (auto simp: serve_socks_request_def Let_def conn_def split: prod.splits if_splits)
  obtain out where shake:
      "handshake [1, 0, 5, 1, 0, 3, 11, 101, 120, 97, 109, 112, 108, 101, 46, 99, 111, 109, 1, 187] =
        (Inr (\<lparr>sq_authority = sample_authority, sq_credential = None\<rparr>, []), out)"
  proof -
    have "fst (handshake [1, 0, 5, 1, 0, 3, 11, 101, 120, 97, 109, 112, 108, 101, 46, 99, 111, 109, 1, 187]) =
        Inr (\<lparr>sq_authority = sample_authority, sq_credential = None\<rparr>, [])"
      by code_simp
    with that show thesis
      by (metis prod.collapse)
  qed
  have bytes:
      "sample_socks = 5 # [1, 0, 5, 1, 0, 3, 11, 101, 120, 97, 109, 112, 108, 101, 46, 99, 111, 109, 1, 187]"
    by code_simp
  have "detect 5 = Socks5"
    by code_simp
  with shake run have "serve_connection sample_server_env (\<lambda>_. []) sample_server sample_addr sample_addr sample_socks 0 =
      (Replied out # effs, w')"
    unfolding serve_connection_def bytes by (simp add: serve_socks5_def)
  with dial show ?thesis
    by auto
qed


section \<open>What a plain request leaves behind\<close>

text \<open>
  The head of a plain request is written anew: for the authority dialled, without a header that
  describes the hop, the proxy's credentials among them. All else the client sends on the
  connection, the body and any request after it, is passed on as it is; one decision is recorded.
\<close>

lemma plain_request_is_rewritten:
  assumes "serve_plain env sv a cx oc rq stream w = (effs, w')" and "Forwarded b bs \<in> set effs"
  obtains cx' where "rc_authority cx' = b" and "bs = transformed_origin_form rq cx' \<or> bs = stream"
    and "\<forall>n \<in> set hop_by_hop \<union> {''connection'', ''upgrade''}. hdr_get_all (rc_headers cx') n = []"
proof -
  obtain fail cx1 w1 where trans: "apply_transforms (at_request_transforms a) cx w = ((fail, cx1), w1)"
    by (metis prod.exhaust)
  have none: "fail = None"
    using assms trans by (cases fail) (auto simp: serve_plain_def plain_exchange_def Let_def)
  let ?cx2 = "cx1\<lparr>rc_headers := strip_hop_by_hop False (set_host_header (rc_authority cx1) (rc_headers cx1))\<rparr>"
  obtain r tried w2 where sock: "guard_socket (origin_of env) (sv_guard sv) (rc_authority cx1) w1 = (r, tried, w2)"
    by (metis prod_cases3)
  have "b = rc_authority cx1 \<and> (bs = transformed_origin_form rq ?cx2 \<or> bs = stream)"
    using assms trans none sock by (cases r) (auto simp: serve_plain_def plain_exchange_def Let_def)
  with that [of ?cx2] show thesis
    by (simp add: hop_headers_exact)
qed

lemma later_requests_pass_unread:
  assumes "apply_transforms (at_request_transforms a) cx w = ((None, cx1), w1)"
    and "guard_socket (origin_of env) (sv_guard sv) (rc_authority cx1) w1 = (Inr tcp, tried, w2)"
  shows "\<exists>head rec. serve_plain env sv a cx oc rq stream w =
    ([Did (Dialled (rc_authority cx1) tried), Forwarded (rc_authority cx1) head,
      Did (Counted (rc_identity cx1) (rc_profile cx1) True (oc_would_deny oc)), Did (Audited rec),
      Forwarded (rc_authority cx1) stream], w2)"
  using assms by (simp add: serve_plain_def plain_exchange_def Let_def emit_audit_def)

lemma plain_body_is_not_scanned: "rc_body (http_context env a peer rq) = Empty"
  by (simp add: http_context_def server_context_def Let_def)

text \<open>A refusal for want of an identity is answered, but neither counted nor recorded.\<close>

lemma unattributed_refusal_leaves_no_record:
  assumes "resolve_attribution (se_net env) (se_glob env) (http_conn env sv peer local cred rq) (sv_runtime sv) = Some a"
    and "\<not> rs_attributed (at_resolved a)" and "rg_deny_unidentified (rt_identities (sv_runtime sv))"
  shows "\<exists>reply. serve_request env sn sv peer local cred rq stream w = ([Replied reply], w)"
  using assms by (simp add: serve_request_def Let_def)

text \<open>
  The same tunnel is opened for a client of HTTP and refused to one of SOCKS5, where no layer of the
  chain can decide before the TLS is opened.
\<close>

lemma socks_tunnel_is_not_deferred:
  assumes "resolve_attribution (se_net env) (se_glob env) (attach_peer_cred (se_fs env) (rt_identities (sv_runtime sv))
      (server_conn_info peer local\<lparr>ci_proxy_auth := sq_credential rq\<rparr>)) (sv_runtime sv) = Some a"
    and "rs_attributed (at_resolved a)"
    and "chain_evaluate (oe_layer_us env) (at_chain a)
      (server_context env a Explicit peer (sq_authority rq) ''CONNECT'' [] Connect) w = (oc, w1)"
    and "oc_action oc = ActDeny" and "r_layer (oc_reason oc) = ''default_action''"
  shows "\<exists>rest. serve_socks_request env sv peer local rq stream w = (reply_with NotAllowed # rest, w1) \<and>
    \<not> (\<exists>e \<in> set rest. reaches e)"
  using assms by (auto simp: serve_socks_request_def Let_def)

end
