(* ===== verification/Inject.thy ===== *)
theory Inject
  imports Intercept Form "HOL-Library.Product_Lexorder"
begin

text \<open>
  Secrets at the boundary: where they come from (\<open>crates/marshal-secrets/src/source.rs\<close>, the trait
  \<open>SecretSource\<close> of \<open>crates/marshal-core/src/secret.rs\<close>) and how they are put on a request
  (\<open>crates/marshal-secrets/src/swap.rs\<close>). SHA-256, HMAC, the clock, the parser of a path with its
  query and \<open>Uri::from_parts\<close> are parameters.
\<close>

section \<open>Sources\<close>

text \<open>A source may change the world it reads: a cache, a token endpoint.\<close>

record 'w secret_source =
  ss_name :: string
  ss_resolve :: "'w \<Rightarrow> (core_error + string) \<times> 'w"
  ss_preload :: "'w \<Rightarrow> (core_error + string option) \<times> 'w"

text \<open>The default of the trait: what can be resolved is held already.\<close>

definition preload_by_resolving ::
  "('w \<Rightarrow> (core_error + string) \<times> 'w) \<Rightarrow> 'w \<Rightarrow> (core_error + string option) \<times> 'w" where
  "preload_by_resolving res w =
    (case res w of (Inl e, w') \<Rightarrow> (Inl e, w') | (Inr v, w') \<Rightarrow> (Inr (Some v), w'))"

definition env_resolve :: "environment \<Rightarrow> string \<Rightarrow> core_error + string" where
  "env_resolve en var =
    (case env_var en var of
       Some v \<Rightarrow> Inr v
     | None \<Rightarrow> Inl (EConfig (''environment variable `'' @ var @ ''` is not set'')))"

definition env_source :: "environment \<Rightarrow> string \<Rightarrow> 'w secret_source" where
  "env_source en var =
    (let res = (\<lambda>w. (env_resolve en var, w)) in
     \<lparr>ss_name = var, ss_resolve = res, ss_preload = preload_by_resolving res\<rparr>)"

text \<open>A file, with the time it was last read (in nanoseconds of a clock that never goes back) and what was in it.\<close>

record file_source =
  fs_path :: string
  fs_ttl :: nat
  fs_json_key :: "string option"
  fs_cached :: "(nat \<times> string) option"

definition file_source_new :: "string \<Rightarrow> nat \<Rightarrow> string option \<Rightarrow> file_source" where
  "file_source_new path ttl json_key = \<lparr>fs_path = path, fs_ttl = ttl, fs_json_key = json_key, fs_cached = None\<rparr>"

definition file_read :: "json_lib \<Rightarrow> file_source \<Rightarrow> string + string \<Rightarrow> core_error + string" where
  "file_read js src content =
    (case content of
       Inl e \<Rightarrow> Inl (EIo e)
     | Inr contents \<Rightarrow>
         (case fs_json_key src of
            None \<Rightarrow> Inr (trim contents)
          | Some key \<Rightarrow>
              (case jl_parse js (bytes_of contents) of
                 None \<Rightarrow> Inl (EConfig (fs_path src @ '': '' @ jl_error js (bytes_of contents)))
               | Some doc \<Rightarrow>
                   (case get_str doc key of
                      Some v \<Rightarrow> Inr v
                    | None \<Rightarrow> Inl (EConfig (fs_path src @ '' has no string field `'' @ key @ ''`''))))))"

definition file_resolve ::
  "json_lib \<Rightarrow> nat \<Rightarrow> string + string \<Rightarrow> file_source \<Rightarrow> (core_error + string) \<times> file_source" where
  "file_resolve js now content src =
    (case fs_cached src of
       Some (since, v) \<Rightarrow>
         if now - since < fs_ttl src then (Inr v, src)
         else (case file_read js src content of
                 Inl e \<Rightarrow> (Inl e, src) | Inr fresh \<Rightarrow> (Inr fresh, src\<lparr>fs_cached := Some (now, fresh)\<rparr>))
     | None \<Rightarrow>
         (case file_read js src content of
            Inl e \<Rightarrow> (Inl e, src) | Inr fresh \<Rightarrow> (Inr fresh, src\<lparr>fs_cached := Some (now, fresh)\<rparr>)))"

section \<open>Swaps\<close>

datatype 'w injection =
    Basic string "'w secret_source"
  | Bearer "'w secret_source"
  | InHeader string "'w secret_source"
  | InQuery string "'w secret_source"
  | SigV4 "'w secret_source" "'w secret_source" "'w secret_source option" string string nat

record ('net, 'w) secret_swap =
  sw_name :: string
  sw_injection :: "'w injection"
  sw_hosts :: "'net host_matcher"

record ('net, 'w) secret_injector =
  in_swaps :: "('net, 'w) secret_swap list"
  in_exceptions :: "(string \<times> string) list"

definition injector_new :: "('net, 'w) secret_swap list \<Rightarrow> ('net, 'w) secret_injector" where
  "injector_new swaps = \<lparr>in_swaps = swaps, in_exceptions = []\<rparr>"

definition excluding ::
  "(string \<times> string) list \<Rightarrow> ('net, 'w) secret_injector \<Rightarrow> ('net, 'w) secret_injector" where
  "excluding endpoints si = si\<lparr>in_exceptions := endpoints\<rparr>"

definition excluded :: "('net, 'w) secret_injector \<Rightarrow> request_context \<Rightarrow> (string \<times> string) option" where
  "excluded si cx =
     find (\<lambda>(h, p). eq_ignore_ascii_case (auth_host (rc_authority cx)) h \<and> uri_path (rc_uri cx) = p)
       (in_exceptions si)"

definition injector_is_empty :: "('net, 'w) secret_injector \<Rightarrow> bool" where
  "injector_is_empty si \<longleftrightarrow> in_swaps si = []"

definition labeled_sources :: "('net, 'w) secret_swap \<Rightarrow> (string \<times> 'w secret_source) list" where
  "labeled_sources sw =
    (case sw_injection sw of
       Basic _ s \<Rightarrow> [(sw_name sw, s)]
     | Bearer s \<Rightarrow> [(sw_name sw, s)]
     | InHeader _ s \<Rightarrow> [(sw_name sw, s)]
     | InQuery _ s \<Rightarrow> [(sw_name sw, s)]
     | SigV4 key secret token _ _ _ \<Rightarrow>
         [(sw_name sw @ ''.access_key_id'', key), (sw_name sw @ ''.secret_access_key'', secret)]
           @ (case token of Some t \<Rightarrow> [(sw_name sw @ ''.session_token'', t)] | None \<Rightarrow> []))"

fun preload_all :: "(string \<times> 'w secret_source) list \<Rightarrow> 'w \<Rightarrow> (string \<times> string) list \<times> 'w" where
  "preload_all [] w = ([], w)"
| "preload_all ((label, s) # rest) w =
    (case ss_preload s w of
       (r, w1) \<Rightarrow>
         (case preload_all rest w1 of
            (out, w2) \<Rightarrow> ((case r of Inr (Some v) \<Rightarrow> (label, v) # out | _ \<Rightarrow> out), w2)))"

definition resolve_all :: "('net, 'w) secret_injector \<Rightarrow> 'w \<Rightarrow> (string \<times> string) list \<times> 'w" where
  "resolve_all si w = preload_all (concat (map labeled_sources (in_swaps si))) w"

definition swap_requirement :: "('net, 'w) secret_swap \<Rightarrow> body_requirement" where
  "swap_requirement sw = (case sw_injection sw of SigV4 _ _ _ _ _ cap \<Rightarrow> BufferBody cap | _ \<Rightarrow> StreamBody)"

definition injector_requirement :: "('net, 'w) secret_injector \<Rightarrow> body_requirement" where
  "injector_requirement si = fold (\<lambda>sw acc. br_combine acc (swap_requirement sw)) (in_swaps si) StreamBody"

section \<open>Setting a credential\<close>

record utc_time =
  ut_year :: nat
  ut_month :: nat
  ut_day :: nat
  ut_hour :: nat
  ut_minute :: nat
  ut_second :: nat

record ('net, 'w) inject_env =
  ij_net :: "'net ipnet"
  ij_path_query :: "string \<Rightarrow> uri option"
  ij_from_parts :: "uri \<Rightarrow> uri option \<Rightarrow> uri option"
  ij_sha256 :: "byte list \<Rightarrow> byte list"
  ij_hmac :: "byte list \<Rightarrow> byte list \<Rightarrow> byte list"
  ij_now :: "'w \<Rightarrow> utc_time"
  ij_debug :: "string \<Rightarrow> string"
  ij_bad_value :: string

definition try_set_header :: "string \<Rightarrow> string \<Rightarrow> request_context \<Rightarrow> bool \<times> request_context" where
  "try_set_header name value cx =
    (if header_value_ok value then (True, cx\<lparr>rc_headers := hdr_insert name value (rc_headers cx)\<rparr>)
     else (False, cx))"

definition append_query :: "('net, 'w) inject_env \<Rightarrow> uri \<Rightarrow> string \<Rightarrow> string \<Rightarrow> uri option" where
  "append_query env u name value =
    (let path = (if uri_path u = [] then ''/'' else uri_path u);
         query = unwrap_or [] (uri_query u);
         encoded_value = percent_encode (bytes_of value);
         new_query = (if query = [] then name @ ''='' @ encoded_value
                      else query @ ''&'' @ name @ ''='' @ encoded_value) in
     ij_from_parts env u (ij_path_query env (path @ ''?'' @ new_query)))"

definition pad :: "nat \<Rightarrow> nat \<Rightarrow> string" where
  "pad width n = replicate (width - length (show_nat n)) (CHR ''0'') @ show_nat n"

definition amz_date :: "utc_time \<Rightarrow> string" where
  "amz_date now = pad 4 (ut_year now) @ pad 2 (ut_month now) @ pad 2 (ut_day now) @ ''T''
     @ pad 2 (ut_hour now) @ pad 2 (ut_minute now) @ pad 2 (ut_second now) @ ''Z''"

definition hex_lower :: "byte \<Rightarrow> char" where
  "hex_lower n = (if n < 10 then char_of (48 + unat n) else char_of (87 + unat n))"

definition hex_encode :: "byte list \<Rightarrow> string" where
  "hex_encode bs = concat (map (\<lambda>b. [hex_lower (drop_bit 4 b), hex_lower (b AND 0x0F)]) bs)"

definition hex_val :: "byte \<Rightarrow> byte option" where
  "hex_val b =
    (if 0x30 \<le> b \<and> b \<le> 0x39 then Some (b - 0x30)
     else if 0x61 \<le> b \<and> b \<le> 0x66 then Some (b - 0x61 + 10)
     else if 0x41 \<le> b \<and> b \<le> 0x46 then Some (b - 0x41 + 10)
     else None)"

fun percent_decoded :: "byte list \<Rightarrow> byte list" where
  "percent_decoded [] = []"
| "percent_decoded (b # rest) =
    (if b = 0x25 \<and> 2 \<le> length rest
     then (case (hex_val (rest ! 0), hex_val (rest ! 1)) of
             (Some h, Some l) \<Rightarrow> (push_bit 4 h OR l) # percent_decoded (drop 2 rest)
           | _ \<Rightarrow> b # percent_decoded rest)
     else b # percent_decoded rest)"

definition canonical_path :: "string \<Rightarrow> string" where
  "canonical_path path =
    (if path = [] then ''/''
     else join ''/'' (map (\<lambda>s. percent_encode (bytes_of s)) (split_on (CHR ''/'') path)))"

definition canonical_pair :: "string \<Rightarrow> string \<times> string" where
  "canonical_pair p =
    (let again = (\<lambda>s. percent_encode (percent_decoded (bytes_of s))) in
     case split_once (CHR ''='') p of Some (k, v) \<Rightarrow> (again k, again v) | None \<Rightarrow> (again p, again []))"

definition canonical_query_string :: "string \<Rightarrow> string" where
  "canonical_query_string query =
    (if query = [] then []
     else join ''&'' (map (\<lambda>(k, v). k @ ''='' @ v)
       (sort (map canonical_pair (filter (\<lambda>p. p \<noteq> []) (split_on (CHR ''&'') query))))))"

text \<open>The key of the day, the region and the service, and the signature of a canonical request under it.\<close>

definition sigv4_key :: "('net, 'w) inject_env \<Rightarrow> string \<Rightarrow> string \<Rightarrow> string \<Rightarrow> string \<Rightarrow> byte list" where
  "sigv4_key env secret date_stamp region service =
    (let k_date = ij_hmac env (bytes_of (''AWS4'' @ secret)) (bytes_of date_stamp);
         k_region = ij_hmac env k_date (bytes_of region);
         k_service = ij_hmac env k_region (bytes_of service) in
     ij_hmac env k_service (bytes_of ''aws4_request''))"

definition canonical_request ::
  "string \<Rightarrow> uri \<Rightarrow> (string \<times> string) list \<Rightarrow> string \<Rightarrow> string" where
  "canonical_request meth u covered payload_hash =
     meth @ [CHR 0x0A] @ canonical_path (uri_path u) @ [CHR 0x0A]
       @ canonical_query_string (unwrap_or [] (uri_query u)) @ [CHR 0x0A]
       @ concat (map (\<lambda>(k, v). k @ '':'' @ trim v @ [CHR 0x0A]) covered) @ [CHR 0x0A]
       @ join '';'' (map fst covered) @ [CHR 0x0A] @ payload_hash"

definition sigv4_authorization ::
  "('net, 'w) inject_env \<Rightarrow> string \<Rightarrow> string \<Rightarrow> string \<Rightarrow> string \<Rightarrow> string \<Rightarrow> (string \<times> string) list \<Rightarrow> string
     \<Rightarrow> string" where
  "sigv4_authorization env access_key_id secret region service date covered request =
    (let date_stamp = take 8 date;
         scope = date_stamp @ ''/'' @ region @ ''/'' @ service @ ''/aws4_request'';
         hashed = hex_encode (ij_sha256 env (bytes_of request));
         to_sign = ''AWS4-HMAC-SHA256'' @ [CHR 0x0A] @ date @ [CHR 0x0A] @ scope @ [CHR 0x0A] @ hashed;
         signature = hex_encode (ij_hmac env (sigv4_key env secret date_stamp region service) (bytes_of to_sign)) in
     ''AWS4-HMAC-SHA256 Credential='' @ access_key_id @ ''/'' @ scope @ '', SignedHeaders=''
       @ join '';'' (map fst covered) @ '', Signature='' @ signature)"

definition sigv4_body :: "body_handle \<Rightarrow> core_error + byte list" where
  "sigv4_body body =
    (case body of
       Empty \<Rightarrow> Inr []
     | Buffered b \<Rightarrow> Inr b
     | OverLimit _ _ limit \<Rightarrow> Inl (EBodyTooLarge limit)
     | Streaming \<Rightarrow> Inl (EConfig
         (''sigv4 injection needs the request body materialised to hash it, but the body ''
          @ ''is streaming (for example a WebSocket upgrade) '' @ [CHR 0xE2, CHR 0x80, CHR 0x94]
          @ '' scope this swap away from ''
          @ ''connections that upgrade'')))"

definition sigv4_headers :: "string \<Rightarrow> string \<Rightarrow> string \<Rightarrow> string option \<Rightarrow> headers \<Rightarrow> headers" where
  "sigv4_headers host_value date payload_hash session_token hs =
    (let hs1 = hdr_insert ''x-amz-content-sha256'' payload_hash
           (hdr_insert ''x-amz-date'' date (hdr_insert ''host'' host_value hs)) in
     case session_token of
       Some t \<Rightarrow> if header_value_ok t then hdr_insert ''x-amz-security-token'' t hs1 else hs1
     | None \<Rightarrow> hs1)"

definition sign_sigv4 ::
  "('net, 'w) inject_env \<Rightarrow> utc_time \<Rightarrow> request_context \<Rightarrow> string \<Rightarrow> string \<Rightarrow> string option \<Rightarrow> string \<Rightarrow> string
     \<Rightarrow> core_error option \<times> request_context" where
  "sign_sigv4 env now cx access_key_id secret session_token region service =
    (case sigv4_body (rc_body cx) of
       Inl e \<Rightarrow> (Some e, cx)
     | Inr body \<Rightarrow>
         (let payload_hash = hex_encode (ij_sha256 env body); date = amz_date now;
              host_value = (case Option.bind (hdr_get (rc_headers cx) ''host'') value_to_str of
                 Some v \<Rightarrow> v | None \<Rightarrow> show_authority (rc_authority cx)) in
          if \<not> header_value_ok host_value
          then (Some (EConfig (''sigv4: invalid host '' @ ij_debug env host_value @ '': '' @ ij_bad_value env)), cx)
          else
            (let hs2 = sigv4_headers host_value date payload_hash session_token (rc_headers cx);
                 covered = sort_key fst [(''host'', host_value), (''x-amz-content-sha256'', payload_hash),
                   (''x-amz-date'', date)];
                 auth = sigv4_authorization env access_key_id secret region service date covered
                   (canonical_request (rc_method cx) (rc_uri cx) covered payload_hash) in
             if header_value_ok auth
             then (None, cx\<lparr>rc_headers := hdr_insert ''authorization'' auth hs2\<rparr>)
             else (Some (EConfig (''sigv4: could not build the Authorization header: '' @ ij_bad_value env)),
                   cx\<lparr>rc_headers := hs2\<rparr>))))"

text \<open>What one swap does to a request: an error, or whether it put its credential on it.\<close>

definition inject_secret ::
  "'w secret_source \<Rightarrow> (string \<Rightarrow> bool \<times> request_context) \<Rightarrow> request_context \<Rightarrow> 'w
     \<Rightarrow> ((core_error + bool) \<times> request_context) \<times> 'w" where
  "inject_secret src put cx w =
    (case ss_resolve src w of
       (Inl e, w') \<Rightarrow> ((Inl e, cx), w')
     | (Inr secret_value, w') \<Rightarrow> (case put secret_value of (ok, cx') \<Rightarrow> ((Inr ok, cx'), w')))"

definition resolve_token :: "'w secret_source option \<Rightarrow> 'w \<Rightarrow> (core_error + string option) \<times> 'w" where
  "resolve_token token w =
    (case token of
       None \<Rightarrow> (Inr None, w)
     | Some s \<Rightarrow> (case ss_resolve s w of (Inl e, w') \<Rightarrow> (Inl e, w') | (Inr t, w') \<Rightarrow> (Inr (Some t), w')))"

definition inject ::
  "('net, 'w) inject_env \<Rightarrow> 'w injection \<Rightarrow> request_context \<Rightarrow> 'w
     \<Rightarrow> ((core_error + bool) \<times> request_context) \<times> 'w" where
  "inject env i cx w =
    (case i of
       Basic username s \<Rightarrow>
         inject_secret s (\<lambda>secret_value. try_set_header ''authorization''
           (''Basic '' @ base64_encode (bytes_of (username @ '':'' @ secret_value))) cx) cx w
     | Bearer s \<Rightarrow> inject_secret s (\<lambda>secret_value. try_set_header ''authorization'' (''Bearer '' @ secret_value) cx) cx w
     | InHeader name s \<Rightarrow> inject_secret s (\<lambda>secret_value. try_set_header name secret_value cx) cx w
     | InQuery name s \<Rightarrow>
         inject_secret s (\<lambda>secret_value. case append_query env (rc_uri cx) name secret_value of
           Some u \<Rightarrow> (True, cx\<lparr>rc_uri := u\<rparr>) | None \<Rightarrow> (False, cx)) cx w
     | SigV4 key_src secret_src token_src region service _ \<Rightarrow>
         (case ss_resolve key_src w of
            (Inl e, w1) \<Rightarrow> ((Inl e, cx), w1)
          | (Inr access_key, w1) \<Rightarrow>
              (case ss_resolve secret_src w1 of
                 (Inl e, w2) \<Rightarrow> ((Inl e, cx), w2)
               | (Inr secret, w2) \<Rightarrow>
                   (case resolve_token token_src w2 of
                      (Inl e, w3) \<Rightarrow> ((Inl e, cx), w3)
                    | (Inr token, w3) \<Rightarrow>
                        (case sign_sigv4 env (ij_now env w3) cx access_key secret token region service of
                           (Some e, cx') \<Rightarrow> ((Inl e, cx'), w3) | (None, cx') \<Rightarrow> ((Inr True, cx'), w3))))))"

fun apply_swaps ::
  "('net, 'w) inject_env \<Rightarrow> ('net, 'w) secret_swap list \<Rightarrow> request_context \<Rightarrow> 'w
     \<Rightarrow> (core_error option \<times> request_context) \<times> 'w" where
  "apply_swaps env [] cx w = ((None, cx), w)"
| "apply_swaps env (sw # rest) cx w =
    (if host_matches (ij_net env) (sw_hosts sw) (auth_host (rc_authority cx)) = None
     then apply_swaps env rest cx w
     else
       (case inject env (sw_injection sw) cx w of
          ((Inl e, cx'), w') \<Rightarrow> ((Some e, cx'), w')
        | ((Inr injected, cx'), w') \<Rightarrow>
            apply_swaps env rest
              (if injected
               then cx'\<lparr>rc_evidence := record_ev (''secrets.injected.'' @ sw_name sw) (JBool True) (rc_evidence cx')\<rparr>
               else cx') w'))"

definition injector_apply ::
  "('net, 'w) inject_env \<Rightarrow> ('net, 'w) secret_injector \<Rightarrow> request_context \<Rightarrow> 'w
     \<Rightarrow> (core_error option \<times> request_context) \<times> 'w" where
  "injector_apply env si cx w =
    (case excluded si cx of
       Some (h, p) \<Rightarrow>
         ((None, cx\<lparr>rc_evidence := record_ev (''secrets.not_injected.'' @ h @ p) (JBool True) (rc_evidence cx)\<rparr>), w)
     | None \<Rightarrow> apply_swaps env (in_swaps si) cx w)"

definition injector_xform :: "('net, 'w) inject_env \<Rightarrow> ('net, 'w) secret_injector \<Rightarrow> 'w request_xform" where
  "injector_xform env si =
     \<lparr>rx_name = ''secrets'', rx_requirement = (\<lambda>_ _. injector_requirement si), rx_defers = (\<lambda>_. False),
      rx_apply = injector_apply env si\<rparr>"

section \<open>The canonical query\<close>

lemma hex_val_upper:
  assumes "x < (16 :: byte)"
  shows "hex_val (word_of_nat (of_char (hex_upper x))) = Some x"
proof -
  from assms have x: "unat x < 16"
    by (simp add: word_less_nat_alt)
  have "unat x = 0 \<or> unat x = 1 \<or> unat x = 2 \<or> unat x = 3 \<or> unat x = 4 \<or> unat x = 5 \<or> unat x = 6 \<or> unat x = 7 \<or>
      unat x = 8 \<or> unat x = 9 \<or> unat x = 10 \<or> unat x = 11 \<or> unat x = 12 \<or> unat x = 13 \<or> unat x = 14 \<or> unat x = 15"
    using x by arith
  then have "x = 0 \<or> x = 1 \<or> x = 2 \<or> x = 3 \<or> x = 4 \<or> x = 5 \<or> x = 6 \<or> x = 7 \<or>
      x = 8 \<or> x = 9 \<or> x = 10 \<or> x = 11 \<or> x = 12 \<or> x = 13 \<or> x = 14 \<or> x = 15"
    by (simp add: word_unat_eq_iff)
  then show ?thesis
    by (elim disjE) (simp_all add: hex_upper_def hex_val_def)
qed

lemma nibbles_or: "push_bit 4 (drop_bit 4 b) OR (b AND 0x0F) = (b :: byte)"
  unfolding mask_and by (rule bit_word_eqI) (auto simp: bit_simps)

lemma percent_decoded_byte:
  "percent_decoded (bytes_of (percent_byte b) @ rest) = b # percent_decoded rest"
proof (cases "unreserved b")
  case True
  with unreserved_chars [OF True] show ?thesis
    by (auto simp: percent_byte_def bytes_of_Cons char_of_unat_eq)
next
  case False
  then show ?thesis
    by (simp add: percent_byte_def bytes_of_Cons hex_val_upper nibble_bounds nibbles_or)
qed

lemma percent_decoded_encode [simp]: "percent_decoded (bytes_of (percent_encode bs)) = bs"
  by (induction bs) (simp_all add: percent_encode_def bytes_of_append percent_decoded_byte)

definition encoded :: "string \<Rightarrow> bool" where
  "encoded s \<longleftrightarrow> (\<exists>bs. s = percent_encode bs)"

lemma encoded_canonical_pair: "canonical_pair p = (k, v) \<Longrightarrow> encoded k \<and> encoded v"
  by (auto simp: canonical_pair_def encoded_def Let_def split: option.splits)

lemma canonical_pair_again:
  assumes "encoded k" and "encoded v"
  shows "canonical_pair (k @ ''='' @ v) = (k, v)"
proof -
  obtain a b where kv: "k = percent_encode a" "v = percent_encode b"
    using assms by (auto simp: encoded_def)
  then have "split_once (CHR ''='') (k @ ''='' @ v) = Some (k, v)"
    by (simp add: split_once_Some percent_encode_chars)
  with kv show ?thesis
    by (simp add: canonical_pair_def Let_def)
qed

lemma split_join_amp:
  "ws \<noteq> [] \<Longrightarrow> \<forall>w \<in> set ws. CHR ''&'' \<notin> set w \<Longrightarrow> split_on (CHR ''&'') (join ''&'' ws) = ws"
proof (induction ws)
  case (Cons w ws)
  then show ?case
    by (cases ws) (simp_all add: split_on_single split_on_append_sep)
qed simp

text \<open>
  The canonical form of a query does not depend on how the query was written: putting
  a canonical query into canonical form again changes nothing, so the signature of a request is the
  same whichever encoding the client or an earlier swap chose for the same parameters.
\<close>

lemma canonical_query_idempotent:
  "canonical_query_string (canonical_query_string q) = canonical_query_string q"
proof (cases "q = [] \<or> filter (\<lambda>p. p \<noteq> []) (split_on (CHR ''&'') q) = []")
  case True
  then show ?thesis
    by (auto simp: canonical_query_string_def)
next
  case False
  define ps where "ps = sort (map canonical_pair (filter (\<lambda>p. p \<noteq> []) (split_on (CHR ''&'') q)))"
  let ?show = "\<lambda>(k, v). k @ ''='' @ v :: string"
  have ne: "ps \<noteq> []"
  proof -
    have "length ps = length (filter (\<lambda>p. p \<noteq> []) (split_on (CHR ''&'') q))"
      by (simp add: ps_def)
    with False show ?thesis
      by auto
  qed
  have enc: "encoded k \<and> encoded v" if "(k, v) \<in> set ps" for k v
  proof -
    from that obtain p where "canonical_pair p = (k, v)"
      unfolding ps_def set_sort set_map by force
    then show ?thesis
      by (rule encoded_canonical_pair)
  qed
  have query: "canonical_query_string q = join ''&'' (map ?show ps)"
    using False by (simp add: canonical_query_string_def ps_def)
  have "CHR ''&'' \<notin> set (?show p)" if "p \<in> set ps" for p
    using enc [of "fst p" "snd p"] that by (auto simp: encoded_def percent_encode_chars split: prod.split)
  then have parts: "split_on (CHR ''&'') (join ''&'' (map ?show ps)) = map ?show ps"
    by (intro split_join_amp) (simp_all add: ne)
  have "filter (\<lambda>p. p \<noteq> []) (map ?show ps) = map ?show ps"
    by (auto simp: filter_id_conv split: prod.splits)
  moreover have "map (canonical_pair \<circ> ?show) ps = ps"
    using enc by (intro map_idI) (auto simp: canonical_pair_again [simplified])
  moreover have "sort ps = ps"
    by (simp add: ps_def sorted_sort_id)
  moreover have "join ''&'' (map ?show ps) \<noteq> []"
    using ne by (cases ps rule: list.exhaust; cases "tl ps") auto
  ultimately show ?thesis
    unfolding query by (simp add: canonical_query_string_def parts [simplified])
qed

section \<open>Signatures\<close>

lemma covered_headers_sorted:
  "sort_key fst [(''host'', a :: string), (''x-amz-content-sha256'', b), (''x-amz-date'', c)] =
     [(''host'', a), (''x-amz-content-sha256'', b), (''x-amz-date'', c)]"
  by (simp add: less_eq_char_def less_char_def)

text \<open>
  What the service recomputes from a request that reaches it: the signature over the method, path and
  query it was sent with, and over the values of the covered headers it carries.
\<close>

definition covered_by :: "headers \<Rightarrow> (string \<times> string) list" where
  "covered_by hs = map (\<lambda>n. (n, unwrap_or [] (hdr_get hs n))) [''host'', ''x-amz-content-sha256'', ''x-amz-date'']"

definition sigv4_verifies ::
  "('net, 'w) inject_env \<Rightarrow> string \<Rightarrow> string \<Rightarrow> string \<Rightarrow> string \<Rightarrow> request_context \<Rightarrow> bool" where
  "sigv4_verifies env access_key_id secret region service cx \<longleftrightarrow>
     (\<exists>body date. sigv4_body (rc_body cx) = Inr body \<and>
        hdr_get (rc_headers cx) ''x-amz-content-sha256'' = Some (hex_encode (ij_sha256 env body)) \<and>
        hdr_get (rc_headers cx) ''x-amz-date'' = Some date \<and>
        hdr_get_all (rc_headers cx) ''authorization'' =
          [sigv4_authorization env access_key_id secret region service date (covered_by (rc_headers cx))
             (canonical_request (rc_method cx) (rc_uri cx) (covered_by (rc_headers cx))
                (hex_encode (ij_sha256 env body)))])"

lemma sigv4_headers_get [simp]:
  "hdr_get_all (sigv4_headers h d p t hs) n =
    (if n = ''host'' then [h] else if n = ''x-amz-date'' then [d] else if n = ''x-amz-content-sha256'' then [p]
     else if n = ''x-amz-security-token'' \<and> (\<exists>v. t = Some v \<and> header_value_ok v) then [the t]
     else hdr_get_all hs n)"
  by (auto simp: sigv4_headers_def Let_def split: option.splits)

lemma signature_covers_what_is_sent_core:
  assumes "sign_sigv4 env now cx access_key_id secret token region service = (None, cx')"
  shows "sigv4_verifies env access_key_id secret region service cx'"
proof -
  obtain body where body: "sigv4_body (rc_body cx) = Inr body"
    using assms by (auto simp: sign_sigv4_def split: sum.splits)
  from assms body show ?thesis
    by (auto simp: sign_sigv4_def Let_def sigv4_verifies_def covered_by_def covered_headers_sorted hdr_get_def
        split: if_splits option.splits)
qed

text \<open>
  C10 (functional). A signed request verifies: when signing succeeds, the one authorization header of the
  request is the signature that the service recomputes from what it then receives, the hash header is
  that of the body as it stands, and nothing of the request but its headers was changed.
\<close>

theorem signature_covers_what_is_sent:
  assumes "sign_sigv4 env now cx access_key_id secret token region service = (None, cx')"
  shows "sigv4_verifies env access_key_id secret region service cx' \<and>
    (\<exists>hs. cx' = cx\<lparr>rc_headers := hs\<rparr>) \<and>
    (\<forall>n. n \<notin> {''host'', ''x-amz-date'', ''x-amz-content-sha256'', ''x-amz-security-token'', ''authorization''}
       \<longrightarrow> hdr_get_all (rc_headers cx') n = hdr_get_all (rc_headers cx) n)"
proof -
  obtain body where body: "sigv4_body (rc_body cx) = Inr body"
    using assms by (auto simp: sign_sigv4_def split: sum.splits)
  from assms body signature_covers_what_is_sent_core [OF assms] show ?thesis
    by (auto simp: sign_sigv4_def Let_def split: if_splits option.splits)
qed

text \<open>
  The signature covers the client's spelling of the host, which the head of the forwarded request does
  not keep: \<open>set_host_header\<close> runs after every transform and drops the port of the scheme.
\<close>

lemma respelled_host_breaks_signature:
  assumes "hdr_get (rc_headers cx) ''host'' = Some ''s3.test:443''"
    and "rc_authority cx = \<lparr>auth_host = ''s3.test'', auth_port = 443\<rparr>"
    and "sign_sigv4 env now cx access_key_id secret token region service = (None, cx')"
  shows "canonical_request (rc_method cx') (rc_uri cx') (covered_by (rc_headers cx')) hash \<noteq>
    canonical_request (rc_method cx') (rc_uri cx')
      (covered_by (strip_hop_by_hop False (set_host_header (rc_authority cx') (rc_headers cx')))) hash"
proof -
  obtain body where body: "sigv4_body (rc_body cx) = Inr body"
    using assms(3) by (auto simp: sign_sigv4_def split: sum.splits)
  have plain: "value_to_str ''s3.test:443'' = Some ''s3.test:443''" "value_to_str ''s3.test'' = Some ''s3.test''"
      "trim ''s3.test:443'' = ''s3.test:443''" "trim ''s3.test'' = ''s3.test''"
      "header_value_ok ''s3.test:443''" "header_value_ok ''s3.test''"
    by code_simp+
  from assms body have cx': "rc_authority cx' = \<lparr>auth_host = ''s3.test'', auth_port = 443\<rparr>"
      "hdr_get (rc_headers cx') ''host'' = Some ''s3.test:443''"
    by (auto simp: sign_sigv4_def Let_def plain hdr_get_def split: if_splits option.splits)
  let ?sent = "strip_hop_by_hop False (set_host_header (rc_authority cx') (rc_headers cx'))"
  have "hdr_get ?sent ''host'' = Some ''s3.test''"
    by (simp add: hdr_get_def hop_headers_exact cx' plain hop_by_hop_def)
  with cx' show ?thesis
    by (simp add: canonical_request_def covered_by_def plain)
qed

section \<open>Whose credential a request carries\<close>

definition in_scope :: "('net, 'w) inject_env \<Rightarrow> request_context \<Rightarrow> ('net, 'w) secret_swap \<Rightarrow> bool" where
  "in_scope env cx sw \<longleftrightarrow> host_matches (ij_net env) (sw_hosts sw) (auth_host (rc_authority cx)) \<noteq> None"

definition gives :: "'w secret_source \<Rightarrow> string \<Rightarrow> bool" where
  "gives s v \<longleftrightarrow> (\<exists>w w'. ss_resolve s w = (Inr v, w'))"

text \<open>The header a swap sets to a credential, and the values it may set it to.\<close>

fun credential_header :: "'w injection \<Rightarrow> string option" where
  "credential_header (Basic _ _) = Some ''authorization''"
| "credential_header (Bearer _) = Some ''authorization''"
| "credential_header (InHeader n _) = Some n"
| "credential_header (InQuery _ _) = None"
| "credential_header (SigV4 _ _ _ _ _ _) = Some ''authorization''"

fun credential :: "('net, 'w) inject_env \<Rightarrow> 'w injection \<Rightarrow> string \<Rightarrow> bool" where
  "credential env (Basic user s) v \<longleftrightarrow> (\<exists>x. gives s x \<and> v = ''Basic '' @ base64_encode (bytes_of (user @ '':'' @ x)))"
| "credential env (Bearer s) v \<longleftrightarrow> (\<exists>x. gives s x \<and> v = ''Bearer '' @ x)"
| "credential env (InHeader _ s) v \<longleftrightarrow> gives s v"
| "credential env (InQuery _ _) v \<longleftrightarrow> False"
| "credential env (SigV4 k s _ region service _) v \<longleftrightarrow>
     (\<exists>x y date covered request. gives k x \<and> gives s y \<and>
        v = sigv4_authorization env x y region service date covered request)"

abbreviation signing_headers :: "string set" where
  "signing_headers \<equiv> {''host'', ''x-amz-date'', ''x-amz-content-sha256'', ''x-amz-security-token''}"

fun signs :: "'w injection \<Rightarrow> bool" where
  "signs (SigV4 _ _ _ _ _ _) = True"
| "signs _ = False"

text \<open>What one swap does to a request, whichever way it ends.\<close>

definition injected_ok ::
  "('net, 'w) inject_env \<Rightarrow> 'w injection \<Rightarrow> request_context \<Rightarrow> request_context \<Rightarrow> bool" where
  "injected_ok env i cx cx' \<longleftrightarrow>
     rc_authority cx' = rc_authority cx \<and> rc_identity cx' = rc_identity cx \<and> rc_profile cx' = rc_profile cx \<and>
     rc_ingress cx' = rc_ingress cx \<and> rc_method cx' = rc_method cx \<and> rc_body cx' = rc_body cx \<and>
     rc_evidence cx' = rc_evidence cx \<and>
     (\<forall>n. hdr_get_all (rc_headers cx') n = hdr_get_all (rc_headers cx) n \<or>
        credential_header i = Some n \<and> (\<exists>v. hdr_get_all (rc_headers cx') n = [v] \<and> credential env i v) \<or>
        signs i \<and> n \<in> signing_headers)"

lemma injected_ok_refl [simp]: "injected_ok env i cx cx"
  by (simp add: injected_ok_def)

lemma injected_ok_set:
  "credential_header i = Some n \<Longrightarrow> credential env i v \<Longrightarrow>
    injected_ok env i cx (snd (try_set_header n v cx))"
  by (auto simp: try_set_header_def injected_ok_def)

lemma sign_sigv4_ok:
  assumes "sign_sigv4 env now cx x y token region service = (e, cx')" and "gives k x" and "gives s y"
  shows "injected_ok env (SigV4 k s t region service cap) cx cx'"
proof -
  have cases: "cx' = cx \<or> (\<exists>h d p. cx' = cx\<lparr>rc_headers := sigv4_headers h d p token (rc_headers cx)\<rparr>) \<or>
      (\<exists>h d p date cov rq. cx' = cx\<lparr>rc_headers := hdr_insert ''authorization''
         (sigv4_authorization env x y region service date cov rq) (sigv4_headers h d p token (rc_headers cx))\<rparr>)"
    using assms(1) unfolding sign_sigv4_def Let_def by (simp split: sum.splits if_splits) blast+
  have "credential env (SigV4 k s t region service cap) (sigv4_authorization env x y region service date cov rq)"
    for date cov rq
    unfolding credential.simps using assms(2,3) by blast
  with cases show ?thesis
    by (elim disjE exE) (simp_all add: injected_ok_def)
qed

lemma inject_secret_cases:
  assumes "inject_secret s put cx w = ((r, cx'), w')"
  shows "cx' = cx \<or> (\<exists>x. gives s x \<and> cx' = snd (put x))"
proof -
  obtain r1 w1 where one: "ss_resolve s w = (r1, w1)"
    by fastforce
  show ?thesis
  proof (cases r1)
    case (Inr x)
    with one have "gives s x"
      by (auto simp: gives_def)
    with assms one Inr show ?thesis
      by (cases "put x") (auto simp: inject_secret_def intro: exI [of _ x])
  qed (use assms one in \<open>simp add: inject_secret_def\<close>)
qed

lemma inject_header_ok:
  assumes "inject_secret s (\<lambda>x. try_set_header n (f x) cx) cx w = ((r, cx'), w')"
    and "credential_header i = Some n" and "\<And>x. gives s x \<Longrightarrow> credential env i (f x)"
  shows "injected_ok env i cx cx'"
  using inject_secret_cases [OF assms(1)] assms(2,3) injected_ok_set [of i n env]
  by (elim disjE exE conjE) simp_all

lemma inject_ok:
  assumes "inject env i cx w = ((r, cx'), w')"
  shows "injected_ok env i cx cx'"
proof (cases i)
  case (Basic user s)
  with assms show ?thesis
    by (intro inject_header_ok [where n = "''authorization''" and s = s]) (auto simp: inject_def)
next
  case (Bearer s)
  with assms show ?thesis
    by (intro inject_header_ok [where n = "''authorization''" and s = s]) (auto simp: inject_def)
next
  case (InHeader n s)
  with assms show ?thesis
    by (intro inject_header_ok [where n = n and s = s]) (auto simp: inject_def)
next
  case (InQuery n s)
  with assms have "cx' = cx \<or> (\<exists>x. gives s x \<and> cx' = snd (case append_query env (rc_uri cx) n x of
      Some u \<Rightarrow> (True, cx\<lparr>rc_uri := u\<rparr>) | None \<Rightarrow> (False, cx)))"
    by (intro inject_secret_cases) (simp add: inject_def)
  then show ?thesis
    by (auto simp: injected_ok_def split: option.splits)
next
  case (SigV4 k s t region service cap)
  obtain r1 w1 where one: "ss_resolve k w = (r1, w1)"
    by fastforce
  obtain r2 w2 where two: "ss_resolve s w1 = (r2, w2)"
    by fastforce
  obtain r3 w3 where three: "resolve_token t w2 = (r3, w3)"
    by fastforce
  show ?thesis
  proof (cases "\<exists>x y z. r1 = Inr x \<and> r2 = Inr y \<and> r3 = Inr z")
    case True
    then obtain x y z where xyz: "r1 = Inr x" "r2 = Inr y" "r3 = Inr z"
      by blast
    obtain e cx2 where sign: "sign_sigv4 env (ij_now env w3) cx x y z region service = (e, cx2)"
      by fastforce
    from assms SigV4 one two three xyz sign have "cx' = cx2"
      by (auto simp: inject_def split: option.splits)
    moreover have "gives k x" "gives s y"
      using one two xyz by (auto simp: gives_def)
    ultimately show ?thesis
      using sign_sigv4_ok [OF sign] SigV4 by simp
  next
    case False
    with assms SigV4 one two three have "cx' = cx"
      by (cases r1; cases r2; cases r3) (auto simp: inject_def)
    then show ?thesis
      by simp
  qed
qed

definition ours ::
  "('net, 'w) inject_env \<Rightarrow> ('net, 'w) secret_swap set \<Rightarrow> request_context \<Rightarrow> string \<Rightarrow> headers \<Rightarrow> bool" where
  "ours env swaps cx n hs \<longleftrightarrow> (\<exists>sw \<in> swaps. in_scope env cx sw \<and>
     (\<exists>v. hdr_get_all hs n = [v] \<and> credential_header (sw_injection sw) = Some n \<and> credential env (sw_injection sw) v))"

text \<open>What the injector may do to a request: everything but headers, query and evidence stays.\<close>

definition confined ::
  "('net, 'w) inject_env \<Rightarrow> ('net, 'w) secret_swap set \<Rightarrow> request_context \<Rightarrow> request_context \<Rightarrow> bool" where
  "confined env swaps cx cx' \<longleftrightarrow>
     rc_authority cx' = rc_authority cx \<and> rc_identity cx' = rc_identity cx \<and> rc_profile cx' = rc_profile cx \<and>
     rc_ingress cx' = rc_ingress cx \<and> rc_method cx' = rc_method cx \<and> rc_body cx' = rc_body cx \<and>
     ev_le (rc_evidence cx) (rc_evidence cx') \<and>
     (\<forall>n. hdr_get_all (rc_headers cx') n = hdr_get_all (rc_headers cx) n \<or> ours env swaps cx n (rc_headers cx') \<or>
        n \<in> signing_headers \<and> (\<exists>sw \<in> swaps. in_scope env cx sw \<and> signs (sw_injection sw)))"

lemma confined_refl [simp]: "confined env swaps cx cx"
  by (simp add: confined_def)

lemma confined_mono: "confined env A cx cx' \<Longrightarrow> A \<subseteq> B \<Longrightarrow> confined env B cx cx'"
  unfolding confined_def ours_def by blast

lemma confined_trans:
  assumes "confined env swaps cx cx'" and "confined env swaps cx' cx''"
  shows "confined env swaps cx cx''"
proof -
  have "rc_authority cx' = rc_authority cx"
    using assms(1) by (simp add: confined_def)
  then have scope: "in_scope env cx' sw = in_scope env cx sw" for sw
    by (simp add: in_scope_def)
  have ours: "ours env swaps cx' n hs = ours env swaps cx n hs" for n hs
    by (simp add: ours_def scope)
  have "hdr_get_all (rc_headers cx'') n = hdr_get_all (rc_headers cx) n \<or> ours env swaps cx n (rc_headers cx'') \<or>
        n \<in> signing_headers \<and> (\<exists>sw \<in> swaps. in_scope env cx sw \<and> signs (sw_injection sw))" for n
  proof (cases "hdr_get_all (rc_headers cx'') n = hdr_get_all (rc_headers cx') n")
    case True
    then have "ours env swaps cx n (rc_headers cx'') = ours env swaps cx n (rc_headers cx')"
      by (simp add: ours_def)
    with True assms(1) show ?thesis
      unfolding confined_def by metis
  next
    case False
    with assms(2) have "ours env swaps cx' n (rc_headers cx'') \<or>
        n \<in> signing_headers \<and> (\<exists>sw \<in> swaps. in_scope env cx' sw \<and> signs (sw_injection sw))"
      unfolding confined_def by blast
    then show ?thesis
      by (simp add: ours scope)
  qed
  moreover have "ev_le (rc_evidence cx) (rc_evidence cx'')"
    by (rule ev_le_trans [of _ "rc_evidence cx'"]) (use assms in \<open>simp_all add: confined_def\<close>)
  ultimately show ?thesis
    using assms by (simp add: confined_def)
qed

lemma confined_inject:
  assumes "inject env (sw_injection sw) cx w = ((r, cx'), w')" and "in_scope env cx sw"
  shows "confined env {sw} cx (cx'\<lparr>rc_evidence := rc_evidence cx\<rparr>)"
    and "confined env {sw} cx (cx'\<lparr>rc_evidence := record_ev k v (rc_evidence cx')\<rparr>)"
    and "confined env {sw} cx cx'"
  using inject_ok [OF assms(1)] assms(2)
  by (auto simp: injected_ok_def confined_def ours_def ev_le_record)

lemma apply_swaps_confined:
  "apply_swaps env swaps cx w = ((e, cx'), w') \<Longrightarrow> confined env (set swaps) cx cx'"
proof (induction swaps arbitrary: cx w)
  case (Cons sw rest)
  show ?case
  proof (cases "in_scope env cx sw")
    case False
    with Cons.prems have "apply_swaps env rest cx w = ((e, cx'), w')"
      by (simp add: in_scope_def)
    with Cons.IH show ?thesis
      by (meson confined_mono set_subset_Cons)
  next
    case True
    obtain r cx1 w1 where one: "inject env (sw_injection sw) cx w = ((r, cx1), w1)"
      by (metis prod.exhaust)
    define cx2 where "cx2 = (if r = Inr True
       then cx1\<lparr>rc_evidence := record_ev (''secrets.injected.'' @ sw_name sw) (JBool True) (rc_evidence cx1)\<rparr>
       else cx1)"
    have step: "confined env (set (sw # rest)) cx cx2" "confined env (set (sw # rest)) cx cx1"
      using confined_inject [OF one True] by (auto simp: cx2_def intro: confined_mono)
    show ?thesis
    proof (cases r)
      case (Inl err)
      with Cons.prems True one step show ?thesis
        by (auto simp: in_scope_def)
    next
      case (Inr b)
      with Cons.prems True one have "apply_swaps env rest cx2 w1 = ((e, cx'), w')"
        by (auto simp: in_scope_def cx2_def split: if_splits)
      with Cons.IH have "confined env (set (sw # rest)) cx2 cx'"
        by (meson confined_mono set_subset_Cons)
      with step show ?thesis
        using confined_trans by blast
    qed
  qed
qed simp

lemma injector_apply_confined:
  assumes "injector_apply env si cx w = ((e, cx'), w')"
  shows "confined env (set (in_swaps si)) cx cx'"
proof (cases "excluded si cx")
  case (Some hp)
  with assms show ?thesis
    by (cases hp) (auto simp: injector_apply_def confined_def ev_le_record)
qed (use assms apply_swaps_confined in \<open>auto simp: injector_apply_def\<close>)

interpretation injector: request_rewriter "rx_apply (injector_xform env si)" for env si
  by (rule request_rewriter.intro)
    (auto simp: injector_xform_def confined_def dest: injector_apply_confined)

lemma apply_swaps_out_of_scope:
  "\<forall>sw \<in> set swaps. \<not> in_scope env cx sw \<Longrightarrow> apply_swaps env swaps cx w = ((None, cx), w)"
  by (induction swaps) (simp_all add: in_scope_def)

text \<open>
  C8 (safety). No credential leaves its scope: whatever the swaps, the sources and the outcome, the injector
  changes a header of a request only into a credential of a swap whose hosts cover the request, formatted
  from a value its source gave, or into a header of a signature of such a swap; method, body, authority
  and owner of the request stay as they were. Where no swap covers the host, or the endpoint is an
  exception, no source is even asked and only a note of the exception is left.
\<close>

theorem credentials_stay_in_scope:
  assumes "injector_apply env si cx w = ((e, cx'), w')"
  shows "confined env (set (in_swaps si)) cx cx' \<and>
    (excluded si cx \<noteq> None \<or> (\<forall>sw \<in> set (in_swaps si). \<not> in_scope env cx sw) \<longrightarrow>
       e = None \<and> w' = w \<and> cx'\<lparr>rc_evidence := rc_evidence cx\<rparr> = cx)"
  using injector_apply_confined [OF assms] assms apply_swaps_out_of_scope [of "in_swaps si" env cx]
  by (auto simp: injector_apply_def split: option.splits)

lemma inject_sets:
  assumes "inject env i cx w = ((Inr b, cx'), w')" and "credential_header i = Some n" and "n \<notin> signing_headers"
    and "\<And>v. credential env i v \<Longrightarrow> header_value_ok v"
  shows "\<exists>v. hdr_get_all (rc_headers cx') n = [v] \<and> credential env i v"
proof -
  have plain: "\<exists>v. hdr_get_all (rc_headers cx') n = [v] \<and> credential env i v"
    if "inject_secret s (\<lambda>x. try_set_header n (f x) cx) cx w = ((Inr b, cx'), w')"
      and "\<And>x. gives s x \<Longrightarrow> credential env i (f x)" for s f
  proof -
    obtain r1 w1 where one: "ss_resolve s w = (r1, w1)"
      by fastforce
    with that(1) obtain x where x: "r1 = Inr x" "try_set_header n (f x) cx = (b, cx')"
      by (cases r1) (auto simp: inject_secret_def split: prod.splits)
    from one x have "gives s x"
      by (auto simp: gives_def)
    with that(2) have "credential env i (f x)"
      by blast
    with x assms(4) show ?thesis
      by (auto simp: try_set_header_def)
  qed
  show ?thesis
  proof (cases i)
    case (Basic user s)
    with assms(1,2) show ?thesis
      by (intro plain [of s]) (auto simp: inject_def)
  next
    case (Bearer s)
    with assms(1,2) show ?thesis
      by (intro plain [of s]) (auto simp: inject_def)
  next
    case (InHeader m s)
    with assms(1,2) show ?thesis
      by (intro plain [of s]) (auto simp: inject_def)
  next
    case (SigV4 k s t region service cap)
    with assms(1) obtain x w1 y w2 z w3 where got: "ss_resolve k w = (Inr x, w1)" "ss_resolve s w1 = (Inr y, w2)"
        "resolve_token t w2 = (Inr z, w3)"
        and sign: "sign_sigv4 env (ij_now env w3) cx x y z region service = (None, cx')"
      by (auto simp: inject_def split: prod.splits sum.splits option.splits)
    have n: "n = ''authorization''"
      using assms(2) SigV4 by simp
    from signature_covers_what_is_sent_core [OF sign] obtain date cov rq where
      "hdr_get_all (rc_headers cx') ''authorization'' = [sigv4_authorization env x y region service date cov rq]"
      by (auto simp: sigv4_verifies_def)
    moreover have "credential env i (sigv4_authorization env x y region service date cov rq)"
    proof -
      have "gives k x" "gives s y"
        using got by (auto simp: gives_def)
      then show ?thesis
        unfolding SigV4 credential.simps by blast
    qed
    ultimately show ?thesis
      using n by blast
  qed (use assms(2) in simp)
qed

lemma apply_swaps_replaces:
  assumes "apply_swaps env swaps cx w = ((None, cx'), w')" and "sw \<in> set swaps" and "in_scope env cx sw"
    and "credential_header (sw_injection sw) = Some n" and "n \<notin> signing_headers"
    and "\<forall>sw \<in> set swaps. \<forall>v. credential env (sw_injection sw) v \<longrightarrow> header_value_ok v"
  shows "ours env (set swaps) cx n (rc_headers cx')"
  using assms
proof (induction swaps arbitrary: cx w)
  case (Cons sw1 rest)
  show ?case
  proof (cases "in_scope env cx sw1")
    case False
    with Cons.prems have "apply_swaps env rest cx w = ((None, cx'), w')" "sw \<in> set rest"
      by (auto simp: in_scope_def)
    with Cons have "ours env (set rest) cx n (rc_headers cx')"
      by simp
    then show ?thesis
      by (auto simp: ours_def)
  next
    case True
    obtain r cx1 w1 where one: "inject env (sw_injection sw1) cx w = ((r, cx1), w1)"
      by (metis prod.exhaust)
    from Cons.prems(1) True one obtain b where r: "r = Inr b"
      by (cases r) (auto simp: in_scope_def)
    define cx2 where "cx2 = (if b
       then cx1\<lparr>rc_evidence := record_ev (''secrets.injected.'' @ sw_name sw1) (JBool True) (rc_evidence cx1)\<rparr>
       else cx1)"
    from Cons.prems(1) True one r have run: "apply_swaps env rest cx2 w1 = ((None, cx'), w')"
      by (auto simp: in_scope_def cx2_def split: if_splits)
    have hs: "rc_headers cx2 = rc_headers cx1" "rc_authority cx2 = rc_authority cx"
      using inject_ok [OF one] by (auto simp: cx2_def injected_ok_def)
    then have scope: "in_scope env cx2 = in_scope env cx"
      by (auto simp: in_scope_def fun_eq_iff)
    show ?thesis
    proof (cases "sw \<in> set rest")
      case True
      with Cons.IH [OF run True] Cons.prems scope have "ours env (set rest) cx2 n (rc_headers cx')"
        by simp
      then show ?thesis
        by (auto simp: ours_def scope)
    next
      case False
      with Cons.prems have sw: "sw = sw1"
        by simp
      with inject_sets [of env "sw_injection sw" cx w b cx1 w1 n] one r Cons.prems
      obtain v where v: "hdr_get_all (rc_headers cx1) n = [v]" "credential env (sw_injection sw) v"
        by auto
      from apply_swaps_confined [OF run] Cons.prems(5) hs
      have "hdr_get_all (rc_headers cx') n = hdr_get_all (rc_headers cx1) n \<or> ours env (set rest) cx2 n (rc_headers cx')"
        by (auto simp: confined_def)
      with v sw Cons.prems(3,4) show ?thesis
        by (auto simp: ours_def scope)
    qed
  qed
qed simp


text \<open>
  Where a value cannot be written in a header, the swap does nothing and says nothing: the client's own
  credential goes out.
\<close>

lemma unwritable_secret_keeps_clients:
  assumes "ss_resolve s w = (Inr x, w')" and "\<not> header_value_ok (''Bearer '' @ x)"
  shows "inject env (Bearer s) cx w = ((Inr False, cx), w')"
  using assms by (simp add: inject_def inject_secret_def try_set_header_def)

text \<open>The client's own parameter of the same name stays in front of the one that is appended.\<close>

lemma query_swap_keeps_clients:
  assumes "uri_query u = Some q" and "q \<noteq> []" and "uri_path u \<noteq> []"
  shows "append_query env u name value =
    ij_from_parts env u (ij_path_query env
      (uri_path u @ ''?'' @ q @ ''&'' @ name @ ''='' @ percent_encode (bytes_of value)))"
  using assms by (simp add: append_query_def Let_def)

text \<open>
  An exception is for a host as it is spelled, a swap for a host however it is spelled: with a final dot
  the same endpoint is in scope of the swap and no exception.
\<close>

lemma exception_misses_final_dot:
  assumes "host_matches (ij_net env) (sw_hosts sw) ''auth.test'' \<noteq> None"
    and "rc_authority cx = \<lparr>auth_host = ''auth.test.'', auth_port = 443\<rparr>"
  shows "excluded \<lparr>in_swaps = [sw], in_exceptions = [(''auth.test'', ''/token'')]\<rparr> cx = None \<and> in_scope env cx sw"
proof -
  have "host_matches (ij_net env) (sw_hosts sw) ''auth.test.'' = host_matches (ij_net env) (sw_hosts sw) ''auth.test''"
    by (rule host_spelling_irrelevant [where n = 1]) code_simp+
  moreover have "\<not> eq_ignore_ascii_case ''auth.test.'' ''auth.test''"
    by code_simp
  ultimately show ?thesis
    using assms by (simp add: excluded_def in_scope_def)
qed

section \<open>Files\<close>

text \<open>
  A value read from a file is at most its time to live old: what a resolve returns is what the file held at
  some moment within that time. The history of a source pairs each moment it was asked with what the
  file held then.
\<close>

fun file_run ::
  "json_lib \<Rightarrow> (nat \<times> (string + string)) list \<Rightarrow> file_source \<Rightarrow> (core_error + string) list \<times> file_source" where
  "file_run js [] src = ([], src)"
| "file_run js ((now, content) # later) src =
    (case file_resolve js now content src of
       (r, src1) \<Rightarrow> (case file_run js later src1 of (rs, src2) \<Rightarrow> (r # rs, src2)))"

lemma file_resolve_settings:
  "file_resolve js now content src = (r, src') \<Longrightarrow>
     fs_path src' = fs_path src \<and> fs_ttl src' = fs_ttl src \<and> fs_json_key src' = fs_json_key src"
  by (auto simp: file_resolve_def split: option.splits prod.splits if_splits sum.splits)

lemma file_read_cong:
  "fs_path a = fs_path b \<Longrightarrow> fs_json_key a = fs_json_key b \<Longrightarrow> file_read js a content = file_read js b content"
  by (simp add: file_read_def split: sum.split option.split)

definition read_of ::
  "json_lib \<Rightarrow> file_source \<Rightarrow> (nat \<times> (string + string)) set \<Rightarrow> nat \<Rightarrow> string \<Rightarrow> bool" where
  "read_of js src past t v \<longleftrightarrow> (\<exists>c. (t, c) \<in> past \<and> file_read js src c = Inr v)"

lemma read_of_mono: "read_of js src A t v \<Longrightarrow> A \<subseteq> B \<Longrightarrow> read_of js src B t v"
  by (auto simp: read_of_def)

lemma file_run_fresh:
  fixes src src' :: file_source
  assumes "file_run js evs src = (rs, src')"
    and "\<And>t v. fs_cached src = Some (t, v) \<Longrightarrow> read_of js src past t v"
    and "i < length rs" and "rs ! i = Inr v"
  shows "\<exists>t. read_of js src (past \<union> set (take (Suc i) evs)) t v \<and>
    (t = fst (evs ! i) \<or> fst (evs ! i) - t < fs_ttl src)"
  using assms
proof (induction evs arbitrary: src src' past rs i)
  case (Cons ev evs)
  obtain now content where ev: "ev = (now, content)"
    by fastforce
  obtain r src1 where one: "file_resolve js now content src = (r, src1)"
    by fastforce
  obtain rs2 src2 where rest: "file_run js evs src1 = (rs2, src2)"
    by fastforce
  from Cons.prems(1) ev one rest have rs: "rs = r # rs2"
    by simp
  note same = file_resolve_settings [OF one]
  then have read: "file_read js src1 = file_read js src"
    by (auto simp: fun_eq_iff intro: file_read_cong)
  have cached: "read_of js src1 (insert ev past) t x" if "fs_cached src1 = Some (t, x)" for t x
    using one that Cons.prems(2) unfolding read_of_def read ev
    by (auto simp: file_resolve_def split: option.splits prod.splits if_splits sum.splits)
  show ?case
  proof (cases i)
    case 0
    with Cons.prems(4) rs have "r = Inr v"
      by simp
    with one Cons.prems(2) 0 ev show ?thesis
      by (auto simp: file_resolve_def read_of_def split: option.splits prod.splits if_splits sum.splits)
  next
    case (Suc k)
    from Cons.IH [OF rest cached, of k] Cons.prems(3,4) rs Suc
    obtain t where "read_of js src1 (insert ev past \<union> set (take (Suc k) evs)) t v"
        "t = fst (evs ! k) \<or> fst (evs ! k) - t < fs_ttl src1"
      by auto
    with same read Suc show ?thesis
      by (auto simp: read_of_def)
  qed
qed simp

lemma file_secret_is_fresh:
  assumes "file_run js evs (file_source_new path ttl key) = (rs, src')" and "i < length rs" and "rs ! i = Inr v"
  shows "\<exists>t. read_of js (file_source_new path ttl key) (set (take (Suc i) evs)) t v \<and>
    (t = fst (evs ! i) \<or> fst (evs ! i) - t < ttl)"
proof -
  have "\<exists>t. read_of js (file_source_new path ttl key) ({} \<union> set (take (Suc i) evs)) t v \<and>
      (t = fst (evs ! i) \<or> fst (evs ! i) - t < fs_ttl (file_source_new path ttl key))"
    by (rule file_run_fresh [OF assms(1) _ assms(2,3)]) (simp add: file_source_new_def)
  then show ?thesis
    by (simp add: file_source_new_def)
qed

section \<open>The injector at work\<close>

definition sample_inject_env :: "(unit, nat) inject_env" where
  "sample_inject_env =
     \<lparr>ij_net = \<lparr>net_parse = (\<lambda>_. None), net_contains = (\<lambda>_ _. False), net_show = (\<lambda>_. [])\<rparr>,
      ij_path_query = (\<lambda>_. None), ij_from_parts = (\<lambda>_ u. u), ij_sha256 = (\<lambda>_. []), ij_hmac = (\<lambda>_ _. []),
      ij_now = (\<lambda>_. \<lparr>ut_year = 2026, ut_month = 1, ut_day = 2, ut_hour = 3, ut_minute = 4, ut_second = 5\<rparr>),
      ij_debug = id, ij_bad_value = []\<rparr>"

definition fixed_source :: "string \<Rightarrow> nat secret_source" where
  "fixed_source v = \<lparr>ss_name = ''t'', ss_resolve = (\<lambda>w. (Inr v, w)), ss_preload = (\<lambda>w. (Inr (Some v), w))\<rparr>"

definition sample_injector :: "(unit, nat) secret_injector" where
  "sample_injector = injector_new
     [\<lparr>sw_name = ''api'', sw_injection = Bearer (fixed_source ''tok''),
       sw_hosts = \<lparr>hm_exact = [''api.test''], hm_suffix = [], hm_cidrs = []\<rparr>\<rparr>]"

definition inject_request :: request_context where
  "inject_request =
     \<lparr>rc_identity = ''a'', rc_profile = ''p'', rc_ingress = Explicit, rc_phase = Request,
      rc_client_addr = \<lparr>sa_ip = V4 127 0 0 1, sa_port = 1\<rparr>,
      rc_authority = \<lparr>auth_host = ''api.test'', auth_port = 443\<rparr>, rc_method = ''GET'',
      rc_uri = \<lparr>uri_path = ''/'', uri_query = None\<rparr>, rc_headers = [(''authorization'', [''Bearer mine''])],
      rc_body = Empty, rc_evidence = ev_new, rc_llm_route = None\<rparr>"

lemma sample_scope:
  "sw \<in> set (in_swaps sample_injector) \<Longrightarrow> in_scope sample_inject_env inject_request sw"
proof -
  have "host_matches (ij_net sample_inject_env) \<lparr>hm_exact = [''api.test''], hm_suffix = [], hm_cidrs = []\<rparr>
      ''api.test'' \<noteq> None"
    unfolding sample_inject_env_def by code_simp
  then show "sw \<in> set (in_swaps sample_injector) \<Longrightarrow> in_scope sample_inject_env inject_request sw"
    by (auto simp: sample_injector_def injector_new_def in_scope_def inject_request_def)
qed

lemma sample_injected:
  "injector_apply sample_inject_env sample_injector inject_request 0 =
    ((None, inject_request\<lparr>rc_headers := [(''authorization'', [''Bearer tok''])],
       rc_evidence := record_ev ''secrets.injected.api'' (JBool True) ev_new\<rparr>), 0)"
proof -
  have ok: "header_value_ok ''Bearer tok''"
    by code_simp
  let ?sw = "\<lparr>sw_name = ''api'', sw_injection = Bearer (fixed_source ''tok''),
       sw_hosts = \<lparr>hm_exact = [''api.test''], hm_suffix = [], hm_cidrs = []\<rparr>\<rparr> :: (unit, nat) secret_swap"
  have scope: "in_scope sample_inject_env inject_request ?sw"
    by (rule sample_scope) (simp add: sample_injector_def injector_new_def)
  have "inject sample_inject_env (Bearer (fixed_source ''tok'')) inject_request 0 =
      ((Inr True, inject_request\<lparr>rc_headers := [(''authorization'', [''Bearer tok''])]\<rparr>), 0)"
    using ok by (simp add: inject_def inject_secret_def fixed_source_def try_set_header_def inject_request_def)
  with scope show ?thesis
    by (auto simp: injector_apply_def sample_injector_def injector_new_def excluded_def in_scope_def inject_request_def)
qed

theorem credentials_stay_in_scope_witness:
  "\<exists>cx'. confined sample_inject_env (set (in_swaps sample_injector)) inject_request cx' \<and>
     hdr_get_all (rc_headers cx') ''authorization'' = [''Bearer tok'']"
  by (intro exI conjI, rule conjunct1 [OF credentials_stay_in_scope [OF sample_injected]])
    (simp add: hdr_get_all_def)


theorem signature_covers_what_is_sent_witness:
  "\<exists>cx'. sign_sigv4 sample_inject_env (ij_now sample_inject_env 0) inject_request ''AK'' ''SK'' None ''r'' ''s'' = (None, cx')
     \<and> sigv4_verifies sample_inject_env ''AK'' ''SK'' ''r'' ''s'' cx'"
proof -
  have "fst (sign_sigv4 sample_inject_env (ij_now sample_inject_env 0) inject_request ''AK'' ''SK'' None ''r'' ''s'') = None"
    unfolding sample_inject_env_def inject_request_def by code_simp
  then obtain cx' where run:
      "sign_sigv4 sample_inject_env (ij_now sample_inject_env 0) inject_request ''AK'' ''SK'' None ''r'' ''s'' = (None, cx')"
    by (metis prod.collapse)
  from signature_covers_what_is_sent [OF this] run show ?thesis
    by blast
qed

end
