(* ===== verification/Oauth.thy ===== *)
theory Oauth
  imports Inject Redact
begin

text \<open>
  What an OAuth2 credential is made of: the answers of a token endpoint and the tokens kept of them
  (\<open>crates/marshal-secrets/src/oauth/token.rs\<close>), the store that keeps them in memory and on disk
  (\<open>store.rs\<close>), signed assertions (\<open>jwt.rs\<close>) and proof keys (\<open>pkce.rs\<close>). The disk is a map from paths to
  contents on which every step can fail; signing, hashing, entropy and clocks are parameters.
  A panic ends the request it happens in like an error and is the error value \<open>EOther\<close>.
\<close>

section \<open>Tokens\<close>

text \<open>Durations and instants are in nanoseconds.\<close>

definition seconds :: "nat \<Rightarrow> nat" where
  "seconds n = n * 10 ^ 9"

record token_response =
  tk_access_token :: string
  tk_expires_in :: "nat option"
  tk_refresh_token :: "string option"
  tk_scope :: "string option"
  tk_id_token :: "string option"

definition nonempty_str :: "json \<Rightarrow> string \<Rightarrow> string option" where
  "nonempty_str body k = (case get_str body k of Some s \<Rightarrow> (if s = [] then None else Some s) | None \<Rightarrow> None)"

definition token_parse :: "json \<Rightarrow> core_error + token_response" where
  "token_parse body =
    (case nonempty_str body ''access_token'' of
       None \<Rightarrow> Inl (EConfig ''the token endpoint returned 200 with no `access_token` field'')
     | Some access_token \<Rightarrow>
         Inr \<lparr>tk_access_token = access_token,
              tk_expires_in = map_option seconds (Option.bind (jget body ''expires_in'') as_u64),
              tk_refresh_token = nonempty_str body ''refresh_token'',
              tk_scope = get_str body ''scope'', tk_id_token = nonempty_str body ''id_token''\<rparr>)"

definition show_b64_error :: "(char \<Rightarrow> string) \<Rightarrow> b64_error \<Rightarrow> string" where
  "show_b64_error debug e = (case e of InvalidBase64url c \<Rightarrow> ''invalid base64url character '' @ debug c)"

text \<open>The \<open>Debug\<close> form of a character is a parameter.\<close>

definition decode_id_token_claims :: "(char \<Rightarrow> string) \<Rightarrow> json_lib \<Rightarrow> string \<Rightarrow> core_error + json" where
  "decode_id_token_claims debug js jwt =
    (let parts = split_on (CHR ''.'') jwt in
     if length parts \<noteq> 3
     then Inl (EConfig ''id_token is not a JWT: expected three dot-separated parts'')
     else
       (case base64url_decode (parts ! 1) of
          Inl e \<Rightarrow> Inl (EConfig (''id_token payload is not valid base64url: '' @ show_b64_error debug e))
        | Inr bytes \<Rightarrow>
            (case jl_parse js bytes of
               None \<Rightarrow> Inl (EConfig (''id_token payload is not valid JSON: '' @ jl_error js bytes))
             | Some doc \<Rightarrow> Inr doc)))"

definition describe_error :: "(nat \<Rightarrow> string) \<Rightarrow> nat \<Rightarrow> json \<Rightarrow> string" where
  "describe_error show_status status body =
    (case jget body ''error'' of
       Some (JStr code) \<Rightarrow>
         (case get_str body ''error_description'' of
            Some desc \<Rightarrow> show_status status @ '': '' @ code @ '': '' @ desc
          | None \<Rightarrow> show_status status @ '': '' @ code)
     | Some (JObj m) \<Rightarrow>
         (case (get_str (JObj m) ''code'', get_str (JObj m) ''message'') of
            (Some code, Some message) \<Rightarrow> show_status status @ '': '' @ code @ '': '' @ message
          | (Some code, None) \<Rightarrow> show_status status @ '': '' @ code
          | (None, Some message) \<Rightarrow> show_status status @ '': '' @ message
          | (None, None) \<Rightarrow> show_status status)
     | _ \<Rightarrow> show_status status)"

record cached_token =
  ct_value :: string
  ct_expires_at :: "nat option"
  ct_id_token :: "string option"

text \<open>An instant is a number of seconds of 64 bits with a sign; adding past its end is a panic.\<close>

definition instant_end :: nat where
  "instant_end = seconds (2 ^ 63)"

definition with_id_token ::
  "nat \<Rightarrow> string \<Rightarrow> nat option \<Rightarrow> nat \<Rightarrow> string option \<Rightarrow> core_error + cached_token" where
  "with_id_token now v expires_in skew id_token =
    (case expires_in of
       None \<Rightarrow> Inr \<lparr>ct_value = v, ct_expires_at = None, ct_id_token = id_token\<rparr>
     | Some ttl \<Rightarrow>
         if instant_end \<le> now + (ttl - skew)
         then Inl (EOther ''overflow when adding duration to instant'')
         else Inr \<lparr>ct_value = v, ct_expires_at = Some (now + (ttl - skew)), ct_id_token = id_token\<rparr>)"

definition is_live :: "nat \<Rightarrow> cached_token \<Rightarrow> bool" where
  "is_live now t = (case ct_expires_at t of Some expiry \<Rightarrow> now < expiry | None \<Rightarrow> False)"

section \<open>The disk\<close>

datatype disk_step =
    StatDir string
  | MakeDir string
  | OpenFile string
  | WriteFile string
  | SyncFile string
  | RenameFile string
  | ReadFile string
  | RemoveFile string

record stored_grant =
  sg_refresh_token :: string
  sg_obtained_at :: int
  sg_scope :: "string option"

text \<open>
  The state of the process that credentials live in; what is outside of it (clocks, network, entropy, the
  faults of the disk) extends the record. A directory is the permission bits it has.
\<close>

record process =
  pr_access :: "string \<rightharpoonup> cached_token"
  pr_grants :: "string \<rightharpoonup> stored_grant"
  pr_files :: "string \<rightharpoonup> byte list"
  pr_dirs :: "string \<rightharpoonup> nat"
  pr_redactor :: redactor

datatype algorithm = Rs256 | Es256

text \<open>What a PEM block holds, and the kinds of failure to find one.\<close>

datatype key_kind = Pkcs8 | Pkcs1 | Sec1 | OtherKey

datatype pem_error = NoItemsFound | OtherPem string

record ('sock, 'conn, 'a, 'net) oauth_env =
  oa_http :: "('sock, 'conn, 'a) http_env"
  oa_json :: json_lib
  oa_pretty :: "json \<Rightarrow> byte list"
  oa_guard :: "'net guard option"
  oa_late :: "string \<Rightarrow> 'a \<Rightarrow> 'a option"
  oa_instant :: "'a \<Rightarrow> nat"
  oa_unix :: "'a \<Rightarrow> int"
  oa_entropy :: "nat \<Rightarrow> 'a \<Rightarrow> (string + byte list) \<times> 'a"
  oa_fault :: "disk_step \<Rightarrow> 'a \<Rightarrow> string option"
  oa_torn :: "'a \<Rightarrow> nat"
  oa_pem :: "string \<Rightarrow> pem_error + key_kind \<times> byte list"
  oa_rsa :: "bool \<Rightarrow> byte list \<Rightarrow> string option"
  oa_rsa_sign :: "byte list \<Rightarrow> byte list \<Rightarrow> 'a \<Rightarrow> byte list option"
  oa_ecdsa :: "byte list \<Rightarrow> bool"
  oa_ecdsa_sign :: "byte list \<Rightarrow> byte list \<Rightarrow> 'a \<Rightarrow> byte list option"
  oa_sha256 :: "byte list \<Rightarrow> byte list"
  oa_status :: "nat \<Rightarrow> string"
  oa_duration :: "nat \<Rightarrow> string"
  oa_debug :: "char \<Rightarrow> string"
  oa_dir :: "string option"

definition now_unix :: "('sock, 'conn, 'a, 'net) oauth_env \<Rightarrow> 'a process_scheme \<Rightarrow> int" where
  "now_unix env p = max 0 (oa_unix env (process.more p))"

definition instant :: "('sock, 'conn, 'a, 'net) oauth_env \<Rightarrow> 'a process_scheme \<Rightarrow> nat" where
  "instant env p = oa_instant env (process.more p)"

definition fault :: "('sock, 'conn, 'a, 'net) oauth_env \<Rightarrow> disk_step \<Rightarrow> 'a process_scheme \<Rightarrow> string option" where
  "fault env st p = oa_fault env st (process.more p)"

section \<open>The store\<close>

definition grant_to_json :: "stored_grant \<Rightarrow> json" where
  "grant_to_json g = jobj
     [(''refresh_token'', JStr (sg_refresh_token g)), (''obtained_at'', jint (sg_obtained_at g)),
      (''scope'', (case sg_scope g of Some s \<Rightarrow> JStr s | None \<Rightarrow> JNull))]"

definition grant_from_json :: "json \<Rightarrow> string \<Rightarrow> core_error + stored_grant" where
  "grant_from_json doc path =
    (case nonempty_str doc ''refresh_token'' of
       None \<Rightarrow> Inl (EConfig (path @ '': no `refresh_token` field''))
     | Some rt \<Rightarrow>
         Inr \<lparr>sg_refresh_token = rt,
              sg_obtained_at = unwrap_or 0 (Option.bind (jget doc ''obtained_at'') as_i64),
              sg_scope = get_str doc ''scope''\<rparr>)"

text \<open>\<open>Path::join\<close> and \<open>with_extension\<close> on the one name that has no extension.\<close>

definition path_join :: "string \<Rightarrow> string \<Rightarrow> string" where
  "path_join d f = (if d = [] \<or> last d = CHR ''/'' then d @ f else d @ ''/'' @ f)"

definition store_dir :: "('sock, 'conn, 'a, 'net) oauth_env \<Rightarrow> string option" where
  "store_dir env = map_option (\<lambda>d. path_join d ''oauth'') (oa_dir env)"

definition path_for :: "('sock, 'conn, 'a, 'net) oauth_env \<Rightarrow> string \<Rightarrow> string option" where
  "path_for env swap = map_option (\<lambda>d. path_join d (percent_encode (bytes_of swap) @ ''.json'')) (store_dir env)"

definition tmp_for :: "string \<Rightarrow> string \<Rightarrow> string" where
  "tmp_for swap path = (if swap = [] then path @ ''.json.tmp'' else path @ ''.tmp'')"

definition persists :: "('sock, 'conn, 'a, 'net) oauth_env \<Rightarrow> bool" where
  "persists env \<longleftrightarrow> store_dir env \<noteq> None"

definition cached_access ::
  "('sock, 'conn, 'a, 'net) oauth_env \<Rightarrow> string \<Rightarrow> 'a process_scheme \<Rightarrow> cached_token option" where
  "cached_access env swap p =
    (case pr_access p swap of
       Some t \<Rightarrow> if is_live (instant env p) t then Some t else None | None \<Rightarrow> None)"

definition put_access ::
  "('sock, 'conn, 'a, 'net) oauth_env \<Rightarrow> string \<Rightarrow> cached_token \<Rightarrow> 'a process_scheme \<Rightarrow> 'a process_scheme" where
  "put_access env swap t p =
    (if \<not> is_live (instant env p) t then p else p\<lparr>pr_access := (pr_access p)(swap \<mapsto> t)\<rparr>)"

definition forget_access :: "string \<Rightarrow> 'a process_scheme \<Rightarrow> 'a process_scheme" where
  "forget_access swap p = p\<lparr>pr_access := (pr_access p)(swap := None)\<rparr>"

definition grant ::
  "('sock, 'conn, 'a, 'net) oauth_env \<Rightarrow> string \<Rightarrow> 'a process_scheme
     \<Rightarrow> (core_error + stored_grant option) \<times> 'a process_scheme" where
  "grant env swap p =
    (case pr_grants p swap of
       Some g \<Rightarrow> (Inr (Some g), p)
     | None \<Rightarrow>
         (case path_for env swap of
            None \<Rightarrow> (Inr None, p)
          | Some path \<Rightarrow>
              (case fault env (ReadFile path) p of
                 Some e \<Rightarrow> (Inl (EConfig (path @ '': '' @ e)), p)
               | None \<Rightarrow>
                   (case pr_files p path of
                      None \<Rightarrow> (Inr None, p)
                    | Some bytes \<Rightarrow>
                        (case from_utf8 bytes of
                           None \<Rightarrow> (Inl (EConfig (path @ '': stream did not contain valid UTF-8'')), p)
                         | Some _ \<Rightarrow>
                             (case jl_parse (oa_json env) bytes of
                                None \<Rightarrow> (Inl (EConfig (path @ '': '' @ jl_error (oa_json env) bytes)), p)
                              | Some doc \<Rightarrow>
                                  (case grant_from_json doc path of
                                     Inl e \<Rightarrow> (Inl e, p)
                                   | Inr g \<Rightarrow> (Inr (Some g), p\<lparr>pr_grants := (pr_grants p)(swap \<mapsto> g)\<rparr>))))))))"

definition octal :: "nat \<Rightarrow> string" where
  "octal n = show_nat (100 * (n div 64) + 10 * (n div 8 mod 8) + n mod 8)"

definition create_private_dir ::
  "('sock, 'conn, 'a, 'net) oauth_env \<Rightarrow> string \<Rightarrow> 'a process_scheme
     \<Rightarrow> core_error option \<times> 'a process_scheme" where
  "create_private_dir env d p =
    (case pr_dirs p d of
       None \<Rightarrow>
         (case fault env (MakeDir d) p of
            Some e \<Rightarrow> (Some (EConfig (''creating '' @ d @ '': '' @ e)), p)
          | None \<Rightarrow> (None, p\<lparr>pr_dirs := (pr_dirs p)(d \<mapsto> 448)\<rparr>))
     | Some bits \<Rightarrow>
         (case fault env (StatDir d) p of
            Some e \<Rightarrow> (Some (EConfig (d @ '': '' @ e)), p)
          | None \<Rightarrow>
              (let mode = bits mod 512 in
               if mode mod 64 \<noteq> 0
               then (Some (EConfig (d @ '' is mode '' @ octal mode
                       @ '', which lets other local users read stored credentials; it must be 0700'')), p)
               else (None, p))))"

text \<open>A write that fails leaves a beginning of what was to be written.\<close>

definition write_private ::
  "('sock, 'conn, 'a, 'net) oauth_env \<Rightarrow> string \<Rightarrow> byte list \<Rightarrow> 'a process_scheme
     \<Rightarrow> core_error option \<times> 'a process_scheme" where
  "write_private env path bytes p =
    (let failed = (\<lambda>e. Some (EConfig (path @ '': '' @ e))) in
     case fault env (OpenFile path) p of
       Some e \<Rightarrow> (failed e, p)
     | None \<Rightarrow>
         (case fault env (WriteFile path) p of
            Some e \<Rightarrow>
              (failed e, p\<lparr>pr_files := (pr_files p)(path \<mapsto> take (oa_torn env (process.more p)) bytes)\<rparr>)
          | None \<Rightarrow>
              (let p1 = p\<lparr>pr_files := (pr_files p)(path \<mapsto> bytes)\<rparr> in
               case fault env (SyncFile path) p of Some e \<Rightarrow> (failed e, p1) | None \<Rightarrow> (None, p1))))"

definition put_grant ::
  "('sock, 'conn, 'a, 'net) oauth_env \<Rightarrow> string \<Rightarrow> stored_grant \<Rightarrow> 'a process_scheme
     \<Rightarrow> core_error option \<times> 'a process_scheme" where
  "put_grant env swap g p =
    (case (path_for env swap, store_dir env) of
       (Some path, Some d) \<Rightarrow>
         (case create_private_dir env d p of
            (Some e, p1) \<Rightarrow> (Some e, p1)
          | (None, p1) \<Rightarrow>
              (let tmp = tmp_for swap path in
               case write_private env tmp (oa_pretty env (grant_to_json g)) p1 of
                 (Some e, p2) \<Rightarrow> (Some e, p2)
               | (None, p2) \<Rightarrow>
                   (case fault env (RenameFile tmp) p2 of
                      Some e \<Rightarrow> (Some (EConfig (path @ '': '' @ e)), p2)
                    | None \<Rightarrow>
                        (None, p2\<lparr>pr_files := (pr_files p2)(path := pr_files p2 tmp, tmp := None),
                                  pr_grants := (pr_grants p2)(swap \<mapsto> g)\<rparr>))))
     | _ \<Rightarrow>
         (Some (EConfig (''cannot persist the `'' @ swap @ ''` grant: no `state_dir` is configured, so marshal ''
            @ ''has nowhere to keep a refresh token across restarts'')), p))"

definition remove_grant ::
  "('sock, 'conn, 'a, 'net) oauth_env \<Rightarrow> string \<Rightarrow> 'a process_scheme \<Rightarrow> (core_error + bool) \<times> 'a process_scheme" where
  "remove_grant env swap p =
    (let p1 = (forget_access swap p)\<lparr>pr_grants := (pr_grants p)(swap := None)\<rparr> in
     case path_for env swap of
       None \<Rightarrow> (Inr False, p1)
     | Some path \<Rightarrow>
         (case fault env (RemoveFile path) p of
            Some e \<Rightarrow> (Inl (EConfig (path @ '': '' @ e)), p1)
          | None \<Rightarrow>
              (if pr_files p path = None then (Inr False, p1)
               else (Inr True, p1\<lparr>pr_files := (pr_files p1)(path := None)\<rparr>))))"

section \<open>Proof keys\<close>

definition random_urlsafe ::
  "('sock, 'conn, 'a, 'net) oauth_env \<Rightarrow> nat \<Rightarrow> 'a process_scheme \<Rightarrow> (core_error + string) \<times> 'a process_scheme" where
  "random_urlsafe env n p =
    (case oa_entropy env n (process.more p) of
       (Inl e, a) \<Rightarrow> (Inl (EConfig (''cannot read operating-system entropy: '' @ e)), process.more_update (\<lambda>_. a) p)
     | (Inr bytes, a) \<Rightarrow> (Inr (base64url_encode bytes), process.more_update (\<lambda>_. a) p))"

definition challenge_s256 :: "(byte list \<Rightarrow> byte list) \<Rightarrow> string \<Rightarrow> string" where
  "challenge_s256 sha256 verifier = base64url_encode (sha256 (bytes_of verifier))"

record pkce =
  pk_verifier :: string
  pk_challenge :: string

definition pkce_generate ::
  "('sock, 'conn, 'a, 'net) oauth_env \<Rightarrow> 'a process_scheme \<Rightarrow> (core_error + pkce) \<times> 'a process_scheme" where
  "pkce_generate env p =
    (case random_urlsafe env 32 p of
       (Inl e, p') \<Rightarrow> (Inl e, p')
     | (Inr verifier, p') \<Rightarrow>
         (Inr \<lparr>pk_verifier = verifier, pk_challenge = challenge_s256 (oa_sha256 env) verifier\<rparr>, p'))"

section \<open>Assertions\<close>

definition algorithm_name :: "algorithm \<Rightarrow> string" where
  "algorithm_name a = (case a of Rs256 \<Rightarrow> ''RS256'' | Es256 \<Rightarrow> ''ES256'')"

definition algorithm_parse :: "string \<Rightarrow> core_error + algorithm" where
  "algorithm_parse s =
    (if s = ''RS256'' then Inr Rs256 else if s = ''ES256'' then Inr Es256
     else Inl (EConfig (''unsupported JWT algorithm `'' @ s @ ''` '' @ [CHR 0xE2, CHR 0x80, CHR 0x94]
       @ '' expected RS256 or ES256'')))"

record claims =
  cl_issuer :: string
  cl_subject :: string
  cl_audience :: string
  cl_scope :: "string option"
  cl_jti :: "string option"
  cl_lifetime_secs :: nat
  cl_extra :: "(string \<times> json) list"

definition opt_entry :: "string \<Rightarrow> string option \<Rightarrow> (string \<times> json) list" where
  "opt_entry k v = (case v of Some x \<Rightarrow> [(k, JStr x)] | None \<Rightarrow> [])"

definition jwt_header :: "algorithm \<Rightarrow> string option \<Rightarrow> json" where
  "jwt_header alg key_id =
     jobj ([(''alg'', JStr (algorithm_name alg)), (''typ'', JStr ''JWT'')] @ opt_entry ''kid'' key_id)"

text \<open>The sum is one of 64-bit words.\<close>

definition jwt_payload :: "nat \<Rightarrow> claims \<Rightarrow> json" where
  "jwt_payload now c =
     jobj ([(''iss'', JStr (cl_issuer c)), (''sub'', JStr (cl_subject c)), (''aud'', JStr (cl_audience c)),
        (''iat'', jint (int now)), (''exp'', jint (int ((now + cl_lifetime_secs c) mod 2 ^ 64)))]
       @ opt_entry ''scope'' (cl_scope c) @ opt_entry ''jti'' (cl_jti c) @ cl_extra c)"

definition private_key_der ::
  "('sock, 'conn, 'a, 'net) oauth_env \<Rightarrow> string \<Rightarrow> core_error + key_kind \<times> byte list" where
  "private_key_der env pem =
    (case oa_pem env pem of
       Inl NoItemsFound \<Rightarrow> Inl (EConfig
         (''no PRIVATE KEY block in the configured `private_key` source '' @ [CHR 0xE2, CHR 0x80, CHR 0x94]
          @ '' it must be a PEM file, not a base64 blob or a JSON document''))
     | Inl (OtherPem e) \<Rightarrow> Inl (EConfig (''reading the private key: '' @ e))
     | Inr (OtherKey, _) \<Rightarrow> Inl (EConfig ''unrecognised private key format'')
     | Inr key \<Rightarrow> Inr key)"

text \<open>\<open>oa_rsa\<close> tells what is wrong with an RSA key, in PKCS#8 or bare.\<close>

definition rsa_key ::
  "('sock, 'conn, 'a, 'net) oauth_env \<Rightarrow> key_kind \<times> byte list \<Rightarrow> core_error + byte list" where
  "rsa_key env der =
    (let usable = (\<lambda>wrapped.
           case oa_rsa env wrapped (snd der) of
             None \<Rightarrow> Inr (snd der)
           | Some e \<Rightarrow> Inl (EConfig (''the private key is not a usable RSA key ('' @ e @ '') ''
               @ [CHR 0xE2, CHR 0x80, CHR 0x94] @ '' if it is an EC key, set `algorithm: ES256`''))) in
     case fst der of
       Pkcs8 \<Rightarrow> usable True
     | Pkcs1 \<Rightarrow> usable False
     | _ \<Rightarrow> Inl (EConfig
         (''the private key is an EC key, but `algorithm: RS256` was configured '' @ [CHR 0xE2, CHR 0x80, CHR 0x94]
          @ '' use `algorithm: ES256`'')))"

definition raw_sign ::
  "('sock, 'conn, 'a, 'net) oauth_env \<Rightarrow> string \<Rightarrow> algorithm \<Rightarrow> byte list \<Rightarrow> 'a process_scheme
     \<Rightarrow> core_error + byte list" where
  "raw_sign env pem alg message p =
    (case private_key_der env pem of
       Inl e \<Rightarrow> Inl e
     | Inr der \<Rightarrow>
         (case alg of
            Rs256 \<Rightarrow>
              (case rsa_key env der of
                 Inl e \<Rightarrow> Inl e
               | Inr key \<Rightarrow>
                   (case oa_rsa_sign env key message (process.more p) of
                      Some sig \<Rightarrow> Inr sig
                    | None \<Rightarrow> Inl (EConfig (''signing the JWT assertion failed '' @ [CHR 0xE2, CHR 0x80, CHR 0x94]
                        @ '' the RSA key may be too small (2048 bits is the minimum)''))))
          | Es256 \<Rightarrow>
              (if \<not> oa_ecdsa env (snd der)
               then Inl (EConfig
                 ''the private key is not a PKCS#8 P-256 key, which `algorithm: ES256` requires'')
               else (case oa_ecdsa_sign env (snd der) message (process.more p) of
                       Some sig \<Rightarrow> Inr sig | None \<Rightarrow> Inl (EConfig ''signing the JWT assertion failed'')))))"

definition sign ::
  "('sock, 'conn, 'a, 'net) oauth_env \<Rightarrow> string \<Rightarrow> algorithm \<Rightarrow> string option \<Rightarrow> claims \<Rightarrow> 'a process_scheme
     \<Rightarrow> core_error + string" where
  "sign env pem alg key_id c p =
    (if oa_unix env (process.more p) < 0
     then Inl (EConfig (''the system clock is before the epoch: second time provided was later than self''))
     else
       (let segment = (\<lambda>j. base64url_encode (bytes_of (jl_show (oa_json env) j)));
            signing_input = segment (jwt_header alg key_id) @ ''.''
              @ segment (jwt_payload (nat (oa_unix env (process.more p))) c) in
        case raw_sign env pem alg (bytes_of signing_input) p of
          Inl e \<Rightarrow> Inl e
        | Inr sig \<Rightarrow> Inr (signing_input @ ''.'' @ base64url_encode sig)))"

section \<open>The store keeps what it is given\<close>

lemma percent_encode_inj: "percent_encode a = percent_encode b \<Longrightarrow> a = b"
  by (metis percent_decoded_encode)

lemma path_join_inj: "path_join d a = path_join d b \<longleftrightarrow> a = b"
  by (simp add: path_join_def)

lemma path_for_inj: "path_for env a = Some x \<Longrightarrow> path_for env b = Some x \<Longrightarrow> a = b"
  by (auto simp: path_for_def path_join_inj dest!: percent_encode_inj)

lemma tmp_is_no_path:
  assumes "path_for env a = Some x"
  shows "path_for env b \<noteq> Some (tmp_for a x)"
proof
  assume *: "path_for env b = Some (tmp_for a x)"
  have "last y = CHR ''n''" if "path_for env b = Some y" for y
    using that by (auto simp: path_for_def path_join_def split: if_splits)
  with * have "last (tmp_for a x) = CHR ''n''"
    by blast
  then show False
    by (simp add: tmp_for_def split: if_splits)
qed

lemma tmp_differs [simp]: "tmp_for swap path \<noteq> path" "path \<noteq> tmp_for swap path"
  by (simp_all add: tmp_for_def)

lemma create_private_dir_frame:
  "create_private_dir env d p = (e, p') \<Longrightarrow> pr_files p' = pr_files p \<and> pr_grants p' = pr_grants p \<and>
     pr_access p' = pr_access p \<and> pr_redactor p' = pr_redactor p \<and> process.more p' = process.more p"
  by (auto simp: create_private_dir_def Let_def split: option.splits if_splits)

lemma write_private_frame:
  "write_private env path bytes p = (e, p') \<Longrightarrow> (\<forall>x. x \<noteq> path \<longrightarrow> pr_files p' x = pr_files p x) \<and>
     (e = None \<longrightarrow> pr_files p' path = Some bytes) \<and> pr_grants p' = pr_grants p \<and> pr_access p' = pr_access p \<and>
     pr_redactor p' = pr_redactor p \<and> process.more p' = process.more p"
  by (auto simp: write_private_def Let_def split: option.splits)

text \<open>
  C15 (invariant). A grant on disk is replaced as a whole or not at all: wherever saving it stops, at the
  directory, in the middle of the write, before the sync or before the rename, the file of the swap has
  its old contents and the store still holds the old grant; when it succeeds the file holds exactly the
  new one and so does the store. The files of other swaps are never touched.
\<close>

theorem put_grant_is_atomic:
  assumes "put_grant env swap g p = (e, p')" and "path_for env swap = Some path"
  shows "(if e = None
      then pr_files p' path = Some (oa_pretty env (grant_to_json g)) \<and> pr_grants p' = (pr_grants p)(swap \<mapsto> g)
      else pr_files p' path = pr_files p path \<and> pr_grants p' = pr_grants p) \<and>
    (\<forall>other dest. other \<noteq> swap \<and> path_for env other = Some dest \<longrightarrow> pr_files p' dest = pr_files p dest)"
proof -
  from assms(2) obtain d where d: "store_dir env = Some d"
    by (auto simp: path_for_def)
  obtain e1 p1 where one: "create_private_dir env d p = (e1, p1)"
    by fastforce
  let ?tmp = "tmp_for swap path"
  obtain e2 p2 where two: "write_private env ?tmp (oa_pretty env (grant_to_json g)) p1 = (e2, p2)"
    by fastforce
  have apart: "dest \<noteq> ?tmp \<and> dest \<noteq> path" if "other \<noteq> swap" "path_for env other = Some dest" for other dest
    using that tmp_is_no_path [OF assms(2)] path_for_inj assms(2) by metis
  show ?thesis
  proof (cases e1)
    case (Some x)
    with assms d one create_private_dir_frame [OF one] show ?thesis
      by (auto simp: put_grant_def)
  next
    case None
    show ?thesis
    proof (cases e2)
      case (Some x)
      with assms d one None two create_private_dir_frame [OF one] write_private_frame [OF two] apart show ?thesis
        by (auto simp: put_grant_def Let_def)
    next
      case two_ok: None
      with assms d one None two create_private_dir_frame [OF one] write_private_frame [OF two] apart show ?thesis
        by (auto simp: put_grant_def Let_def split: option.splits)
    qed
  qed
qed

text \<open>The process ends and starts again: what was in memory is gone.\<close>

definition restarted :: "'a process_scheme \<Rightarrow> 'a process_scheme" where
  "restarted p = p\<lparr>pr_access := Map.empty, pr_grants := Map.empty\<rparr>"

definition grant_ok :: "stored_grant \<Rightarrow> bool" where
  "grant_ok g \<longleftrightarrow> sg_refresh_token g \<noteq> [] \<and> - (2 ^ 63) \<le> sg_obtained_at g \<and> sg_obtained_at g < 2 ^ 63"

lemma grant_json_roundtrip:
  assumes "grant_ok g"
  shows "grant_from_json (grant_to_json g) path = Inr g"
proof -
  have "as_i64 (jint (sg_obtained_at g)) = Some (sg_obtained_at g)"
    using assms by (auto simp: grant_ok_def jint_def)
  then show ?thesis
    using assms by (cases g) (auto simp: grant_from_json_def grant_to_json_def nonempty_str_def jget_jobj grant_ok_def
        split: option.splits)
qed

text \<open>
  An enrolment survives a restart: once a grant was saved, a process that starts
  anew on the same disk reads back exactly that grant, its refresh token, time and scope, as soon as the
  file can be read. This needs of the JSON library that it reads what it wrote.
\<close>

lemma saved_grant_survives_restart:
  assumes "put_grant env swap g p = (None, p')" and "grant_ok g"
    and "jl_parse (oa_json env) (oa_pretty env (grant_to_json g)) = Some (grant_to_json g)"
    and "from_utf8 (oa_pretty env (grant_to_json g)) \<noteq> None"
    and "\<And>path. fault env (ReadFile path) p' = None"
  shows "fst (grant env swap (restarted p')) = Inr (Some g)"
proof -
  obtain path where path: "path_for env swap = Some path"
    using assms(1) by (auto simp: put_grant_def split: option.splits)
  then obtain d where d: "store_dir env = Some d"
    by (auto simp: path_for_def)
  obtain e1 p1 where one: "create_private_dir env d p = (e1, p1)"
    by fastforce
  obtain e2 p2 where two: "write_private env (tmp_for swap path) (oa_pretty env (grant_to_json g)) p1 = (e2, p2)"
    by fastforce
  have "pr_files p' path = Some (oa_pretty env (grant_to_json g))"
    using assms(1) path d one two write_private_frame [OF two]
    by (auto simp: put_grant_def Let_def split: option.splits)
  moreover have "fault env (ReadFile path) (restarted p') = None"
    using assms(5) by (simp add: fault_def restarted_def)
  moreover obtain t where "from_utf8 (oa_pretty env (grant_to_json g)) = Some t"
    using assms(4) by blast
  ultimately show ?thesis
    using path grant_json_roundtrip [OF assms(2)] assms(3)
    by (simp add: grant_def restarted_def)
qed

lemma dot_is_not_url_safe: "\<not> url_safe_char (CHR ''.'')"
  by code_simp

text \<open>
  What is signed is what is said: the payload of a signed assertion reads back, by the very function that
  reads the claims of an ID token, as the claims that were put in.
\<close>

lemma signed_claims_roundtrip:
  assumes "sign env pem alg key_id c p = Inr jwt"
    and "\<And>j. jl_parse (oa_json env) (bytes_of (jl_show (oa_json env) j)) = Some j"
  shows "decode_id_token_claims debug (oa_json env) jwt =
    Inr (jwt_payload (nat (oa_unix env (process.more p))) c)"
proof -
  have no_dot: "CHR ''.'' \<notin> set (base64url_encode bs)" for bs
    using base64url_chars [of bs] dot_is_not_url_safe by blast
  have decoded: "base64url_decode (base64url_encode bs) = Inr bs" for bs
    by (simp add: base64url_decode_def base64url_encode_def decode_loop_encode)
  let ?payload = "base64url_encode (bytes_of (jl_show (oa_json env) (jwt_payload (nat (oa_unix env (process.more p))) c)))"
  obtain sig where jwt: "jwt = (base64url_encode (bytes_of (jl_show (oa_json env) (jwt_header alg key_id))) @ ''.''
      @ ?payload) @ ''.'' @ base64url_encode sig"
    using assms(1) by (auto simp: sign_def Let_def split: if_splits sum.splits)
  have "split_on (CHR ''.'') jwt =
      [base64url_encode (bytes_of (jl_show (oa_json env) (jwt_header alg key_id))), ?payload, base64url_encode sig]"
    unfolding jwt by (simp add: split_on_append_sep split_on_single no_dot)
  then show ?thesis
    using assms(2) by (simp add: decode_id_token_claims_def decoded)
qed

text \<open>An assertion is valid for the lifetime configured, from the moment it was made.\<close>

lemma assertion_lifetime:
  assumes "now + cl_lifetime_secs c < 2 ^ 64" and "map_of (rev (cl_extra c)) ''exp'' = None"
  shows "Option.bind (jget (jwt_payload now c) ''exp'') as_u64 = Some (now + cl_lifetime_secs c)"
  using assms
  by (auto simp: jwt_payload_def jget_jobj opt_entry_def jint_def map_add_def split: option.splits)

text \<open>
  The name of a swap is said to be safe in a path because dots are encoded. They are not; what makes it
  safe is the suffix and that no name holds a slash once encoded.
\<close>

lemma dots_are_not_encoded: "percent_encode (bytes_of ''..'') = ''..''"
  by code_simp

lemma encoded_name_has_no_slash: "CHR ''/'' \<notin> set (percent_encode (bytes_of swap))"
proof -
  have "CHR ''/'' \<notin> set (percent_byte b)" for b
  proof (cases "unreserved b")
    case True
    have "\<not> unreserved 0x2F"
      by (simp add: unreserved_def)
    with True have "char_of (unat b) \<noteq> CHR ''/''"
      by (auto simp: char_of_unat_eq)
    with True show ?thesis
      by (simp add: percent_byte_def)
  next
    case False
    have "hex_upper x \<noteq> CHR ''/''" if "x < 16" for x :: byte
    proof
      assume "hex_upper x = CHR ''/''"
      with hex_upper_props(1) [OF that] have "digit_val 16 (CHR ''/'') = Some (unat x)"
        by simp
      moreover have "digit_val 16 (CHR ''/'') = None"
        by code_simp
      ultimately show False
        by simp
    qed
    from this [OF nibble_bounds(1), of b] this [OF nibble_bounds(2), of b] show ?thesis
      using False by (simp add: percent_byte_def eq_commute [of "CHR ''/''"])
  qed
  then show ?thesis
    by (auto simp: percent_encode_def)
qed

section \<open>How long a token is used\<close>

text \<open>
  A token is handed out only within the lifetime the provider stated for it, and not in the last part
  of it that is set aside; one without a stated lifetime never a second time.
\<close>

lemma cached_token_is_fresh:
  assumes "with_id_token now v expires_in skew idt = Inr t" and "is_live later t"
  shows "\<exists>ttl. expires_in = Some ttl \<and> later + min skew ttl < now + ttl"
  using assms by (auto simp: with_id_token_def is_live_def split: option.splits if_splits)

lemma put_access_live:
  "cached_access env swap (put_access env swap t p) =
    (if is_live (instant env p) t then Some t else cached_access env swap p)"
  by (auto simp: put_access_def cached_access_def instant_def)

lemma huge_lifetime_is_a_panic:
  "with_id_token now v (Some (seconds (2 ^ 63))) 0 idt = Inl (EOther ''overflow when adding duration to instant'')"
  by (simp add: with_id_token_def instant_end_def)

section \<open>The store at work\<close>

definition sample_http :: "(unit, unit, nat) http_env" where
  "sample_http =
     \<lparr>ne_lookup = (\<lambda>_ _ w. (Inl ''offline'', w)), ne_connect = (\<lambda>_ w. (Inl ''offline'', w)),
      he_server_name_ok = (\<lambda>_. True), he_plain = id, he_tls = (\<lambda>_ _ w. (Inl ''offline'', w)),
      he_exchange = (\<lambda>_ _ w. (Inl ''offline'', w)), he_uri_ok = (\<lambda>_. True), he_build_error = (\<lambda>_. [])\<rparr>"

definition sample_grant :: stored_grant where
  "sample_grant = \<lparr>sg_refresh_token = ''rt-1'', sg_obtained_at = 7, sg_scope = None\<rparr>"

text \<open>In the world 1 every write stops after one byte; no other world ever fails.\<close>

definition sample_oauth_env :: "(unit, unit, nat, unit) oauth_env" where
  "sample_oauth_env =
     \<lparr>oa_http = sample_http,
      oa_json = \<lparr>jl_parse = (\<lambda>_. Some (grant_to_json sample_grant)), jl_error = (\<lambda>_. []), jl_show = (\<lambda>_. ''{}'')\<rparr>,
      oa_pretty = (\<lambda>_. bytes_of ''{}''), oa_guard = None, oa_late = (\<lambda>_ _. None),
      oa_instant = (\<lambda>w. w), oa_unix = int, oa_entropy = (\<lambda>n w. (Inr (replicate n 0), w)),
      oa_fault = (\<lambda>st w. case st of WriteFile _ \<Rightarrow> if w = 1 then Some ''no space left on device'' else None | _ \<Rightarrow> None),
      oa_torn = (\<lambda>w. w), oa_pem = (\<lambda>_. Inl NoItemsFound), oa_rsa = (\<lambda>_ _. None),
      oa_rsa_sign = (\<lambda>_ _ _. None), oa_ecdsa = (\<lambda>_. False), oa_ecdsa_sign = (\<lambda>_ _ _. None),
      oa_sha256 = (\<lambda>_. []), oa_status = show_nat, oa_duration = show_nat, oa_debug = (\<lambda>c. [c]),
      oa_dir = Some ''/var/lib/marshal''\<rparr>"

definition sample_process :: "nat \<Rightarrow> nat process_scheme" where
  "sample_process w =
     \<lparr>pr_access = Map.empty, pr_grants = Map.empty, pr_files = Map.empty, pr_dirs = Map.empty,
      pr_redactor = redactor_new [], \<dots> = w\<rparr>"

lemma sample_save:
  "fst (put_grant sample_oauth_env ''api'' sample_grant (sample_process w)) =
     (if w = 1
      then Some (EConfig (tmp_for ''api'' (the (path_for sample_oauth_env ''api'')) @ '': no space left on device''))
      else None)"
  by (simp add: put_grant_def path_for_def store_dir_def create_private_dir_def write_private_def fault_def
      sample_oauth_env_def sample_process_def Let_def)

theorem put_grant_is_atomic_witness:
  "\<exists>p' path. fst (put_grant sample_oauth_env ''api'' sample_grant (sample_process 1)) \<noteq> None \<and>
     put_grant sample_oauth_env ''api'' sample_grant (sample_process 1) =
       (fst (put_grant sample_oauth_env ''api'' sample_grant (sample_process 1)), p') \<and>
     path_for sample_oauth_env ''api'' = Some path \<and> pr_files p' path = None"
proof -
  let ?run = "put_grant sample_oauth_env ''api'' sample_grant (sample_process 1)"
  obtain path where path: "path_for sample_oauth_env ''api'' = Some path"
    by (auto simp: path_for_def store_dir_def sample_oauth_env_def)
  have failed: "fst ?run \<noteq> None"
    by (simp add: sample_save)
  have "pr_files (snd ?run) path = pr_files (sample_process 1) path"
    using put_grant_is_atomic [OF prod.collapse [symmetric, of ?run] path] unfolding if_not_P [OF failed] by blast
  then have "pr_files (snd ?run) path = None"
    by (simp add: sample_process_def)
  with failed path show ?thesis
    by (metis prod.collapse)
qed

end
