(* ===== verification/OauthSource.thy ===== *)
theory OauthSource
  imports Oauth Providers
begin

text \<open>
  OAuth2 as a secret source (\<open>crates/marshal-secrets/src/oauth/source.rs\<close> and \<open>claim.rs\<close>): what is
  presented to the token endpoint, what is learned, kept and handed out of its answers, the
  enrolment flows, and the sources that read a claim of another source's ID token. The sources inside a
  configuration are functions on the whole process. The network is the world that extends \<open>process\<close>; a
  call that takes too long is decided by \<open>oa_late\<close>. The lock around minting is the argument
  \<open>meanwhile\<close>: what the other requests do until it is obtained.
\<close>

section \<open>Steps that can fail\<close>

text \<open>The question mark operator on functions that also change the process.\<close>

definition and_then ::
  "('e + 'b) \<times> 's \<Rightarrow> ('b \<Rightarrow> 's \<Rightarrow> ('e + 'c) \<times> 's) \<Rightarrow> ('e + 'c) \<times> 's" where
  "and_then r f = (case r of (Inl e, s) \<Rightarrow> (Inl e, s) | (Inr x, s) \<Rightarrow> f x s)"

lemma and_then_Inr: "and_then r f = (Inr y, s') \<longleftrightarrow> (\<exists>x s. r = (Inr x, s) \<and> f x s = (Inr y, s'))"
  by (auto simp: and_then_def split: prod.splits sum.splits)

lemma and_then_Inl:
  "and_then r f = (Inl e, s') \<longleftrightarrow> r = (Inl e, s') \<or> (\<exists>x s. r = (Inr x, s) \<and> f x s = (Inl e, s'))"
  by (auto simp: and_then_def split: prod.splits sum.splits)

lemma and_then_simps [simp]:
  "and_then (Inl e, s) f = (Inl e, s)" "and_then (Inr x, s) f = f x s"
  by (simp_all add: and_then_def)

lemma and_then_cong [fundef_cong]:
  assumes "r = r'" and "\<And>x s. r' = (Inr x, s) \<Longrightarrow> f x s = g x s"
  shows "and_then r f = and_then r' g"
  using assms by (auto simp: and_then_def split: prod.splits sum.splits)

fun show_http_error :: "http_error \<Rightarrow> string" where
  "show_http_error (HResolve e) = ''resolving '' @ e"
| "show_http_error (HConnect e) = ''connecting: '' @ e"
| "show_http_error (HTls e) = ''tls handshake: '' @ e"
| "show_http_error (HHttp e) = ''http error: '' @ e"
| "show_http_error (HStatus status body) = ''returned '' @ show_nat status @ '': '' @ body"
| "show_http_error (HResponseTooLarge limit) =
     ''the response exceeded '' @ show_nat limit @ '' bytes without completing''"
| "show_http_error (HMalformedJson e) = ''malformed json in the response: '' @ e"
| "show_http_error (HInvalidUrl e) = ''invalid url: '' @ e"
| "show_http_error (HBlocked e) = show_guard_error e"

section \<open>Configuration\<close>

record 'p assertion_key =
  ak_source :: "'p secret_source"
  ak_algorithm :: algorithm
  ak_key_id :: "string option"
  ak_lifetime :: nat

datatype 'p client_auth_kind =
    NoClientAuth
  | ClientSecretBasic "'p secret_source"
  | ClientSecretPost "'p secret_source"
  | PrivateKeyJwt "'p assertion_key"

datatype 'p grant_kind =
    ClientCredentials
  | RefreshToken "'p secret_source"
  | Enrolled
  | JwtBearer "'p assertion_key" string string string

datatype exchange_subject = IdToken | AccessToken

definition token_type_uri :: "exchange_subject \<Rightarrow> string" where
  "token_type_uri s =
    (case s of
       IdToken \<Rightarrow> ''urn:ietf:params:oauth:token-type:id_token''
     | AccessToken \<Rightarrow> ''urn:ietf:params:oauth:token-type:access_token'')"

record token_exchange =
  tx_subject :: exchange_subject
  tx_extra_params :: "(string \<times> string) list"

record 'p oauth2_config =
  oc_token_endpoint :: string
  oc_client_id :: string
  oc_client_auth :: "'p client_auth_kind"
  oc_grant :: "'p grant_kind"
  oc_scope :: "string list"
  oc_audience :: "string option"
  oc_extra_params :: "(string \<times> string) list"
  oc_expiry_skew :: nat
  oc_timeout :: nat
  oc_authorization_endpoint :: "string option"
  oc_redirect_uri :: "string option"
  oc_device_authorization_endpoint :: "string option"
  oc_token_exchange :: "token_exchange option"

record 'p oauth2_source =
  os_name :: string
  os_cfg :: "'p oauth2_config"
  os_endpoint :: endpoint
  os_path :: string

definition oauth2_source_new :: "string \<Rightarrow> 'p oauth2_config \<Rightarrow> core_error + 'p oauth2_source" where
  "oauth2_source_new name cfg =
    (case endpoint_parse_with_path (oc_token_endpoint cfg) of
       Inl e \<Rightarrow> Inl (EConfig (''token_endpoint: '' @ show_http_error e))
     | Inr (e, path) \<Rightarrow> Inr \<lparr>os_name = name, os_cfg = cfg, os_endpoint = e, os_path = path\<rparr>)"

section \<open>What is presented\<close>

definition learn :: "string \<Rightarrow> string \<Rightarrow> 'a process_scheme \<Rightarrow> 'a process_scheme" where
  "learn label v p = p\<lparr>pr_redactor := redactor_learn label v (pr_redactor p)\<rparr>"

definition present ::
  "'a process_scheme oauth2_source \<Rightarrow> 'a process_scheme secret_source \<Rightarrow> string \<Rightarrow> 'a process_scheme
     \<Rightarrow> (core_error + string) \<times> 'a process_scheme" where
  "present s source purpose p =
     and_then (ss_resolve source p) (\<lambda>v p. (Inr v, learn (os_name s @ ''.'' @ purpose) v p))"

definition refresh_token ::
  "('sock, 'conn, 'a, 'net) oauth_env \<Rightarrow> 'a process_scheme oauth2_source \<Rightarrow> 'a process_scheme
     \<Rightarrow> (core_error + (string \<times> bool \<times> string option) option) \<times> 'a process_scheme" where
  "refresh_token env s p =
    (case oc_grant (os_cfg s) of
       RefreshToken source \<Rightarrow>
         and_then (present s source ''refresh_token'' p) (\<lambda>v p. (Inr (Some (v, False, None)), p))
     | Enrolled \<Rightarrow>
         and_then (grant env (os_name s) p) (\<lambda>g p.
           case g of
             Some g \<Rightarrow>
               (Inr (Some (sg_refresh_token g, True, sg_scope g)),
                learn (os_name s @ ''.refresh_token'') (sg_refresh_token g) p)
           | None \<Rightarrow>
               (Inl (EConfig (''the `'' @ os_name s @ ''` credential has not been enrolled: run `marshal secrets oauth ''
                 @ ''login '' @ os_name s @ ''` to authorise it once, then this swap works unattended'')), p))
     | _ \<Rightarrow> (Inr None, p))"

definition assertion ::
  "('sock, 'conn, 'a, 'net) oauth_env \<Rightarrow> 'a process_scheme oauth2_source \<Rightarrow> 'a process_scheme assertion_key
     \<Rightarrow> string \<Rightarrow> string \<Rightarrow> string \<Rightarrow> bool \<Rightarrow> string option \<Rightarrow> 'a process_scheme
     \<Rightarrow> (core_error + string) \<times> 'a process_scheme" where
  "assertion env s key issuer subject audience with_jti scope p =
     and_then (present s (ak_source key) ''private_key'' p) (\<lambda>pem p.
     and_then (if with_jti then and_then (random_urlsafe env 16 p) (\<lambda>v p. (Inr (Some v), p)) else (Inr None, p)) (\<lambda>jti p.
       (sign env pem (ak_algorithm key) (ak_key_id key)
          \<lparr>cl_issuer = issuer, cl_subject = subject, cl_audience = audience, cl_scope = scope, cl_jti = jti,
           cl_lifetime_secs = ak_lifetime key div 10 ^ 9, cl_extra = []\<rparr> p, p)))"

definition client_auth ::
  "('sock, 'conn, 'a, 'net) oauth_env \<Rightarrow> 'a process_scheme oauth2_source \<Rightarrow> 'a process_scheme
     \<Rightarrow> (core_error + (string \<times> string) list \<times> (string \<times> string) list) \<times> 'a process_scheme" where
  "client_auth env s p =
    (let cfg = os_cfg s; id_param = (''client_id'', oc_client_id cfg) in
     case oc_client_auth cfg of
       NoClientAuth \<Rightarrow> (Inr ([id_param], []), p)
     | ClientSecretPost secret \<Rightarrow>
         and_then (present s secret ''client_secret'' p) (\<lambda>v p.
           (Inr ([id_param, (''client_secret'', v)], []), p))
     | PrivateKeyJwt key \<Rightarrow>
         and_then (assertion env s key (oc_client_id cfg) (oc_client_id cfg) (oc_token_endpoint cfg) True None p)
           (\<lambda>v p.
             (Inr ([id_param,
                    (''client_assertion_type'', ''urn:ietf:params:oauth:client-assertion-type:jwt-bearer''),
                    (''client_assertion'', v)], []), p))
     | ClientSecretBasic secret \<Rightarrow>
         and_then (present s secret ''client_secret'' p) (\<lambda>v p.
           (Inr ([], [(''authorization'', ''Basic '' @ base64_encode (bytes_of
              (percent_encode (bytes_of (oc_client_id cfg)) @ '':'' @ percent_encode (bytes_of v))))]), p)))"

definition opt_param :: "string \<Rightarrow> string option \<Rightarrow> (string \<times> string) list" where
  "opt_param k v = (case v of Some x \<Rightarrow> [(k, x)] | None \<Rightarrow> [])"

definition scope_words :: "'p oauth2_config \<Rightarrow> string option" where
  "scope_words cfg = (if oc_scope cfg = [] then None else Some (join '' '' (oc_scope cfg)))"

definition grant_params ::
  "('sock, 'conn, 'a, 'net) oauth_env \<Rightarrow> 'a process_scheme oauth2_source \<Rightarrow> 'a process_scheme
     \<Rightarrow> (core_error + (string \<times> string) list) \<times> 'a process_scheme" where
  "grant_params env s p =
    (let cfg = os_cfg s in
     case oc_grant cfg of
       JwtBearer key issuer subject audience \<Rightarrow>
         and_then (assertion env s key issuer subject audience False (scope_words cfg) p) (\<lambda>v p.
           (Inr ([(''grant_type'', ''urn:ietf:params:oauth:grant-type:jwt-bearer''), (''assertion'', v)]
                 @ opt_param ''scope'' (scope_words cfg)), p))
     | _ \<Rightarrow>
         and_then (refresh_token env s p) (\<lambda>rt p.
           let (params, enrolled_scope) =
                 (case rt of
                    None \<Rightarrow> ([(''grant_type'', ''client_credentials'')], None)
                  | Some (token, _, scope) \<Rightarrow>
                      ([(''grant_type'', ''refresh_token''), (''refresh_token'', token)], scope))
           in (Inr (params
                 @ opt_param ''scope'' (case scope_words cfg of Some w \<Rightarrow> Some w | None \<Rightarrow> enrolled_scope)
                 @ opt_param ''audience'' (oc_audience cfg)), p)))"

definition form_body ::
  "'p oauth2_source \<Rightarrow> (string \<times> string) list \<Rightarrow> (string \<times> string) list \<Rightarrow> string" where
  "form_body s params auth_params = form_urlencode (params @ auth_params @ oc_extra_params (os_cfg s))"

section \<open>Calls to the provider\<close>

definition bounded ::
  "('sock, 'conn, 'a, 'net) oauth_env \<Rightarrow> 'a process_scheme oauth2_source \<Rightarrow> string \<Rightarrow> string
     \<Rightarrow> ('a process_scheme \<Rightarrow> (core_error + 'r) \<times> 'a process_scheme) \<Rightarrow> 'a process_scheme
     \<Rightarrow> (core_error + 'r) \<times> 'a process_scheme" where
  "bounded env s what url call p =
    (case oa_late env url (process.more p) of
       Some a \<Rightarrow>
         (Inl (EConfig (what @ '' the `'' @ os_name s @ ''` credential: '' @ url @ '' did not respond within ''
            @ oa_duration env (oc_timeout (os_cfg s)))), process.more_update (\<lambda>_. a) p)
     | None \<Rightarrow> call p)"

text \<open>\<open>post_form\<close> on the world; its panic, which the guard never reaches, is an error here.\<close>

definition call_form ::
  "('sock, 'conn, 'a, 'net) oauth_env \<Rightarrow> endpoint \<Rightarrow> string \<Rightarrow> (string \<times> string) list \<Rightarrow> string
     \<Rightarrow> (http_error \<Rightarrow> core_error) \<Rightarrow> 'a process_scheme
     \<Rightarrow> (core_error + nat \<times> json) \<times> 'a process_scheme" where
  "call_form env e path headers form wrap p =
    (case post_form (oa_http env) (oa_json env) e (oa_guard env) path headers form (process.more p) of
       (r, a) \<Rightarrow>
         ((case r of None \<Rightarrow> Inl (EOther ''every address passed the guard'') | Some r \<Rightarrow> map_sum wrap id r),
          process.more_update (\<lambda>_. a) p))"

definition learn_response :: "'p oauth2_source \<Rightarrow> token_response \<Rightarrow> redactor \<Rightarrow> redactor" where
  "learn_response s r rd =
    (let rd1 = redactor_learn (os_name s) (tk_access_token r) rd;
         rd2 = (case tk_refresh_token r of Some rt \<Rightarrow> redactor_learn (os_name s) rt rd1 | None \<Rightarrow> rd1) in
     case tk_id_token r of Some idt \<Rightarrow> redactor_learn (os_name s @ ''.id_token'') idt rd2 | None \<Rightarrow> rd2)"

definition post_token ::
  "('sock, 'conn, 'a, 'net) oauth_env \<Rightarrow> 'a process_scheme oauth2_source \<Rightarrow> string
     \<Rightarrow> (string \<times> string) list \<Rightarrow> 'a process_scheme
     \<Rightarrow> (core_error + token_response) \<times> 'a process_scheme" where
  "post_token env s what params p =
    (let url = oc_token_endpoint (os_cfg s);
         failed = (\<lambda>detail. EConfig (what @ '' the `'' @ os_name s @ ''` credential at '' @ url @ '': '' @ detail)) in
     and_then (client_auth env s p) (\<lambda>(auth_params, headers) p.
     and_then (bounded env s what url
        (call_form env (os_endpoint s) (os_path s) headers (form_body s params auth_params)
           (\<lambda>e. failed (show_http_error e))) p) (\<lambda>(status, body) p.
       if \<not> is_success status then (Inl (failed (describe_error (oa_status env) status body)), p)
       else
         (case token_parse body of
            Inl e \<Rightarrow> (Inl e, p)
          | Inr response \<Rightarrow> (Inr response, p\<lparr>pr_redactor := learn_response s response (pr_redactor p)\<rparr>)))))"

definition exchange_token ::
  "('sock, 'conn, 'a, 'net) oauth_env \<Rightarrow> 'a process_scheme oauth2_source \<Rightarrow> token_response \<Rightarrow> string option
     \<Rightarrow> token_exchange \<Rightarrow> 'a process_scheme \<Rightarrow> (core_error + token_response) \<times> 'a process_scheme" where
  "exchange_token env s response id_token tx p =
    (case (case tx_subject tx of IdToken \<Rightarrow> id_token | AccessToken \<Rightarrow> Some (tk_access_token response)) of
       None \<Rightarrow>
         (Inl (EConfig (''`'' @ os_name s @ ''` is configured with `token_exchange: { subject: id_token }`, but ''
            @ ''the grant response carried no `id_token` to exchange'')), p)
     | Some subject_token \<Rightarrow>
         post_token env s
           (case tx_subject tx of
              IdToken \<Rightarrow> ''exchanging the id token for'' | AccessToken \<Rightarrow> ''exchanging the access token for'')
           ([(''grant_type'', ''urn:ietf:params:oauth:grant-type:token-exchange''),
             (''subject_token'', subject_token),
             (''subject_token_type'', token_type_uri (tx_subject tx))] @ tx_extra_params tx) p)"

definition cache_token ::
  "('sock, 'conn, 'a, 'net) oauth_env \<Rightarrow> 'a process_scheme oauth2_source \<Rightarrow> token_response \<Rightarrow> 'a process_scheme
     \<Rightarrow> (core_error + unit) \<times> 'a process_scheme" where
  "cache_token env s r p =
    (case with_id_token (instant env p) (tk_access_token r) (tk_expires_in r) (oc_expiry_skew (os_cfg s))
            (tk_id_token r) of
       Inl e \<Rightarrow> (Inl e, p)
     | Inr t \<Rightarrow> (Inr (), put_access env (os_name s) t p))"

definition save_grant ::
  "('sock, 'conn, 'a, 'net) oauth_env \<Rightarrow> string \<Rightarrow> stored_grant \<Rightarrow> 'a process_scheme
     \<Rightarrow> (core_error + unit) \<times> 'a process_scheme" where
  "save_grant env swap g p =
    (case put_grant env swap g p of (None, p') \<Rightarrow> (Inr (), p') | (Some e, p') \<Rightarrow> (Inl e, p'))"

definition persist_rotation ::
  "('sock, 'conn, 'a, 'net) oauth_env \<Rightarrow> 'a process_scheme oauth2_source \<Rightarrow> token_response \<Rightarrow> 'a process_scheme
     \<Rightarrow> (core_error + unit) \<times> 'a process_scheme" where
  "persist_rotation env s r p =
    (case tk_refresh_token r of
       None \<Rightarrow> (Inr (), p)
     | Some new_rt \<Rightarrow>
         (case oc_grant (os_cfg s) of
            Enrolled \<Rightarrow>
              save_grant env (os_name s)
                \<lparr>sg_refresh_token = new_rt, sg_obtained_at = now_unix env p, sg_scope = tk_scope r\<rparr> p
          | _ \<Rightarrow> (Inr (), p)))"

definition mint ::
  "('sock, 'conn, 'a, 'net) oauth_env \<Rightarrow> 'a process_scheme oauth2_source \<Rightarrow> 'a process_scheme
     \<Rightarrow> (core_error + string) \<times> 'a process_scheme" where
  "mint env s p =
     and_then (grant_params env s p) (\<lambda>params p.
     and_then (post_token env s ''requesting'' params p) (\<lambda>response p.
     and_then (persist_rotation env s response p) (\<lambda>_ p.
     and_then (case oc_token_exchange (os_cfg s) of
         None \<Rightarrow> (Inr response, p)
       | Some tx \<Rightarrow>
           and_then (exchange_token env s (response\<lparr>tk_id_token := None\<rparr>) (tk_id_token response) tx p)
             (\<lambda>exchanged p. (Inr (exchanged\<lparr>tk_id_token := tk_id_token response\<rparr>), p))) (\<lambda>response p.
     and_then (cache_token env s response p) (\<lambda>_ p. (Inr (tk_access_token response), p))))))"

section \<open>The secret source\<close>

definition oauth_cached ::
  "('sock, 'conn, 'a, 'net) oauth_env \<Rightarrow> 'p oauth2_source \<Rightarrow> 'a process_scheme \<Rightarrow> string option" where
  "oauth_cached env s p = map_option ct_value (cached_access env (os_name s) p)"

definition oauth_preload ::
  "('sock, 'conn, 'a, 'net) oauth_env \<Rightarrow> 'p oauth2_source \<Rightarrow> 'a process_scheme
     \<Rightarrow> (core_error + string option) \<times> 'a process_scheme" where
  "oauth_preload env s p = (Inr (oauth_cached env s p), p)"

definition oauth_resolve ::
  "('sock, 'conn, 'a, 'net) oauth_env \<Rightarrow> ('a process_scheme \<Rightarrow> 'a process_scheme)
     \<Rightarrow> 'a process_scheme oauth2_source \<Rightarrow> 'a process_scheme \<Rightarrow> (core_error + string) \<times> 'a process_scheme" where
  "oauth_resolve env meanwhile s p =
    (case cached_access env (os_name s) p of
       Some token \<Rightarrow> (Inr (ct_value token), p)
     | None \<Rightarrow>
         (let p = meanwhile p in
          case cached_access env (os_name s) p of
            Some token \<Rightarrow> (Inr (ct_value token), p)
          | None \<Rightarrow> mint env s p))"

definition oauth_secret ::
  "('sock, 'conn, 'a, 'net) oauth_env \<Rightarrow> ('a process_scheme \<Rightarrow> 'a process_scheme)
     \<Rightarrow> 'a process_scheme oauth2_source \<Rightarrow> 'a process_scheme secret_source" where
  "oauth_secret env meanwhile s =
     \<lparr>ss_name = os_name s, ss_resolve = oauth_resolve env meanwhile s, ss_preload = oauth_preload env s\<rparr>"

definition cached_id_token_claim ::
  "('sock, 'conn, 'a, 'net) oauth_env \<Rightarrow> 'p oauth2_source \<Rightarrow> 'a process_scheme \<Rightarrow> core_error + json option" where
  "cached_id_token_claim env s p =
    (case Option.bind (cached_access env (os_name s) p) ct_id_token of
       None \<Rightarrow> Inr None
     | Some jwt \<Rightarrow> map_sum id Some (decode_id_token_claims (oa_debug env) (oa_json env) jwt))"

definition id_token_claim ::
  "('sock, 'conn, 'a, 'net) oauth_env \<Rightarrow> ('a process_scheme \<Rightarrow> 'a process_scheme)
     \<Rightarrow> 'a process_scheme oauth2_source \<Rightarrow> 'a process_scheme
     \<Rightarrow> (core_error + json option) \<times> 'a process_scheme" where
  "id_token_claim env meanwhile s p =
     and_then (oauth_resolve env meanwhile s p) (\<lambda>_ p. (cached_id_token_claim env s p, p))"

section \<open>A claim of another source's ID token\<close>

record 'p claim_source =
  cs_name :: string
  cs_of :: "'p oauth2_source"
  cs_claim_path :: "string list"

fun walk :: "json \<Rightarrow> string \<Rightarrow> string list \<Rightarrow> string list \<Rightarrow> core_error + json" where
  "walk v name walked [] = Inr v"
| "walk v name walked (key # path) =
    (case jget v key of
       None \<Rightarrow>
         Inl (EConfig (''`'' @ name @ ''`'s ID token has no claim at `'' @ join ''.'' (walked @ [key]) @ ''`''))
     | Some w \<Rightarrow> walk w name (walked @ [key]) path)"

definition claim_extract ::
  "'p claim_source \<Rightarrow> json \<Rightarrow> 'a process_scheme \<Rightarrow> (core_error + string) \<times> 'a process_scheme" where
  "claim_extract c claims p =
    (case walk claims (os_name (cs_of c)) [] (cs_claim_path c) of
       Inl e \<Rightarrow> (Inl (EConfig (''`'' @ cs_name c @ ''`: '' @ show_error e)), p)
     | Inr (JStr found) \<Rightarrow> (Inr found, learn (cs_name c) found p)
     | Inr _ \<Rightarrow>
         (Inl (EConfig (''`'' @ cs_name c @ ''`: the claim at `'' @ join ''.'' (cs_claim_path c) @ ''` in `''
            @ os_name (cs_of c) @ ''`'s ID token is not a string'')), p))"

definition claim_preload ::
  "('sock, 'conn, 'a, 'net) oauth_env \<Rightarrow> 'p claim_source \<Rightarrow> 'a process_scheme
     \<Rightarrow> (core_error + string option) \<times> 'a process_scheme" where
  "claim_preload env c p =
    (case cached_id_token_claim env (cs_of c) p of
       Inl e \<Rightarrow> (Inl e, p)
     | Inr None \<Rightarrow> (Inr None, p)
     | Inr (Some claims) \<Rightarrow> and_then (claim_extract c claims p) (\<lambda>v p. (Inr (Some v), p)))"

definition claim_resolve ::
  "('sock, 'conn, 'a, 'net) oauth_env \<Rightarrow> ('a process_scheme \<Rightarrow> 'a process_scheme)
     \<Rightarrow> 'a process_scheme claim_source \<Rightarrow> 'a process_scheme \<Rightarrow> (core_error + string) \<times> 'a process_scheme" where
  "claim_resolve env meanwhile c p =
     and_then (id_token_claim env meanwhile (cs_of c) p) (\<lambda>claims p.
       case claims of
         None \<Rightarrow>
           (Inl (EConfig (''`'' @ cs_name c @ ''` reads a claim from `'' @ os_name (cs_of c)
              @ ''`'s ID token, but that swap's provider issued no ''
              @ ''`id_token` alongside its access token'')), p)
       | Some claims \<Rightarrow> claim_extract c claims p)"

section \<open>Enrolment\<close>

datatype device_poll =
    PollPending
  | SlowDown
  | PollDone "string option \<times> nat option"

record auth_code_flow =
  fl_url :: string
  fl_state :: string
  fl_verifier :: string
  fl_redirect_uri :: string

record device_authorization =
  dv_device_code :: string
  dv_user_code :: string
  dv_verification_uri :: string
  dv_verification_uri_complete :: "string option"
  dv_expires_in :: nat
  dv_interval :: nat

definition split_redirect :: "string \<Rightarrow> (string \<times> string) option" where
  "split_redirect uri =
    (case split_once_str ''://'' uri of
       None \<Rightarrow> None
     | Some (scheme, rest) \<Rightarrow>
         (let auth = takeWhile (\<lambda>c. c \<noteq> CHR ''/'') rest in
          case (case strip_prefix ''['' auth of
                  Some after \<Rightarrow> map_option fst (split_once (CHR '']'') after)
                | None \<Rightarrow> Some (case rsplit_once (CHR '':'') auth of Some (h, _) \<Rightarrow> h | None \<Rightarrow> auth)) of
            None \<Rightarrow> None
          | Some host \<Rightarrow> if host = [] then None else Some (scheme, host)))"

definition redirect_uri :: "'p oauth2_source \<Rightarrow> core_error + string" where
  "redirect_uri s =
    (case oc_redirect_uri (os_cfg s) of
       None \<Rightarrow>
         Inl (EConfig (''`'' @ os_name s @ ''` uses `grant: authorization_code` but sets no `redirect_uri`''))
     | Some uri \<Rightarrow>
         (case split_redirect uri of
            None \<Rightarrow> Inl (EConfig (''`'' @ os_name s @ ''`: redirect_uri `'' @ uri @ ''` is not a URL''))
          | Some (scheme, host) \<Rightarrow>
              if host \<notin> {''127.0.0.1'', ''localhost'', ''::1''}
              then Inl (EConfig (''`'' @ os_name s @ ''`: redirect_uri must point at loopback (127.0.0.1 or localhost), not ''
                @ ''`'' @ host @ ''` '' @ [CHR 0xE2, CHR 0x80, CHR 0x94]
                @ '' marshal binds it itself to receive the authorization code, and a ''
                @ ''redirect anywhere else would hand the code to something that is not marshal''))
              else if scheme \<noteq> ''http''
              then Inl (EConfig (''`'' @ os_name s @ ''`: redirect_uri must be `http://` on loopback, not `'' @ scheme
                @ ''://` '' @ [CHR 0xE2, CHR 0x80, CHR 0x94]
                @ '' the listener marshal binds for the redirect is plain HTTP, which is what every ''
                @ ''provider expects for a loopback redirect''))
              else Inr uri))"

definition authorization_params :: "'p oauth2_config \<Rightarrow> string \<Rightarrow> string \<Rightarrow> string \<Rightarrow> (string \<times> string) list" where
  "authorization_params cfg redirect state challenge =
     [(''response_type'', ''code''), (''client_id'', oc_client_id cfg), (''redirect_uri'', redirect),
      (''state'', state), (''code_challenge'', challenge), (''code_challenge_method'', ''S256'')]
     @ (let scope = join '' '' (oc_scope cfg) in if scope = [] then [] else [(''scope'', scope)])
     @ opt_param ''audience'' (oc_audience cfg) @ oc_extra_params cfg"

definition begin_authorization_code ::
  "('sock, 'conn, 'a, 'net) oauth_env \<Rightarrow> 'a process_scheme oauth2_source \<Rightarrow> 'a process_scheme
     \<Rightarrow> (core_error + auth_code_flow) \<times> 'a process_scheme" where
  "begin_authorization_code env s p =
    (case oc_authorization_endpoint (os_cfg s) of
       None \<Rightarrow>
         (Inl (EConfig (''`'' @ os_name s @ ''` uses `grant: authorization_code` but sets no `authorization_endpoint`'')), p)
     | Some authorize \<Rightarrow>
         and_then (redirect_uri s, p) (\<lambda>redirect p.
         and_then (pkce_generate env p) (\<lambda>pkce p.
         and_then (random_urlsafe env 24 p) (\<lambda>state p.
           (Inr \<lparr>fl_url = authorize @ (if CHR ''?'' \<in> set authorize then ''&'' else ''?'')
                  @ form_urlencode (authorization_params (os_cfg s) redirect state (pk_challenge pkce)),
                 fl_state = state, fl_verifier = pk_verifier pkce, fl_redirect_uri = redirect\<rparr>, p)))))"

definition state_matches :: "auth_code_flow \<Rightarrow> string \<Rightarrow> bool" where
  "state_matches flow candidate =
    (let a = bytes_of (fl_state flow); b = bytes_of candidate in
     if length a \<noteq> length b then False
     else foldl (\<lambda>acc (x, y). acc OR (x XOR y)) 0 (zip a b) = 0)"

definition store_enrolment ::
  "('sock, 'conn, 'a, 'net) oauth_env \<Rightarrow> 'a process_scheme oauth2_source \<Rightarrow> token_response \<Rightarrow> 'a process_scheme
     \<Rightarrow> (core_error + string option \<times> nat option) \<times> 'a process_scheme" where
  "store_enrolment env s r p =
    (case tk_refresh_token r of
       None \<Rightarrow>
         (Inl (EConfig (''the provider completed the flow for `'' @ os_name s @ ''` but issued no refresh token, so ''
            @ ''nothing can be kept and every restart would need authorising again. Ask for ''
            @ ''offline access '' @ [CHR 0xE2, CHR 0x80, CHR 0x94]
            @ '' most providers want `scope: [offline_access]`, or Google's ''
            @ ''`access_type=offline` in `extra_params`.'')), p)
     | Some rt \<Rightarrow>
         and_then (save_grant env (os_name s)
             \<lparr>sg_refresh_token = rt, sg_obtained_at = now_unix env p, sg_scope = tk_scope r\<rparr> p) (\<lambda>_ p.
         and_then (cache_token env s r p) (\<lambda>_ p. (Inr (tk_scope r, tk_expires_in r), p))))"

definition complete_authorization_code ::
  "('sock, 'conn, 'a, 'net) oauth_env \<Rightarrow> 'a process_scheme oauth2_source \<Rightarrow> string \<Rightarrow> auth_code_flow
     \<Rightarrow> 'a process_scheme \<Rightarrow> (core_error + string option \<times> nat option) \<times> 'a process_scheme" where
  "complete_authorization_code env s code flow p =
     and_then (post_token env s ''exchanging the authorization code for''
       [(''grant_type'', ''authorization_code''), (''code'', code), (''redirect_uri'', fl_redirect_uri flow),
        (''code_verifier'', fl_verifier flow)] p) (store_enrolment env s)"

definition device_parse :: "json \<Rightarrow> core_error + device_authorization" where
  "device_parse body =
    (let field = (\<lambda>name. case get_str body name of
           Some v \<Rightarrow> Inr v
         | None \<Rightarrow> Inl (EConfig (''the device authorization response has no `'' @ name @ ''`''))) in
     case (field ''device_code'', field ''user_code'',
           case field ''verification_uri'' of Inr v \<Rightarrow> Inr v | Inl _ \<Rightarrow> field ''verification_url'') of
       (Inl e, _, _) \<Rightarrow> Inl e
     | (_, Inl e, _) \<Rightarrow> Inl e
     | (_, _, Inl e) \<Rightarrow> Inl e
     | (Inr dc, Inr uc, Inr uri) \<Rightarrow>
         Inr \<lparr>dv_device_code = dc, dv_user_code = uc, dv_verification_uri = uri,
              dv_verification_uri_complete =
                Option.bind (case jget body ''verification_uri_complete'' of
                   Some v \<Rightarrow> Some v | None \<Rightarrow> jget body ''verification_url_complete'') as_str,
              dv_expires_in = seconds (unwrap_or 1800 (Option.bind (jget body ''expires_in'') as_u64)),
              dv_interval = seconds (unwrap_or 5 (Option.bind (jget body ''interval'') as_u64))\<rparr>)"

definition with_client_id :: "'p oauth2_config \<Rightarrow> (string \<times> string) list \<Rightarrow> (string \<times> string) list" where
  "with_client_id cfg params =
     params @ (if \<exists>(k, _) \<in> set params. k = ''client_id'' then [] else [(''client_id'', oc_client_id cfg)])"

definition begin_device_authorization ::
  "('sock, 'conn, 'a, 'net) oauth_env \<Rightarrow> 'a process_scheme oauth2_source \<Rightarrow> 'a process_scheme
     \<Rightarrow> (core_error + device_authorization) \<times> 'a process_scheme" where
  "begin_device_authorization env s p =
    (case oc_device_authorization_endpoint (os_cfg s) of
       None \<Rightarrow>
         (Inl (EConfig (''`'' @ os_name s @ ''` uses `grant: device_code` but sets no `device_authorization_endpoint`'')), p)
     | Some url \<Rightarrow>
         (case endpoint_parse_with_path url of
            Inl e \<Rightarrow> (Inl (EConfig (''device_authorization_endpoint: '' @ show_http_error e)), p)
          | Inr (e, path) \<Rightarrow>
              and_then (client_auth env s p) (\<lambda>(auth_params, headers) p.
              and_then (bounded env s ''requesting a device code for'' url
                 (call_form env e path headers
                    (form_urlencode (with_client_id (os_cfg s)
                       (auth_params @ opt_param ''scope'' (scope_words (os_cfg s)))))
                    (\<lambda>e. EConfig (''requesting a device code from '' @ url @ '': '' @ show_http_error e))) p)
                 (\<lambda>(status, body) p.
                   if \<not> is_success status
                   then (Inl (EConfig (''requesting a device code from '' @ url @ '': ''
                           @ describe_error (oa_status env) status body)), p)
                   else (device_parse body, p)))))"

definition poll_device_token ::
  "('sock, 'conn, 'a, 'net) oauth_env \<Rightarrow> 'a process_scheme oauth2_source \<Rightarrow> string \<Rightarrow> 'a process_scheme
     \<Rightarrow> (core_error + device_poll) \<times> 'a process_scheme" where
  "poll_device_token env s device_code p =
     and_then (client_auth env s p) (\<lambda>(auth_params, headers) p.
     and_then (bounded env s ''polling for the device token for'' (oc_token_endpoint (os_cfg s))
        (call_form env (os_endpoint s) (os_path s) headers
           (form_urlencode (with_client_id (os_cfg s)
              (auth_params @ [(''grant_type'', ''urn:ietf:params:oauth:grant-type:device_code''),
                 (''device_code'', device_code)])))
           (\<lambda>e. EConfig (''polling for the device token: '' @ show_http_error e))) p)
        (\<lambda>(status, body) p.
          if is_success status
          then
            (case token_parse body of
               Inl e \<Rightarrow> (Inl e, p)
             | Inr r \<Rightarrow>
                 (let p = learn (os_name s) (tk_access_token r) p;
                      p = (case tk_refresh_token r of Some rt \<Rightarrow> learn (os_name s) rt p | None \<Rightarrow> p) in
                  and_then (store_enrolment env s r p) (\<lambda>enrolled p. (Inr (PollDone enrolled), p))))
          else
            (case get_str body ''error'' of
               Some e \<Rightarrow>
                 if e = ''authorization_pending'' then (Inr PollPending, p)
                 else if e = ''slow_down'' then (Inr SlowDown, p)
                 else (Inl (EConfig (''polling for the device token: '' @ describe_error (oa_status env) status body)), p)
             | None \<Rightarrow> (Inl (EConfig (''polling for the device token: '' @ describe_error (oa_status env) status body)), p))))"

section \<open>What a request for a token leaves alone\<close>

text \<open>A source that only reads the world: an environment variable, a file.\<close>

definition outside :: "'a process_scheme secret_source \<Rightarrow> bool" where
  "outside src \<longleftrightarrow> (\<forall>p. \<exists>a. snd (ss_resolve src p) = process.more_update (\<lambda>_. a) p)"

fun auth_sources :: "'p client_auth_kind \<Rightarrow> 'p secret_source list" where
  "auth_sources NoClientAuth = []"
| "auth_sources (ClientSecretBasic src) = [src]"
| "auth_sources (ClientSecretPost src) = [src]"
| "auth_sources (PrivateKeyJwt key) = [ak_source key]"

fun grant_sources :: "'p grant_kind \<Rightarrow> 'p secret_source list" where
  "grant_sources (RefreshToken src) = [src]"
| "grant_sources (JwtBearer key _ _ _) = [ak_source key]"
| "grant_sources _ = []"

definition sources_outside :: "'a process_scheme oauth2_source \<Rightarrow> bool" where
  "sources_outside s \<longleftrightarrow>
     list_all outside (auth_sources (oc_client_auth (os_cfg s)) @ grant_sources (oc_grant (os_cfg s)))"

definition same_store :: "'a process_scheme \<Rightarrow> 'a process_scheme \<Rightarrow> bool" where
  "same_store p q \<longleftrightarrow> pr_access p = pr_access q \<and> pr_files p = pr_files q \<and> pr_dirs p = pr_dirs q"

lemma same_store_refl [simp]: "same_store p p"
  by (simp add: same_store_def)

lemma same_store_trans: "same_store p q \<Longrightarrow> same_store q r \<Longrightarrow> same_store p r"
  by (simp add: same_store_def)

lemma same_store_more [simp]: "same_store p (process.more_update f q) = same_store p q"
  by (simp add: same_store_def)

lemma same_store_redactor [simp]: "same_store p (q\<lparr>pr_redactor := r\<rparr>) = same_store p q"
  by (simp add: same_store_def)

lemma same_store_learn [simp]: "same_store p (learn l v q) = same_store p q"
  by (simp add: learn_def)

named_theorems keeps \<open>steps that leave tokens, files and directories alone\<close>

lemma keeps_and_then [keeps]:
  "same_store p (snd r) \<Longrightarrow> (\<And>x t. same_store t (snd (f x t))) \<Longrightarrow> same_store p (snd (and_then r f))"
  by (auto simp: and_then_def split: prod.splits sum.splits intro: same_store_trans)

lemma keeps_simple [keeps]: "same_store p (snd (r, p))"
  by simp

lemma keeps_if [keeps]:
  "same_store p (snd a) \<Longrightarrow> same_store p (snd b) \<Longrightarrow> same_store p (snd (if c then a else b))"
  by simp

lemma keeps_pair [keeps]:
  "(\<And>a b. same_store p (snd (f a b))) \<Longrightarrow> same_store p (snd (case x of (a, b) \<Rightarrow> f a b))"
  by (simp split: prod.split)

lemma keeps_pair_step [keeps]:
  "(\<And>a b. same_store p (snd (f a b p))) \<Longrightarrow> same_store p (snd (case_prod f x p))"
  by (simp split: prod.split)

lemma keeps_sum [keeps]:
  "(\<And>e. same_store p (snd (f e))) \<Longrightarrow> (\<And>x. same_store p (snd (g x))) \<Longrightarrow>
     same_store p (snd (case r of Inl e \<Rightarrow> f e | Inr x \<Rightarrow> g x))"
  by (simp split: sum.split)

lemma outside_keeps: "outside src \<Longrightarrow> same_store p (snd (ss_resolve src p))"
  unfolding outside_def by (metis same_store_more same_store_refl)

lemma present_keeps: "outside src \<Longrightarrow> same_store p (snd (present s src purpose p))"
  unfolding present_def by (intro keeps outside_keeps) auto

lemma random_keeps [keeps]: "same_store p (snd (random_urlsafe env n p))"
  by (auto simp: random_urlsafe_def split: prod.splits sum.splits)

lemma assertion_keeps:
  "outside (ak_source key) \<Longrightarrow> same_store p (snd (assertion env s key i u a j sc p))"
  unfolding assertion_def by (intro keeps present_keeps)

lemma client_auth_keeps:
  assumes "sources_outside s"
  shows "same_store p (snd (client_auth env s p))"
proof (cases "oc_client_auth (os_cfg s)")
  case NoClientAuth
  then show ?thesis
    by (simp add: client_auth_def)
next
  case (ClientSecretBasic src)
  with assms show ?thesis
    by (auto simp: client_auth_def sources_outside_def intro!: keeps present_keeps)
next
  case (ClientSecretPost src)
  with assms show ?thesis
    by (auto simp: client_auth_def sources_outside_def intro!: keeps present_keeps)
next
  case (PrivateKeyJwt key)
  with assms show ?thesis
    by (auto simp: client_auth_def sources_outside_def Let_def intro!: keeps assertion_keeps)
qed

lemma bounded_keeps [keeps]:
  "same_store p (snd (call p)) \<Longrightarrow> same_store p (snd (bounded env s what url call p))"
  by (auto simp: bounded_def split: option.splits)

lemma call_form_keeps [keeps]: "same_store p (snd (call_form env e path headers form wrap p))"
  by (auto simp: call_form_def split: prod.splits)

lemma post_token_keeps:
  "sources_outside s \<Longrightarrow> same_store p (snd (post_token env s what params p))"
  unfolding post_token_def Let_def
  by (intro keeps client_auth_keeps) simp_all

lemma exchange_token_keeps:
  "sources_outside s \<Longrightarrow> same_store p (snd (exchange_token env s r idt tx p))"
  by (auto simp: exchange_token_def post_token_keeps split: option.splits)

lemma grant_keeps [keeps]: "same_store p (snd (grant env swap p))"
  by (auto simp: grant_def same_store_def split: option.splits sum.splits)

lemma grant_params_keeps:
  assumes "sources_outside s"
  shows "same_store p (snd (grant_params env s p))"
proof -
  have "same_store p (snd (refresh_token env s p))"
  proof (cases "oc_grant (os_cfg s)")
    case (RefreshToken src)
    with assms show ?thesis
      by (auto simp: refresh_token_def sources_outside_def intro!: keeps present_keeps)
  next
    case Enrolled
    then show ?thesis
      by (auto simp: refresh_token_def split: option.splits intro!: keeps)
  qed (auto simp: refresh_token_def)
  with assms show ?thesis
    by (cases "oc_grant (os_cfg s)")
      (auto simp: grant_params_def sources_outside_def Let_def intro!: keeps assertion_keeps split: prod.splits)
qed

section \<open>What is learned\<close>

lemma ring_of_learn_self: "min_length \<le> length v \<Longrightarrow> v \<in> set (ring_of (redactor_learn l v r) l)"
  by (auto simp: ring_of_learn learned_per_label_def)

lemma ring_of_learn_other: "l \<noteq> l' \<Longrightarrow> ring_of (redactor_learn l v r) l' = ring_of r l'"
  by (simp add: ring_of_learn)

text \<open>Of a ring of more than one place the newest value survives one more.\<close>

lemma ring_of_learn_twice:
  assumes "min_length \<le> length v" and "v \<notin> set (ring_of r l)"
  shows "v \<in> set (ring_of (redactor_learn l w (redactor_learn l v r)) l)"
proof -
  have "ring_of (redactor_learn l v r) l = drop (Suc (length (ring_of r l)) - learned_per_label) (ring_of r l) @ [v]"
    using assms by (simp add: ring_of_learn learned_per_label_def)
  then show ?thesis
    by (auto simp: ring_of_learn learned_per_label_def)
qed

lemma id_label_differs [simp]: "n @ ''.id_token'' \<noteq> n" "n \<noteq> n @ ''.id_token''"
  by simp_all

lemma learned_response:
  "min_length \<le> length (tk_access_token r) \<Longrightarrow>
     tk_refresh_token r = None \<or> tk_access_token r \<notin> set (ring_of rd (os_name s)) \<Longrightarrow>
     tk_access_token r \<in> set (ring_of (learn_response s r rd) (os_name s))"
  "tk_refresh_token r = Some rt \<Longrightarrow> min_length \<le> length rt \<Longrightarrow>
     rt \<in> set (ring_of (learn_response s r rd) (os_name s))"
  "tk_id_token r = Some idt \<Longrightarrow> min_length \<le> length idt \<Longrightarrow>
     idt \<in> set (ring_of (learn_response s r rd) (os_name s @ ''.id_token''))"
  by (auto simp: learn_response_def Let_def ring_of_learn_self ring_of_learn_twice ring_of_learn_other
      split: option.splits)

lemma post_token_Inr:
  assumes "post_token env s what params p = (Inr r, p')"
  shows "\<exists>q. p' = q\<lparr>pr_redactor := learn_response s r (pr_redactor q)\<rparr>"
  using assms unfolding post_token_def Let_def
  by (auto simp: and_then_Inr split: prod.splits if_splits sum.splits)


text \<open>
  A provider that goes on issuing the same access token while it rotates the refresh token makes the
  redactor forget the one in use: at the fourth new refresh token it is pushed out of its ring.
\<close>

lemma reissued_token_is_forgotten:
  "\<not> ''at-0'' \<in> set (rd_sorted (fold (\<lambda>rt. redactor_learn ''api'' rt \<circ> redactor_learn ''api'' ''at-0'')
     [''rt-1'', ''rt-2'', ''rt-3'', ''rt-4''] (redactor_new [])))"
  by code_simp

section \<open>What is kept\<close>

lemma save_grant_Inr:
  assumes "save_grant env swap g p = (Inr (), p')"
  shows "put_grant env swap g p = (None, p')"
  using assms by (auto simp: save_grant_def split: prod.splits option.splits)

lemma put_grant_saved:
  assumes "put_grant env swap g p = (None, p')"
  shows "\<exists>path. path_for env swap = Some path \<and> pr_files p' path = Some (oa_pretty env (grant_to_json g)) \<and>
    pr_access p' = pr_access p \<and> process.more p' = process.more p \<and> pr_redactor p' = pr_redactor p"
proof -
  obtain path where path: "path_for env swap = Some path"
    using assms by (auto simp: put_grant_def split: option.splits)
  then obtain d where d: "store_dir env = Some d"
    by (auto simp: path_for_def)
  obtain e1 p1 where one: "create_private_dir env d p = (e1, p1)"
    by fastforce
  obtain e2 p2 where two: "write_private env (tmp_for swap path) (oa_pretty env (grant_to_json g)) p1 = (e2, p2)"
    by fastforce
  show ?thesis
    using assms path d one two create_private_dir_frame [OF one] write_private_frame [OF two]
    by (auto simp: put_grant_def Let_def split: option.splits)
qed

lemma put_grant_access: "put_grant env swap g p = (e, p') \<Longrightarrow> pr_access p' = pr_access p"
  using create_private_dir_frame write_private_frame
  unfolding put_grant_def Let_def
  by (fastforce split: option.splits prod.splits)

lemma cache_token_Inr:
  assumes "cache_token env s r p = (Inr (), p')"
  shows "\<exists>t. with_id_token (instant env p) (tk_access_token r) (tk_expires_in r) (oc_expiry_skew (os_cfg s))
       (tk_id_token r) = Inr t \<and> ct_value t = tk_access_token r \<and> p' = put_access env (os_name s) t p"
  using assms by (auto simp: cache_token_def with_id_token_def split: sum.splits option.splits if_splits)

lemma put_access_frame [simp]:
  "pr_files (put_access env n t p) = pr_files p" "pr_redactor (put_access env n t p) = pr_redactor p"
  "process.more (put_access env n t p) = process.more p"
  by (simp_all add: put_access_def)

text \<open>
  C13 (safety). A rotated refresh token is on disk before the access token that came with it is used: for
  an enrolled credential, whenever \<open>mint\<close> hands out a token, the file of the swap holds the refresh token
  of the provider's answer, if there was one in it, whatever came after, and otherwise no file has changed.
\<close>

theorem rotation_is_saved_before_use:
  assumes "mint env s p = (Inr v, p')" and "oc_grant (os_cfg s) = Enrolled" and "sources_outside s"
  shows "\<exists>params p1 r p2. grant_params env s p = (Inr params, p1) \<and>
    post_token env s ''requesting'' params p1 = (Inr r, p2) \<and>
    (case tk_refresh_token r of
       None \<Rightarrow> pr_files p' = pr_files p
     | Some rt \<Rightarrow> \<exists>path. path_for env (os_name s) = Some path \<and>
         pr_files p' path = Some (oa_pretty env (grant_to_json
           \<lparr>sg_refresh_token = rt, sg_obtained_at = now_unix env p2, sg_scope = tk_scope r\<rparr>)))"
proof -
  from assms(1) obtain params p1 r p2 p3 r' p4 where
      params: "grant_params env s p = (Inr params, p1)" and
      response: "post_token env s ''requesting'' params p1 = (Inr r, p2)" and
      saved: "persist_rotation env s r p2 = (Inr (), p3)" and
      swapped: "(case oc_token_exchange (os_cfg s) of None \<Rightarrow> (Inr r, p3)
        | Some tx \<Rightarrow> and_then (exchange_token env s (r\<lparr>tk_id_token := None\<rparr>) (tk_id_token r) tx p3)
            (\<lambda>exchanged p. (Inr (exchanged\<lparr>tk_id_token := tk_id_token r\<rparr>), p))) = (Inr r', p4)" and
      cached: "cache_token env s r' p4 = (Inr (), p')"
    unfolding mint_def and_then_Inr by fastforce
  have "same_store p p1"
    using grant_params_keeps [OF assms(3), of p env] params by simp
  moreover have "same_store p1 p2"
    using post_token_keeps [OF assms(3), of p1 env] response by (metis snd_conv)
  moreover have "same_store p3 p4"
    using swapped exchange_token_keeps [OF assms(3), of p3 env]
    by (auto simp: and_then_Inr split: option.splits) (metis snd_conv)
  moreover have "pr_files p' = pr_files p4"
    using cache_token_Inr [OF cached] by auto
  ultimately have files: "pr_files p2 = pr_files p" "pr_files p' = pr_files p3"
    by (auto simp: same_store_def)
  show ?thesis
  proof (cases "tk_refresh_token r")
    case None
    with saved files have "pr_files p' = pr_files p"
      by (simp add: persist_rotation_def)
    with None params response show ?thesis
      by (intro exI [of _ params] exI [of _ p1] exI [of _ r] exI [of _ p2]) simp
  next
    case (Some rt)
    with saved assms(2) have "save_grant env (os_name s)
        \<lparr>sg_refresh_token = rt, sg_obtained_at = now_unix env p2, sg_scope = tk_scope r\<rparr> p2 = (Inr (), p3)"
      by (simp add: persist_rotation_def)
    from put_grant_saved [OF save_grant_Inr [OF this]] files(2) Some params response show ?thesis
      by (intro exI [of _ params] exI [of _ p1] exI [of _ r] exI [of _ p2]) auto
  qed
qed

text \<open>A mint that fails leaves no token behind to be used.\<close>

lemma failed_mint_caches_nothing:
  assumes "mint env s p = (Inl e, p')" and "sources_outside s"
  shows "pr_access p' = pr_access p"
proof -
  have asked: "pr_access q' = pr_access q" if "grant_params env s q = (x, q')" for x q q'
    using grant_params_keeps [OF assms(2), of q env] that by (simp add: same_store_def)
  have answered: "pr_access q' = pr_access q" if "post_token env s what params q = (x, q')" for what params x q q'
    using post_token_keeps [OF assms(2), of q env what params] that by (simp add: same_store_def)
  have saved: "pr_access q' = pr_access q" if "persist_rotation env s r q = (x, q')" for r x q q'
    using that put_grant_access
    by (fastforce simp: persist_rotation_def save_grant_def split: option.splits grant_kind.splits prod.splits)
  have swapped: "pr_access q' = pr_access q"
    if "(case oc_token_exchange (os_cfg s) of None \<Rightarrow> (Inr r, q)
        | Some tx \<Rightarrow> and_then (exchange_token env s (r\<lparr>tk_id_token := None\<rparr>) (tk_id_token r) tx q)
            (\<lambda>exchanged p. (Inr (exchanged\<lparr>tk_id_token := tk_id_token r\<rparr>), p))) = (x, q')" for r x q q'
  proof -
    have "same_store q (snd (case oc_token_exchange (os_cfg s) of None \<Rightarrow> (Inr r, q)
        | Some tx \<Rightarrow> and_then (exchange_token env s (r\<lparr>tk_id_token := None\<rparr>) (tk_id_token r) tx q)
            (\<lambda>exchanged p. (Inr (exchanged\<lparr>tk_id_token := tk_id_token r\<rparr>), p))))"
      by (cases "oc_token_exchange (os_cfg s)") (auto intro!: keeps exchange_token_keeps [OF assms(2)])
    with that show ?thesis
      by (simp add: same_store_def)
  qed
  have refused: "q' = q" if "cache_token env s r q = (Inl x, q')" for r x q q'
    using that by (auto simp: cache_token_def split: sum.splits)
  from assms(1) show ?thesis
    unfolding mint_def and_then_Inl
    by - (elim disjE exE conjE; ((drule asked answered saved swapped refused)+, simp))
qed

lemma mint_caches:
  assumes "mint env s p = (Inr v, p')" and "sources_outside s"
  shows "pr_access p' = pr_access p \<or>
    (\<exists>t. pr_access p' = (pr_access p)(os_name s \<mapsto> t) \<and> ct_value t = v \<and> is_live (instant env p') t)"
proof -
  from assms(1) obtain params p1 r p2 p3 r' p4 where
      params: "grant_params env s p = (Inr params, p1)" and
      response: "post_token env s ''requesting'' params p1 = (Inr r, p2)" and
      saved: "persist_rotation env s r p2 = (Inr (), p3)" and
      swapped: "(case oc_token_exchange (os_cfg s) of None \<Rightarrow> (Inr r, p3)
        | Some tx \<Rightarrow> and_then (exchange_token env s (r\<lparr>tk_id_token := None\<rparr>) (tk_id_token r) tx p3)
            (\<lambda>exchanged p. (Inr (exchanged\<lparr>tk_id_token := tk_id_token r\<rparr>), p))) = (Inr r', p4)" and
      cached: "cache_token env s r' p4 = (Inr (), p')" and v: "v = tk_access_token r'"
    unfolding mint_def and_then_Inr by fastforce
  have "same_store p p1"
    using grant_params_keeps [OF assms(2), of p env] params by simp
  moreover have "same_store p1 p2"
    using post_token_keeps [OF assms(2), of p1 env] response by (metis snd_conv)
  moreover have "pr_access p3 = pr_access p2"
    using saved put_grant_access
    by (fastforce simp: persist_rotation_def save_grant_def split: option.splits grant_kind.splits prod.splits)
  moreover have "same_store p3 p4"
    using swapped exchange_token_keeps [OF assms(2), of p3 env]
    by (auto simp: and_then_Inr split: option.splits) (metis snd_conv)
  ultimately have "pr_access p4 = pr_access p"
    by (simp add: same_store_def)
  with cache_token_Inr [OF cached] v show ?thesis
    by (auto simp: put_access_def instant_def)
qed

text \<open>
  C16 (functional). Requests that need the same token at the same time make one call between them: a
  request that waited while another one minted takes the token that was minted, without any step of its
  own, when the provider gave it a lifetime; only a token that may not be kept is asked for again.
\<close>

theorem waiting_requests_share_a_mint:
  assumes "mint env s p = (Inr v, p1)" and "sources_outside s"
    and "cached_access env (os_name s) p = None" and "cached_access env (os_name s) q = None"
    and "instant env p \<le> instant env p1"
  shows "oauth_resolve env (\<lambda>_. p1) s q =
    (if cached_access env (os_name s) p1 = None then mint env s p1 else (Inr v, p1))"
proof -
  have "ct_value t = v" if "cached_access env (os_name s) p1 = Some t" for t
    using mint_caches [OF assms(1,2)]
  proof
    assume same: "pr_access p1 = pr_access p"
    with that have "is_live (instant env p1) t" "pr_access p (os_name s) = Some t"
      by (auto simp: cached_access_def split: option.splits if_splits)
    with assms(3,5) show "ct_value t = v"
      by (auto simp: cached_access_def is_live_def split: option.splits if_splits)
  next
    assume "\<exists>t. pr_access p1 = (pr_access p)(os_name s \<mapsto> t) \<and> ct_value t = v \<and> is_live (instant env p1) t"
    with that show "ct_value t = v"
      by (auto simp: cached_access_def split: if_splits)
  qed
  with assms(4) show ?thesis
    by (auto simp: oauth_resolve_def Let_def split: option.splits)
qed

text \<open>What is held is given out, and seeding the redactor only looks at it.\<close>

lemma held_token_needs_no_call:
  "cached_access env (os_name s) p = Some t \<Longrightarrow> oauth_resolve env meanwhile s p = (Inr (ct_value t), p)"
  by (simp add: oauth_resolve_def)

lemma preload_changes_nothing: "snd (ss_preload (oauth_secret env meanwhile s) p) = p"
  by (simp add: oauth_secret_def oauth_preload_def)

lemma claim_preload_only_learns:
  "\<exists>rd. snd (claim_preload env c p) = p\<lparr>pr_redactor := rd\<rparr>"
proof -
  have same: "\<exists>rd. p = p\<lparr>pr_redactor := rd\<rparr>"
    by (rule exI [of _ "pr_redactor p"]) simp
  have "\<exists>rd. snd (claim_extract c claims p) = p\<lparr>pr_redactor := rd\<rparr>" for claims
    using same by (auto simp: claim_extract_def learn_def split: sum.splits json.splits)
  moreover have "snd (and_then r (\<lambda>v p. (Inr (Some v), p))) = snd r" for r :: "(core_error + string) \<times> 'a process_scheme"
    by (auto simp: and_then_def split: prod.splits sum.splits)
  ultimately show ?thesis
    using same by (auto simp: claim_preload_def split: sum.splits option.splits)
qed

section \<open>Authorization codes\<close>

text \<open>
  The comparison that takes the same time whatever it is given is equality: a callback
  is accepted exactly when it carries the state of the flow.
\<close>

lemma state_check_is_equality: "state_matches flow candidate = (candidate = fl_state flow)"
proof -
  have "length (bytes_of (fl_state flow)) \<noteq> length (bytes_of candidate) \<Longrightarrow> candidate \<noteq> fl_state flow"
    by auto
  then show ?thesis
    by (auto simp: state_matches_def Let_def fold_differences_zip dest: bytes_of_inject [THEN iffD1])
qed

lemma utf8_ok_ascii: "\<forall>c \<in> set s. (of_char c :: nat) < 128 \<Longrightarrow> utf8_ok (bytes_of s)"
proof (induction s)
  case (Cons c s)
  have "(word_of_nat (of_char c) :: byte) < 128"
    using Cons.prems by (simp add: word_less_nat_alt unat_of_nat)
  then have "utf8_ok [word_of_nat (of_char c)]"
    by (simp add: utf8_ok_def utf8_valid_up_to.simps [of "[_]"] utf8_valid_up_to.simps [of "[]"] utf8_width_def)
  with Cons show ?case
    using utf8_ok_append [of "[word_of_nat (of_char c)]" "bytes_of s"] by (simp add: bytes_of_Cons)
qed simp

lemma base64url_utf8: "utf8_ok (bytes_of (base64url_encode bs))"
proof -
  have "list_all (\<lambda>c. (of_char c :: nat) < 128) URL_SAFE"
    by code_simp
  then show ?thesis
    using base64url_chars [of bs] by (intro utf8_ok_ascii) (auto simp: url_safe_char_def list_all_iff)
qed

lemma random_urlsafe_utf8: "random_urlsafe env n p = (Inr v, p') \<Longrightarrow> utf8_ok (bytes_of v)"
  by (auto simp: random_urlsafe_def base64url_utf8 split: prod.splits sum.splits)

text \<open>
  C17 (functional). The authorization request is bound to the flow it begins: the query that is appended to
  the endpoint reads back as the parameters, with the challenge that is the hash of the verifier of the flow,
  which is only ever sent when the code is redeemed, with the state of the flow, and with a redirect
  that passed the check.
\<close>

theorem flow_is_bound_to_its_verifier:
  assumes "begin_authorization_code env s p = (Inr flow, p')"
    and "\<forall>(n, v) \<in> set (authorization_params (os_cfg s) (fl_redirect_uri flow) [] []).
      utf8_ok (bytes_of n) \<and> utf8_ok (bytes_of v)"
  shows "\<exists>base q. fl_url flow = base @ q \<and>
    parse_pairs q = authorization_params (os_cfg s) (fl_redirect_uri flow) (fl_state flow)
      (challenge_s256 (oa_sha256 env) (fl_verifier flow)) \<and>
    find_pair (parse_pairs q) ''code_challenge'' = Some (challenge_s256 (oa_sha256 env) (fl_verifier flow)) \<and>
    find_pair (parse_pairs q) ''state'' = Some (fl_state flow) \<and> redirect_uri s = Inr (fl_redirect_uri flow)"
proof -
  obtain authorize where authorize: "oc_authorization_endpoint (os_cfg s) = Some authorize"
    using assms(1) by (auto simp: begin_authorization_code_def split: option.splits)
  with assms(1) obtain redirect pkce p1 state p2 where
      redirect: "redirect_uri s = Inr redirect" and
      pkce: "pkce_generate env p = (Inr pkce, p1)" and
      state: "random_urlsafe env 24 p1 = (Inr state, p2)" and
      flow: "flow = \<lparr>fl_url = authorize @ (if CHR ''?'' \<in> set authorize then ''&'' else ''?'')
          @ form_urlencode (authorization_params (os_cfg s) redirect state (pk_challenge pkce)),
        fl_state = state, fl_verifier = pk_verifier pkce, fl_redirect_uri = redirect\<rparr>"
    by (auto simp: begin_authorization_code_def and_then_Inr)
  have challenge: "pk_challenge pkce = challenge_s256 (oa_sha256 env) (pk_verifier pkce)"
    using pkce by (auto simp: pkce_generate_def split: prod.splits sum.splits)
  let ?params = "authorization_params (os_cfg s) redirect state (pk_challenge pkce)"
  have "\<forall>(n, v) \<in> set ?params. utf8_ok (bytes_of n) \<and> utf8_ok (bytes_of v)"
    using assms(2) random_urlsafe_utf8 [OF state] base64url_utf8
    by (auto simp: flow challenge challenge_s256_def authorization_params_def Let_def)
  then have "parse_pairs (form_urlencode ?params) = ?params"
    by (rule form_roundtrip)
  then show ?thesis
    using redirect challenge flow
    by (intro exI [of _ "authorize @ (if CHR ''?'' \<in> set authorize then ''&'' else ''?'')"]
        exI [of _ "form_urlencode ?params"])
      (simp add: find_pair_def authorization_params_def)
qed

text \<open>
  The check of the redirect looks at what stands before the last colon; user information with a colon in
  front of the host is taken for the host.
\<close>

lemma user_information_passes_for_loopback:
  "split_redirect ''http://localhost:80@evil.test/cb'' = Some (''http'', ''localhost'')"
  by code_simp

section \<open>A source at work\<close>

definition sample_answer :: json where
  "sample_answer = jobj [(''access_token'', JStr ''at-1''), (''refresh_token'', JStr ''rt-2''), (''expires_in'', jint 3600)]"

definition sample_provider :: "(unit, unit, nat) http_env" where
  "sample_provider = sample_http
     \<lparr>ne_lookup := \<lambda>_ _ w. (Inr [\<lparr>sa_ip = V4 192 0 2 1, sa_port = 80\<rparr>], w), ne_connect := \<lambda>_ w. (Inr (), w),
      he_exchange := \<lambda>_ _ w. (Inr (200, []), w)\<rparr>"

definition sample_online_env :: "(unit, unit, nat, unit) oauth_env" where
  "sample_online_env = sample_oauth_env
     \<lparr>oa_http := sample_provider,
      oa_json := \<lparr>jl_parse = (\<lambda>_. Some sample_answer), jl_error = (\<lambda>_. []), jl_show = (\<lambda>_. ''{}'')\<rparr>\<rparr>"

definition sample_source :: "nat process_scheme oauth2_source" where
  "sample_source =
     \<lparr>os_name = ''api'',
      os_cfg = \<lparr>oc_token_endpoint = ''http://idp.test/token'', oc_client_id = ''app'', oc_client_auth = NoClientAuth,
        oc_grant = Enrolled, oc_scope = [], oc_audience = None, oc_extra_params = [], oc_expiry_skew = seconds 60,
        oc_timeout = seconds 30, oc_authorization_endpoint = Some ''http://idp.test/authorize'',
        oc_redirect_uri = Some ''http://localhost:7777/cb'', oc_device_authorization_endpoint = None,
        oc_token_exchange = None\<rparr>,
      os_endpoint = \<lparr>ep_https = False, ep_host = ''idp.test'', ep_port = 80\<rparr>, os_path = ''/token''\<rparr>"

definition sample_tokens :: token_response where
  "sample_tokens = \<lparr>tk_access_token = ''at-1'', tk_expires_in = Some (seconds 3600), tk_refresh_token = Some ''rt-2'',
     tk_scope = None, tk_id_token = None\<rparr>"

definition enrolled_process :: "nat process_scheme" where
  "enrolled_process = (sample_process 0)\<lparr>pr_grants := [''api'' \<mapsto> sample_grant]\<rparr>"

lemma sample_post:
  "post_token sample_online_env sample_source what params p =
     (Inr sample_tokens, p\<lparr>pr_redactor := learn_response sample_source sample_tokens (pr_redactor p)\<rparr>)"
proof -
  have "token_parse sample_answer = Inr sample_tokens"
    unfolding sample_answer_def sample_tokens_def by code_simp
  moreover have "header_value_ok ''application/x-www-form-urlencoded''" "header_value_ok ''application/json''"
    "header_value_ok (host_header \<lparr>ep_https = False, ep_host = ''idp.test'', ep_port = 80\<rparr>)"
    by code_simp+
  ultimately show ?thesis
    by (simp add: post_token_def client_auth_def sample_source_def Let_def bounded_def call_form_def post_form_def
        post_body_def http_send_def endpoint_connect_def endpoint_tcp_def request_builds_def post_request_def
        sample_online_env_def sample_oauth_env_def sample_provider_def sample_http_def is_success_def)
qed

lemma sample_mint:
  "\<exists>p1 t. mint sample_online_env sample_source enrolled_process = (Inr ''at-1'', p1) \<and> process.more p1 = 0 \<and>
     cached_access sample_online_env ''api'' p1 = Some t"
proof -
  have disk: "path_for sample_online_env ''api'' \<noteq> None" "store_dir sample_online_env \<noteq> None"
    by (simp_all add: path_for_def store_dir_def sample_online_env_def sample_oauth_env_def)
  have faultless: "fault sample_online_env st p = None" if "process.more p = 0" for st p
    using that by (simp add: fault_def sample_online_env_def sample_oauth_env_def split: disk_step.split)
  have saved: "\<exists>p'. put_grant sample_online_env ''api'' g p = (None, p') \<and> process.more p' = 0 \<and>
      pr_access p' = pr_access p" if "process.more p = 0" "pr_dirs p = Map.empty" for g p
    using that disk
    by (auto simp: put_grant_def create_private_dir_def write_private_def faultless Let_def)
  have params: "\<exists>params p1. grant_params sample_online_env sample_source enrolled_process = (Inr params, p1) \<and>
      process.more p1 = 0 \<and> pr_dirs p1 = Map.empty \<and> pr_access p1 = Map.empty"
    by (simp add: grant_params_def refresh_token_def sample_source_def grant_def enrolled_process_def sample_process_def
        learn_def scope_words_def Let_def)
  have cfg: "oc_grant (os_cfg sample_source) = Enrolled" "oc_token_exchange (os_cfg sample_source) = None"
    "oc_expiry_skew (os_cfg sample_source) = seconds 60" "os_name sample_source = ''api''"
    by (simp_all add: sample_source_def)
  obtain ps p1 where p1: "grant_params sample_online_env sample_source enrolled_process = (Inr ps, p1)"
      "process.more p1 = 0" "pr_dirs p1 = Map.empty" "pr_access p1 = Map.empty"
    using params by blast
  define p2 where "p2 = p1\<lparr>pr_redactor := learn_response sample_source sample_tokens (pr_redactor p1)\<rparr>"
  have "process.more p2 = 0" "pr_dirs p2 = Map.empty" "pr_access p2 = Map.empty"
    using p1 by (simp_all add: p2_def)
  with saved [of p2 "\<lparr>sg_refresh_token = ''rt-2'', sg_obtained_at = now_unix sample_online_env p2, sg_scope = None\<rparr>"]
  obtain p3 where "put_grant sample_online_env ''api''
      \<lparr>sg_refresh_token = ''rt-2'', sg_obtained_at = now_unix sample_online_env p2, sg_scope = None\<rparr> p2 = (None, p3)"
      and p3': "process.more p3 = 0" "pr_access p3 = Map.empty"
    by auto
  then have p3: "persist_rotation sample_online_env sample_source sample_tokens p2 = (Inr (), p3)"
    by (simp add: persist_rotation_def save_grant_def cfg sample_tokens_def)
  have "oa_instant sample_online_env = id"
    by (auto simp: sample_online_env_def sample_oauth_env_def)
  with p1 p3 p3' sample_post [of _ _ p1] show ?thesis
    by (auto simp: mint_def cfg cache_token_def with_id_token_def sample_tokens_def instant_def instant_end_def seconds_def
        put_access_def is_live_def cached_access_def p2_def)
qed

lemma sample_outside: "sources_outside sample_source"
  by (simp add: sources_outside_def sample_source_def)


theorem rotation_is_saved_before_use_witness:
  "\<exists>p' path g. fst (mint sample_online_env sample_source enrolled_process) = Inr ''at-1'' \<and>
     snd (mint sample_online_env sample_source enrolled_process) = p' \<and>
     pr_files p' path = Some (oa_pretty sample_online_env (grant_to_json g)) \<and> sg_refresh_token g = ''rt-2''"
proof -
  obtain p' t where run: "mint sample_online_env sample_source enrolled_process = (Inr ''at-1'', p')"
    using sample_mint by blast
  have "oc_grant (os_cfg sample_source) = Enrolled"
    by (simp add: sample_source_def)
  from rotation_is_saved_before_use [OF run this sample_outside]
  obtain params p1 r p2 where r: "post_token sample_online_env sample_source ''requesting'' params p1 = (Inr r, p2)"
      and kept: "case tk_refresh_token r of None \<Rightarrow> pr_files p' = pr_files enrolled_process
        | Some rt \<Rightarrow> \<exists>path. path_for sample_online_env (os_name sample_source) = Some path \<and>
            pr_files p' path = Some (oa_pretty sample_online_env (grant_to_json
              \<lparr>sg_refresh_token = rt, sg_obtained_at = now_unix sample_online_env p2, sg_scope = tk_scope r\<rparr>))"
    by blast
  have "tk_refresh_token r = Some ''rt-2''"
    using r sample_post by (auto simp: sample_tokens_def)
  with kept obtain path where "pr_files p' path = Some (oa_pretty sample_online_env (grant_to_json
      \<lparr>sg_refresh_token = ''rt-2'', sg_obtained_at = now_unix sample_online_env p2, sg_scope = tk_scope r\<rparr>))"
    by auto
  with run show ?thesis
    by (metis fst_conv snd_conv stored_grant.select_convs(1))
qed

theorem waiting_requests_share_a_mint_witness:
  "\<exists>p1. oauth_resolve sample_online_env (\<lambda>_. p1) sample_source enrolled_process = (Inr ''at-1'', p1)"
proof -
  obtain p1 t where run: "mint sample_online_env sample_source enrolled_process = (Inr ''at-1'', p1)"
      and p1: "process.more p1 = 0" "cached_access sample_online_env ''api'' p1 = Some t"
    using sample_mint by blast
  have empty: "cached_access sample_online_env (os_name sample_source) enrolled_process = None"
    by (simp add: cached_access_def enrolled_process_def sample_process_def)
  have "instant sample_online_env enrolled_process \<le> instant sample_online_env p1"
    using p1 by (simp add: instant_def enrolled_process_def sample_process_def)
  from waiting_requests_share_a_mint [OF run sample_outside empty empty this] p1 show ?thesis
    by (auto simp: sample_source_def)
qed

theorem flow_is_bound_to_its_verifier_witness:
  "\<exists>flow base q. fl_url flow = base @ q \<and> fst (begin_authorization_code sample_online_env sample_source enrolled_process) = Inr flow \<and>
     find_pair (parse_pairs q) ''state'' = Some (fl_state flow)"
proof -
  have redirect: "redirect_uri sample_source = Inr ''http://localhost:7777/cb''"
    unfolding sample_source_def by code_simp
  obtain flow p' where run: "begin_authorization_code sample_online_env sample_source enrolled_process = (Inr flow, p')"
      and uri: "fl_redirect_uri flow = ''http://localhost:7777/cb''"
    using redirect
    by (simp add: begin_authorization_code_def sample_source_def pkce_generate_def random_urlsafe_def
        sample_online_env_def sample_oauth_env_def)
  have "\<forall>(n, v) \<in> set (authorization_params (os_cfg sample_source) ''http://localhost:7777/cb'' [] []).
      utf8_ok (bytes_of n) \<and> utf8_ok (bytes_of v)"
    by (auto simp: authorization_params_def sample_source_def opt_param_def intro!: utf8_ok_ascii)
  with run uri show ?thesis
    using flow_is_bound_to_its_verifier [OF run] by auto
qed

end
