(* ===== verification/Broker.thy ===== *)
theory Broker
  imports OauthSource Server
begin

text \<open>
  In-band capture (\<open>crates/marshal-secrets/src/oauth/broker.rs\<close>): the agent runs a login, marshal
  substitutes its own proof key into the authorization request, takes the code out of the redirect and
  answers the token request itself. A broker sees the process and a table of open flows; several brokers
  each have their own table, which \<open>bk_id\<close> picks. URIs are assembled by the parameters of \<open>inject_env\<close>.
\<close>

section \<open>The table of open flows\<close>

definition flow_ttl :: nat where "flow_ttl = seconds 600"
definition max_pending :: nat where "max_pending = 32"

definition sentinel :: "string \<Rightarrow> string \<Rightarrow> string" where
  "sentinel name kind = ''marshal-managed-'' @ kind @ ''-'' @ name"

record pending =
  pn_state :: string
  pn_flow :: auth_code_flow
  pn_started :: nat

record 'p oauth2_broker =
  bk_name :: string
  bk_id :: nat
  bk_source :: "'p oauth2_source"
  bk_authorize :: "string \<times> string"
  bk_token :: "string \<times> string"

definition split_host_path :: "string \<Rightarrow> core_error + string \<times> string" where
  "split_host_path url =
    (case endpoint_parse_with_path url of
       Inl e \<Rightarrow> Inl (EConfig (url @ '': '' @ show_http_error e))
     | Inr (e, path) \<Rightarrow> Inr (ep_host e, path))"

definition broker_new ::
  "string \<Rightarrow> nat \<Rightarrow> 'p oauth2_source \<Rightarrow> string \<Rightarrow> string \<Rightarrow> core_error + 'p oauth2_broker" where
  "broker_new name i source authorize_url token_url =
    (case split_host_path authorize_url of
       Inl e \<Rightarrow> Inl e
     | Inr a \<Rightarrow>
         (case split_host_path token_url of
            Inl e \<Rightarrow> Inl e
          | Inr t \<Rightarrow> Inr \<lparr>bk_name = name, bk_id = i, bk_source = source, bk_authorize = a, bk_token = t\<rparr>))"

definition broker_matches :: "request_context \<Rightarrow> string \<times> string \<Rightarrow> bool" where
  "broker_matches cx hp \<longleftrightarrow>
     eq_ignore_ascii_case (auth_host (rc_authority cx)) (fst hp) \<and> uri_path (rc_uri cx) = snd hp"

definition unexpired :: "nat \<Rightarrow> pending list \<Rightarrow> pending list" where
  "unexpired now table = filter (\<lambda>p. now - pn_started p < flow_ttl) table"

definition remember :: "nat \<Rightarrow> pending \<Rightarrow> pending list \<Rightarrow> pending list" where
  "remember now pn table =
    (let table = unexpired now table in drop (Suc (length table) - max_pending) table @ [pn])"

text \<open>The first open flow with the state, taken out of the table.\<close>

fun take_first :: "string \<Rightarrow> pending list \<Rightarrow> (auth_code_flow \<times> pending list) option" where
  "take_first state [] = None"
| "take_first state (p # table) =
     (if length (pn_state p) = length state \<and> state_matches (pn_flow p) state then Some (pn_flow p, table)
      else map_option (\<lambda>(f, t). (f, p # t)) (take_first state table))"

definition take_flow :: "nat \<Rightarrow> string \<Rightarrow> pending list \<Rightarrow> auth_code_flow option \<times> pending list" where
  "take_flow now state table =
    (let table = unexpired now table in
     case take_first state table of None \<Rightarrow> (None, table) | Some (f, rest) \<Rightarrow> (Some f, rest))"

type_synonym 'a broker_world = "'a process_scheme \<times> (nat \<Rightarrow> pending list)"

section \<open>The authorization request\<close>

definition broker_note :: "'p oauth2_broker \<Rightarrow> string \<Rightarrow> request_context \<Rightarrow> request_context" where
  "broker_note bk what cx =
     cx\<lparr>rc_evidence := record_ev (''oauth2.'' @ bk_name bk @ ''.'' @ what) (JBool True) (rc_evidence cx)\<rparr>"

definition substitute_challenge :: "string \<Rightarrow> (string \<times> string) list \<Rightarrow> (string \<times> string) list" where
  "substitute_challenge challenge params =
     filter (\<lambda>(k, _). k \<noteq> ''code_challenge'' \<and> k \<noteq> ''code_challenge_method'') params
     @ [(''code_challenge'', challenge), (''code_challenge_method'', ''S256'')]"

definition with_query :: "('net, 'w) inject_env \<Rightarrow> uri \<Rightarrow> string \<Rightarrow> uri" where
  "with_query ij u query =
     unwrap_or u (ij_from_parts ij u (ij_path_query ij (uri_path u @ ''?'' @ query)))"

definition authorize_apply ::
  "('sock, 'conn, 'a, 'net) oauth_env \<Rightarrow> ('n, 'w) inject_env \<Rightarrow> 'p oauth2_broker \<Rightarrow> request_context
     \<Rightarrow> 'a broker_world \<Rightarrow> (core_error option \<times> request_context) \<times> 'a broker_world" where
  "authorize_apply env ij bk cx w =
    (if \<not> broker_matches cx (bk_authorize bk) then ((None, cx), w)
     else
       (let params = parse_pairs (unwrap_or [] (uri_query (rc_uri cx))) in
        if find_pair params ''response_type'' \<noteq> Some ''code'' then ((None, cx), w)
        else
          (case find_pair params ''state'' of
             None \<Rightarrow> ((None, broker_note bk ''not_captured.no_state'' cx), w)
           | Some state \<Rightarrow>
               (case find_pair params ''redirect_uri'' of
                  None \<Rightarrow> ((None, broker_note bk ''not_captured.no_redirect_uri'' cx), w)
                | Some redirect \<Rightarrow>
                    (case (pkce_generate env (fst w), snd w) of
                       ((Inl e, p), tables) \<Rightarrow> ((Some e, cx), (p, tables))
                     | ((Inr pkce, p), tables) \<Rightarrow>
                         (let u = with_query ij (rc_uri cx)
                                (form_urlencode (substitute_challenge (pk_challenge pkce) params));
                              flow = \<lparr>fl_url = show_uri u, fl_state = state, fl_verifier = pk_verifier pkce,
                                fl_redirect_uri = redirect\<rparr>;
                              pn = \<lparr>pn_state = state, pn_flow = flow, pn_started = instant env p\<rparr> in
                          ((None, broker_note bk ''challenge_substituted'' (cx\<lparr>rc_uri := u\<rparr>)),
                           (p, tables(bk_id bk := remember (instant env p) pn (tables (bk_id bk)))))))))))"

definition authorize_xform ::
  "('sock, 'conn, 'a, 'net) oauth_env \<Rightarrow> ('n, 'w) inject_env \<Rightarrow> 'p oauth2_broker \<Rightarrow> 'a broker_world request_xform" where
  "authorize_xform env ij bk =
     \<lparr>rx_name = ''oauth2.authorize'', rx_requirement = (\<lambda>_ _. StreamBody), rx_defers = (\<lambda>_. False),
      rx_apply = authorize_apply env ij bk\<rparr>"

section \<open>The redirect\<close>

definition withhold_code :: "string \<Rightarrow> (string \<times> string) list \<Rightarrow> (string \<times> string) list" where
  "withhold_code inert params = map (\<lambda>(k, v). (k, if k = ''code'' then inert else v)) params"

definition redirect_of :: "response_parts \<Rightarrow> (string \<times> string) option" where
  "redirect_of resp =
     Option.bind (Option.bind (hdr_get (rp_headers resp) ''location'') value_to_str) (split_once (CHR ''?''))"

text \<open>The outcome of the exchange is only logged.\<close>

definition capture_apply ::
  "('sock, 'conn, 'a, 'net) oauth_env \<Rightarrow> 'a process_scheme oauth2_broker \<Rightarrow> request_context \<Rightarrow> response_parts
     \<Rightarrow> 'a broker_world \<Rightarrow> (core_error option \<times> response_parts) \<times> 'a broker_world" where
  "capture_apply env bk cx resp w =
    (case redirect_of resp of
       None \<Rightarrow> ((None, resp), w)
     | Some (base, query) \<Rightarrow>
         (let params = parse_pairs query in
          case find_pair params ''state'' of
            None \<Rightarrow> ((None, resp), w)
          | Some state \<Rightarrow>
              (let (p, tables) = w;
                   (taken, table) = take_flow (instant env p) state (tables (bk_id bk));
                   tables = tables(bk_id bk := table) in
               case taken of
                 None \<Rightarrow> ((None, resp), (p, tables))
               | Some flow \<Rightarrow>
                   (case find_pair params ''code'' of
                      None \<Rightarrow> ((None, resp), (p, tables))
                    | Some code \<Rightarrow>
                        (let location = base @ ''?'' @ form_urlencode
                               (withhold_code (sentinel (bk_name bk) ''code'') params);
                             resp = (if header_value_ok location
                               then resp\<lparr>rp_headers := hdr_insert ''location'' location (rp_headers resp)\<rparr>
                               else resp) in
                         ((None, resp), (snd (complete_authorization_code env (bk_source bk) code flow p), tables)))))))"

definition capture_xform ::
  "('sock, 'conn, 'a, 'net) oauth_env \<Rightarrow> 'a process_scheme oauth2_broker \<Rightarrow> 'a broker_world response_xform" where
  "capture_xform env bk =
     \<lparr>sx_name = ''oauth2.capture'', sx_requirement = (\<lambda>_. StreamBody), sx_supports_streaming = True,
      sx_apply = capture_apply env bk, sx_session = (\<lambda>_. None), sx_chunk = (\<lambda>_ _. None)\<rparr>"

section \<open>The token request\<close>

definition token_answer :: "string \<Rightarrow> json" where
  "token_answer name = jobj
     [(''access_token'', JStr (sentinel name ''token'')), (''token_type'', JStr ''Bearer''),
      (''expires_in'', jint 3600), (''refresh_token'', JStr (sentinel name ''refresh''))]"

definition token_respond ::
  "json_lib \<Rightarrow> 'p oauth2_broker \<Rightarrow> request_context \<Rightarrow> synthesized_response option \<times> request_context" where
  "token_respond js bk cx =
    (if rc_method cx \<noteq> ''POST'' \<or> \<not> broker_matches cx (bk_token bk) then (None, cx)
     else
       (Some \<lparr>sr_status = 200,
          sr_headers = [(''content-type'', ''application/json''), (''cache-control'', ''no-store'')],
          sr_body = bytes_of (jl_show js (token_answer (bk_name bk))), sr_code = ''oauth2_terminated'',
          sr_message = ''marshal completed this OAuth2 exchange itself and holds the `'' @ bk_name bk
            @ ''` credential; the client received a sentinel it does not need to use''\<rparr>,
        broker_note bk ''token_request_answered'' cx))"

definition token_responder :: "json_lib \<Rightarrow> 'p oauth2_broker \<Rightarrow> 'w responder" where
  "token_responder js bk =
     \<lparr>rd_name = ''oauth2.token'', rd_requirement = StreamBody,
      rd_respond = (\<lambda>cx w. case token_respond js bk cx of (r, cx') \<Rightarrow> ((Inr r, cx'), w))\<rparr>"

section \<open>Brokers keep to their part of a request\<close>

interpretation authorizer: request_rewriter "rx_apply (authorize_xform env ij bk)" for env ij bk
  by (rule request_rewriter.intro)
    (auto simp: authorize_xform_def authorize_apply_def broker_note_def Let_def ev_le_record
      split: if_splits option.splits prod.splits sum.splits)

interpretation token_answerer: request_rewriter "rd_respond (token_responder js bk)" for js bk
  by (rule request_rewriter.intro)
    (auto simp: token_responder_def token_respond_def broker_note_def ev_le_record split: if_splits)

section \<open>The table stays small\<close>

lemma length_remember: "length (remember now pn table) \<le> max_pending"
  by (simp add: remember_def Let_def max_pending_def)

lemma length_unexpired: "length (unexpired now table) \<le> length table"
  by (simp add: unexpired_def)

lemma take_first_Some:
  "take_first state table = Some (f, rest) \<Longrightarrow>
     \<exists>xs p ys. table = xs @ p # ys \<and> rest = xs @ ys \<and> f = pn_flow p \<and> fl_state f = state \<and>
       (\<forall>x \<in> set xs. \<not> (length (pn_state x) = length state \<and> fl_state (pn_flow x) = state))"
proof (induction table arbitrary: f rest)
  case (Cons p table)
  show ?case
  proof (cases "length (pn_state p) = length state \<and> state_matches (pn_flow p) state")
    case True
    with Cons.prems have "p # table = [] @ p # table \<and> rest = [] @ table \<and> f = pn_flow p \<and> fl_state f = state"
      by (auto simp: state_check_is_equality)
    then show ?thesis
      by (metis empty_iff list.set(1))
  next
    case False
    with Cons.prems obtain t where t: "take_first state table = Some (f, t)" "rest = p # t"
      by auto
    from Cons.IH [OF t(1)] obtain xs q ys where
        "table = xs @ q # ys" "t = xs @ ys" "f = pn_flow q" "fl_state f = state"
        "\<forall>x \<in> set xs. \<not> (length (pn_state x) = length state \<and> fl_state (pn_flow x) = state)"
      by blast
    with False t(2) show ?thesis
      by (intro exI [of _ "p # xs"] exI [of _ q] exI [of _ ys]) (auto simp: state_check_is_equality)
  qed
qed simp

lemma length_take_flow: "length (snd (take_flow now state table)) \<le> length table"
proof (cases "take_first state (unexpired now table)")
  case None
  then show ?thesis
    by (simp add: take_flow_def length_unexpired)
next
  case (Some fr)
  then obtain f rest where fr: "take_first state (unexpired now table) = Some (f, rest)"
    by (cases fr) simp
  from take_first_Some [OF this] have "length rest \<le> length (unexpired now table)"
    by auto
  with fr length_unexpired [of now table] show ?thesis
    by (simp add: take_flow_def Let_def)
qed

text \<open>
  What the program can come to: requests and redirects in any order, through any brokers, while the rest
  of it changes the process as it likes.
\<close>

inductive broker_reach ::
  "('sock, 'conn, 'a, 'net) oauth_env \<Rightarrow> ('n, 'w) inject_env \<Rightarrow> 'a broker_world \<Rightarrow> bool"
  for env :: "('sock, 'conn, 'a, 'net) oauth_env" and ij :: "('n, 'w) inject_env" where
  start: "broker_reach env ij (p, \<lambda>_. [])"
| request: "broker_reach env ij w \<Longrightarrow> authorize_apply env ij (bk :: 'a process_scheme oauth2_broker) cx w = (r, w')
     \<Longrightarrow> broker_reach env ij w'"
| redirect: "broker_reach env ij w \<Longrightarrow> capture_apply env bk cx resp w = (r', w') \<Longrightarrow> broker_reach env ij w'"
| other: "broker_reach env ij (p, tables) \<Longrightarrow> broker_reach env ij (p', tables)"

lemma authorize_tables:
  "authorize_apply env ij bk cx w = (r, w') \<Longrightarrow>
     snd w' = snd w \<or> (\<exists>now pn. snd w' = (snd w)(bk_id bk := remember now pn (snd w (bk_id bk))))"
  by (auto simp: authorize_apply_def Let_def split: if_splits option.splits prod.splits sum.splits) blast+

lemma capture_tables:
  "capture_apply env bk cx resp w = (r, w') \<Longrightarrow>
     snd w' = snd w \<or> (\<exists>now st. snd w' = (snd w)(bk_id bk := snd (take_flow now st (snd w (bk_id bk)))))"
  by (auto simp: capture_apply_def Let_def split: option.splits prod.splits) (metis snd_conv)+

text \<open>
  However often an agent begins a login, the table of open flows of a broker never holds
  more than the bound.
\<close>

lemma pending_table_is_bounded:
  assumes "broker_reach env ij w"
  shows "length (snd w i) \<le> max_pending"
  using assms
proof (induction rule: broker_reach.induct)
  case (request w bk cx r w')
  with authorize_tables [OF request(2)] show ?case
    using length_remember by auto
next
  case (redirect w bk cx resp r' w')
  from capture_tables [OF redirect(2)] show ?case
  proof
    assume "\<exists>now st. snd w' = (snd w)(bk_id bk := snd (take_flow now st (snd w (bk_id bk))))"
    then obtain now st where "snd w' = (snd w)(bk_id bk := snd (take_flow now st (snd w (bk_id bk))))"
      by blast
    with redirect.IH length_take_flow [of now st "snd w (bk_id bk)"] show ?thesis
      by auto
  qed (use redirect.IH in simp)
qed simp_all

section \<open>Decoded text is text\<close>

lemma utf8_ok_take_width:
  assumes "utf8_width bs = Some w"
  shows "utf8_ok (take w bs)"
  using utf8_width_take [OF assms, of 0] utf8_width_bounds [OF assms]
  by (simp add: utf8_ok_def utf8_valid_up_to.simps [of "take w bs"] utf8_valid_up_to.simps [of "[]"] utf8_width_def)

lemma utf8_ok_replacement: "utf8_ok [0xEF, 0xBF, 0xBD]"
  by code_simp

lemma utf8_lossy_is_ok: "utf8_ok (utf8_lossy bs)"
proof (induction bs rule: utf8_lossy.induct)
  case (1 bs)
  show ?case
  proof (cases "utf8_width bs")
    case (Some w)
    with 1 utf8_ok_append [OF utf8_ok_take_width [OF Some]] show ?thesis
      by (simp add: utf8_lossy.simps [of bs])
  next
    case None
    with 1 utf8_ok_append [OF utf8_ok_replacement] show ?thesis
      by (simp add: utf8_lossy.simps [of bs])
  qed
qed

lemma parse_pairs_utf8: "(k, v) \<in> set (parse_pairs input) \<Longrightarrow> utf8_ok (bytes_of k) \<and> utf8_ok (bytes_of v)"
  by (auto simp: parse_pairs_def percent_decode_def from_utf8_lossy_def utf8_lossy_is_ok split: option.splits)

section \<open>Whose proof key it is\<close>

lemma substituted_utf8:
  assumes "utf8_ok (bytes_of challenge)"
  shows "\<forall>(n, v) \<in> set (substitute_challenge challenge (parse_pairs query)). utf8_ok (bytes_of n) \<and> utf8_ok (bytes_of v)"
proof -
  have "utf8_ok (bytes_of ''code_challenge'')" "utf8_ok (bytes_of ''code_challenge_method'')" "utf8_ok (bytes_of ''S256'')"
    by (auto intro!: utf8_ok_ascii)
  with assms show ?thesis
    by (auto simp: substitute_challenge_def dest: parse_pairs_utf8)
qed

lemma find_substituted:
  "find_pair (substitute_challenge challenge params) ''code_challenge'' = Some challenge"
  "find_pair (substitute_challenge challenge params) ''code_challenge_method'' = Some ''S256''"
  by (induction params) (auto simp: find_pair_def substitute_challenge_def)

text \<open>
  C12 (safety). The code that an authorization request will yield can be redeemed by marshal alone: what is
  sent has every parameter the agent gave, in order, but its own challenge, and exactly one challenge, the hash
  of a verifier that marshal made and keeps with the flow, with the method S256 whatever the agent asked
  for. The only assumption is that a query that was encoded reads back from the URI it is put into.
\<close>

theorem challenge_is_marshals:
  assumes "authorize_apply env ij bk cx w = ((None, cx'), w')"
    and "broker_matches cx (bk_authorize bk)"
    and "find_pair params ''response_type'' = Some ''code''" and "find_pair params ''state'' = Some state"
    and "find_pair params ''redirect_uri'' = Some redirect"
    and "params = parse_pairs (unwrap_or [] (uri_query (rc_uri cx)))"
    and "\<And>pairs. uri_query (with_query ij (rc_uri cx) (form_urlencode pairs)) = Some (form_urlencode pairs)"
  shows "\<exists>older pn query. snd w' (bk_id bk) = older @ [pn] \<and> pn_state pn = state \<and>
    fl_redirect_uri (pn_flow pn) = redirect \<and> uri_query (rc_uri cx') = Some query \<and>
    parse_pairs query =
      filter (\<lambda>(k, _). k \<noteq> ''code_challenge'' \<and> k \<noteq> ''code_challenge_method'') params
      @ [(''code_challenge'', challenge_s256 (oa_sha256 env) (fl_verifier (pn_flow pn))),
         (''code_challenge_method'', ''S256'')]"
proof -
  obtain r p1 where gen: "pkce_generate env (fst w) = (r, p1)"
    by fastforce
  show ?thesis
  proof (cases r)
    case (Inl e)
    with assms gen show ?thesis
      by (auto simp: authorize_apply_def Let_def)
  next
    case (Inr pkce)
    have challenge: "pk_challenge pkce = challenge_s256 (oa_sha256 env) (pk_verifier pkce)"
      using gen Inr by (auto simp: pkce_generate_def split: prod.splits sum.splits)
    let ?query = "form_urlencode (substitute_challenge (pk_challenge pkce) params)"
    have "parse_pairs ?query = substitute_challenge (pk_challenge pkce) params"
      unfolding assms(6) by (rule form_roundtrip [OF substituted_utf8])
        (simp add: challenge challenge_s256_def base64url_utf8)
    moreover have "rc_uri cx' = with_query ij (rc_uri cx) ?query"
      using assms(1-5) gen Inr unfolding assms(6) [symmetric] by (auto simp: authorize_apply_def broker_note_def Let_def assms(6) [symmetric])
    moreover have "\<exists>older pn. snd w' (bk_id bk) = older @ [pn] \<and> pn_state pn = state \<and>
        fl_redirect_uri (pn_flow pn) = redirect \<and> fl_verifier (pn_flow pn) = pk_verifier pkce"
      using assms(1-5) gen Inr by (auto simp: authorize_apply_def remember_def Let_def assms(6) [symmetric])
    ultimately show ?thesis
      using assms(7) challenge by (auto simp: substitute_challenge_def)
  qed
qed

section \<open>Who gets the code\<close>

lemma withheld_utf8:
  assumes "utf8_ok (bytes_of inert)"
  shows "\<forall>(n, v) \<in> set (withhold_code inert (parse_pairs query)). utf8_ok (bytes_of n) \<and> utf8_ok (bytes_of v)"
  using assms by (auto simp: withhold_code_def dest: parse_pairs_utf8)

lemma percent_byte_visible: "c \<in> set (percent_byte b) \<Longrightarrow> visible_ascii c"
proof -
  have hex: "visible_ascii (hex_upper x)" if "x < 16" for x :: byte
  proof -
    have "visible_ascii (hex_upper (word_of_nat n))" if "n < 16" for n
    proof -
      have "list_all (\<lambda>n. visible_ascii (hex_upper (word_of_nat n))) [0..<16]"
        by code_simp
      with that show ?thesis
        by (auto simp: list_all_iff)
    qed
    from this [of "unat x"] that show ?thesis
      by (simp add: word_less_nat_alt)
  qed
  have "visible_ascii (char_of (unat b))" if "unreserved b"
    using that by (auto simp: unreserved_def visible_ascii_def Let_def word_le_nat_alt)
  then show "c \<in> set (percent_byte b) \<Longrightarrow> visible_ascii c"
    using hex [OF nibble_bounds(1), of b] hex [OF nibble_bounds(2), of b]
    by (auto simp: percent_byte_def visible_ascii_def split: if_splits)
qed

lemma percent_encode_visible: "c \<in> set (percent_encode bs) \<Longrightarrow> visible_ascii c"
  by (auto simp: percent_encode_def dest: percent_byte_visible)

lemma visible_separators: "visible_ascii (CHR ''&'')" "visible_ascii (CHR ''='')" "visible_ascii (CHR ''?'')"
  by code_simp+

lemma visible_header: "\<forall>c \<in> set v. visible_ascii c \<Longrightarrow> header_value_ok v"
  by (fastforce simp: header_value_ok_def visible_ascii_def Let_def)

lemma form_urlencode_chars: "c \<in> set (form_urlencode pairs) \<Longrightarrow> visible_ascii c"
proof -
  have "visible_ascii c" if "c \<in> set (form_urlencode_loop out pairs)" "\<forall>c \<in> set out. visible_ascii c" for out
    using that
  proof (induction out pairs rule: form_urlencode_loop.induct)
    case (2 out n v pairs)
    show ?case
      by (rule "2.IH") (use "2.prems" in \<open>auto dest: percent_encode_visible simp: visible_separators\<close>)
  qed simp
  then show "c \<in> set (form_urlencode pairs) \<Longrightarrow> visible_ascii c"
    by (simp add: form_urlencode_def)
qed


text \<open>What is not captured: a code in the fragment of the redirect, and a flow on a host spelled with a final dot.\<close>

lemma fragment_redirect_is_not_captured:
  "redirect_of \<lparr>rp_status = 302, rp_headers = [(''location'', [''http://localhost/cb#code=c1&state=s1''])],
     rp_body = Empty\<rparr> = None"
  by code_simp

lemma final_dot_is_not_captured:
  "auth_host (rc_authority cx) = ''idp.test.'' \<Longrightarrow> fst (bk_authorize bk) = ''idp.test'' \<Longrightarrow>
     authorize_apply env ij bk cx w = ((None, cx), w)"
proof -
  have "\<not> eq_ignore_ascii_case ''idp.test.'' ''idp.test''"
    by code_simp
  then show "auth_host (rc_authority cx) = ''idp.test.'' \<Longrightarrow> fst (bk_authorize bk) = ''idp.test'' \<Longrightarrow>
     authorize_apply env ij bk cx w = ((None, cx), w)"
    by (auto simp: authorize_apply_def broker_matches_def)
qed

text \<open>An agent that begins a second login with the same state has its code redeemed with the key of the first.\<close>

lemma reused_state_takes_the_older_flow:
  "fl_state a = s \<Longrightarrow> fl_state b = s \<Longrightarrow> now - t1 < flow_ttl \<Longrightarrow> now - t2 < flow_ttl \<Longrightarrow>
     fst (take_flow now s [\<lparr>pn_state = s, pn_flow = a, pn_started = t1\<rparr>, \<lparr>pn_state = s, pn_flow = b, pn_started = t2\<rparr>]) = Some a"
  by (simp add: take_flow_def unexpired_def state_check_is_equality)

text \<open>The note of the substitution is made whether the URI could be rebuilt or not.\<close>

lemma substitution_noted_without_effect:
  assumes "ij_from_parts ij = (\<lambda>_ _. None)" and "broker_matches cx (bk_authorize bk)"
    and "pkce_generate env (fst w) = (Inr pkce, p')"
    and "find_pair (parse_pairs (unwrap_or [] (uri_query (rc_uri cx)))) ''response_type'' = Some ''code''"
    and "find_pair (parse_pairs (unwrap_or [] (uri_query (rc_uri cx)))) ''state'' = Some state"
    and "find_pair (parse_pairs (unwrap_or [] (uri_query (rc_uri cx)))) ''redirect_uri'' = Some redirect"
  shows "snd (fst (authorize_apply env ij bk cx w)) = broker_note bk ''challenge_substituted'' cx"
  using assms by (simp add: authorize_apply_def with_query_def Let_def split: prod.splits)

section \<open>A login\<close>

definition sample_ij :: "(unit, unit) inject_env" where
  "sample_ij =
     \<lparr>ij_net = \<lparr>net_parse = (\<lambda>_. None), net_contains = (\<lambda>_ _. False), net_show = (\<lambda>_. [])\<rparr>,
      ij_path_query = (\<lambda>s. map_option (\<lambda>(a, b). \<lparr>uri_path = a, uri_query = Some b\<rparr>) (split_once (CHR ''?'') s)),
      ij_from_parts = (\<lambda>_ u. u), ij_sha256 = (\<lambda>_. []), ij_hmac = (\<lambda>_ _. []),
      ij_now = (\<lambda>_. \<lparr>ut_year = 2026, ut_month = 1, ut_day = 2, ut_hour = 3, ut_minute = 4, ut_second = 5\<rparr>),
      ij_debug = id, ij_bad_value = []\<rparr>"

definition sample_broker :: "nat process_scheme oauth2_broker" where
  "sample_broker = \<lparr>bk_name = ''api'', bk_id = 0, bk_source = sample_source,
     bk_authorize = (''idp.test'', ''/authorize''), bk_token = (''idp.test'', ''/token'')\<rparr>"

definition login_request :: request_context where
  "login_request = inject_request\<lparr>rc_authority := \<lparr>auth_host = ''IdP.test'', auth_port = 443\<rparr>,
     rc_uri := \<lparr>uri_path = ''/authorize'',
       uri_query = Some ''response_type=code&state=s1&code_challenge=mine&redirect_uri=http%3A%2F%2Flocalhost%2Fcb''\<rparr>\<rparr>"

definition login_params :: "(string \<times> string) list" where
  "login_params = [(''response_type'', ''code''), (''state'', ''s1''), (''code_challenge'', ''mine''),
     (''redirect_uri'', ''http://localhost/cb'')]"

lemma login_parsed: "parse_pairs (unwrap_or [] (uri_query (rc_uri login_request))) = login_params"
  unfolding login_request_def inject_request_def login_params_def by code_simp

lemma login_matches: "broker_matches login_request (bk_authorize sample_broker)"
  unfolding login_request_def inject_request_def sample_broker_def by code_simp

lemma login_found:
  "find_pair login_params ''response_type'' = Some ''code''" "find_pair login_params ''state'' = Some ''s1''"
  "find_pair login_params ''redirect_uri'' = Some ''http://localhost/cb''"
  by (simp_all add: find_pair_def login_params_def)

lemma login_runs:
  "\<exists>cx' w'. authorize_apply sample_online_env sample_ij sample_broker login_request (sample_process 0, \<lambda>_. []) =
     ((None, cx'), w')"
  using login_matches
  by (simp add: authorize_apply_def login_parsed login_found Let_def pkce_generate_def random_urlsafe_def
      sample_online_env_def sample_oauth_env_def)

lemma login_uri: "uri_query (with_query sample_ij (rc_uri login_request) q) = Some q"
proof -
  have "split_once (CHR ''?'') (''/authorize?'' @ q) = Some (''/authorize'', q)"
    by simp
  then show ?thesis
    by (simp add: with_query_def sample_ij_def login_request_def)
qed

theorem challenge_is_marshals_witness:
  "\<exists>cx' w' pn. authorize_apply sample_online_env sample_ij sample_broker login_request (sample_process 0, \<lambda>_. []) =
     ((None, cx'), w') \<and> snd w' 0 = [pn] \<and> pn_state pn = ''s1''"
proof -
  obtain cx' w' where run: "authorize_apply sample_online_env sample_ij sample_broker login_request
      (sample_process 0, \<lambda>_. []) = ((None, cx'), w')"
    using login_runs by blast
  obtain older pn where pn: "snd w' (bk_id sample_broker) = older @ [pn]" "pn_state pn = ''s1''"
    using challenge_is_marshals [OF run login_matches login_found login_parsed [symmetric] login_uri] by blast
  have "length (snd w' 0) = 1"
    using run login_matches
    by (auto simp: authorize_apply_def login_parsed login_found Let_def pkce_generate_def random_urlsafe_def
        sample_online_env_def sample_oauth_env_def sample_broker_def remember_def unexpired_def max_pending_def)
  with pn have "older = []"
    by (simp add: sample_broker_def)
  with run pn show ?thesis
    by (auto simp: sample_broker_def)
qed

definition login_redirect :: response_parts where
  "login_redirect = \<lparr>rp_status = 302, rp_headers = [(''location'', [''http://localhost/cb?code=c1&state=s1''])], rp_body = Empty\<rparr>"

definition login_flow :: auth_code_flow where
  "login_flow = \<lparr>fl_url = ''/authorize'', fl_state = ''s1'', fl_verifier = ''v1'', fl_redirect_uri = ''http://localhost/cb''\<rparr>"


end
