(* ===== verification/Validate.thy ===== *)
theory Validate
  imports Build
begin

text \<open>
  \<open>crates/marshal-config/src/validate.rs\<close>: every diagnostic of a configuration, in the order it is found.
  The parser of header names is the one of \<open>build_env\<close>. A confidence that is no number cannot be
  written here; the code reports it like one that is out of range.
\<close>

section \<open>Diagnostics\<close>

datatype severity = SevError | SevWarning

record diagnostic =
  dg_severity :: severity
  dg_location :: string
  dg_message :: string

definition show_diagnostic :: "diagnostic \<Rightarrow> string" where
  "show_diagnostic d =
     (case dg_severity d of SevError \<Rightarrow> ''error'' | SevWarning \<Rightarrow> ''warning'')
     @ '': '' @ dg_location d @ '': '' @ dg_message d"

definition dash :: string where "dash = [CHR 0xE2, CHR 0x80, CHR 0x94]"

definition err :: "string \<Rightarrow> string \<Rightarrow> diagnostic list" where
  "err loc msg = [\<lparr>dg_severity = SevError, dg_location = loc, dg_message = msg\<rparr>]"

definition warn :: "string \<Rightarrow> string \<Rightarrow> diagnostic list" where
  "warn loc msg = [\<lparr>dg_severity = SevWarning, dg_location = loc, dg_message = msg\<rparr>]"

text \<open>An index in brackets.\<close>

definition idx :: "nat \<Rightarrow> string" where
  "idx i = ''['' @ show_nat i @ '']''"

text \<open>What a function finds in each entry of a list, with the index of the entry.\<close>

definition each :: "(nat \<Rightarrow> 'a \<Rightarrow> diagnostic list) \<Rightarrow> 'a list \<Rightarrow> diagnostic list" where
  "each f xs = concat (map (\<lambda>(i, x). f i x) (enumerate 0 xs))"

section \<open>Headers\<close>

definition check_header_filter :: "string \<Rightarrow> header_filter_spec option \<Rightarrow> diagnostic list" where
  "check_header_filter loc spec =
    (case spec of
       None \<Rightarrow> []
     | Some s \<Rightarrow>
         if hf_allow s \<noteq> [] \<and> hf_deny s \<noteq> []
         then err loc (''both `allow` and `deny` are set '' @ dash @ '' they are two different default ''
                @ ''behaviors (keep only what matches vs. drop only what matches), not two ''
                @ ''lists that combine. Use one or the other.'')
         else if hf_allow s = [] \<and> hf_deny s = []
         then err loc (''neither `allow` nor `deny` is set, so this header filter matches ''
                @ ''nothing and does nothing'')
         else [])"

definition check_request_headers ::
  "(string \<Rightarrow> string option) \<Rightarrow> string \<Rightarrow> request_transforms \<Rightarrow> diagnostic list" where
  "check_request_headers parse loc t =
     concat (map (\<lambda>(name, v).
       let loc = loc @ ''.request_transforms.set_headers.'' @ name in
       case parse name of
         None \<Rightarrow> err loc ''invalid header name''
       | Some n \<Rightarrow>
           if request_header_is_managed n
           then err loc (''`'' @ name @ ''` is managed by the proxy and cannot be set'')
           else if \<not> header_value_ok v then err loc ''invalid header value'' else [])
       (rqt_set_headers t))"

section \<open>The router\<close>

definition has_white_space :: "string \<Rightarrow> bool" where
  "has_white_space s \<longleftrightarrow> list_ex (contains s) white_space"

definition valid_host :: "string \<Rightarrow> bool" where
  "valid_host host \<longleftrightarrow>
    (let ip_literal = (parse_ip host \<noteq> None \<or>
           (case strip_prefix ''['' host of
              None \<Rightarrow> False
            | Some h \<Rightarrow> h \<noteq> [] \<and> last h = CHR '']'' \<and> parse_ip (butlast h) \<noteq> None)) in
     trim host \<noteq> [] \<and> host = trim host \<and> \<not> contains host ''://'' \<and> CHR ''/'' \<notin> set host \<and>
     \<not> has_white_space host \<and> (ip_literal \<or> CHR '':'' \<notin> set host))"

definition valid_listen_path :: "string \<Rightarrow> bool" where
  "valid_listen_path path \<longleftrightarrow>
     prefix ''/'' path \<and> CHR ''?'' \<notin> set path \<and> CHR ''#'' \<notin> set path"

definition valid_target_path :: "string \<Rightarrow> bool" where
  "valid_target_path path \<longleftrightarrow> prefix ''/'' path \<and> CHR ''#'' \<notin> set path"

definition listen_paths :: "llm_listen \<Rightarrow> string list" where
  "listen_paths l = (if ll_paths l = [] then [default_chat_path (ll_dialect l)] else ll_paths l)"

definition listen_keys :: "llm_listen \<Rightarrow> (string \<times> string) list" where
  "listen_keys l =
     concat (map (\<lambda>h. map (Pair (to_ascii_lowercase (trim_end_matches (CHR ''.'') h))) (listen_paths l)) (ll_hosts l))"

text \<open>The endpoints of one entry against those claimed so far, by whom.\<close>

fun claim_endpoints ::
  "string \<Rightarrow> nat \<Rightarrow> (string \<times> string) list \<Rightarrow> (string \<times> string \<rightharpoonup> nat)
     \<Rightarrow> diagnostic list \<times> (string \<times> string \<rightharpoonup> nat)" where
  "claim_endpoints loc i [] claimed = ([], claimed)"
| "claim_endpoints loc i (k # ks) claimed =
    (let (ds, claimed') = claim_endpoints loc i ks (claimed(k \<mapsto> i)) in
     ((case claimed k of
         None \<Rightarrow> []
       | Some first \<Rightarrow>
           err (loc @ ''.listen'' @ idx i)
             (''duplicates a host/path endpoint already claimed by listen'' @ idx first @ '' '' @ dash
              @ '' the inbound dialect would be ambiguous'')) @ ds, claimed'))"

fun check_listens ::
  "string \<Rightarrow> nat \<Rightarrow> llm_listen list \<Rightarrow> (string \<times> string \<rightharpoonup> nat) \<Rightarrow> diagnostic list" where
  "check_listens loc i [] claimed = []"
| "check_listens loc i (l # ls) claimed =
    (let at_listen = loc @ ''.listen'' @ idx i;
         (ds, claimed') = claim_endpoints loc i (listen_keys l) claimed in
     (if ll_hosts l = [] then err (at_listen @ ''.hosts'') (''empty '' @ dash @ '' a listen entry needs at least one host'')
      else [])
     @ each (\<lambda>j host. if valid_host host then []
          else err (at_listen @ ''.hosts'' @ idx j)
            (''must be a bare host name or IP literal, without a scheme, path, ''
             @ ''port, or surrounding whitespace'')) (ll_hosts l)
     @ each (\<lambda>j path. if valid_listen_path path then []
          else err (at_listen @ ''.paths'' @ idx j) ''must be an absolute path without a query or fragment'') (ll_paths l)
     @ ds @ check_listens loc (Suc i) ls claimed')"

definition check_target :: "string \<Rightarrow> string \<times> llm_model_target \<Rightarrow> diagnostic list" where
  "check_target loc nt =
    (case nt of (name, t) \<Rightarrow>
       let at_model = loc @ ''.models.'' @ name in
       (if trim name = [] \<or> name \<noteq> trim name
        then err (loc @ ''.models'') ''contains an empty model name or one with surrounding whitespace'' else [])
       @ (if trim (lmt_model t) = [] \<or> lmt_model t \<noteq> trim (lmt_model t)
          then err (at_model @ ''.model'') ''must be non-empty and have no surrounding whitespace'' else [])
       @ (if valid_host (lmt_host t) then []
          else err (at_model @ ''.host'') (''must be a bare host name or IP literal, without a scheme, path, ''
                 @ ''port, or surrounding whitespace''))
       @ (case lmt_path t of
            None \<Rightarrow> []
          | Some path \<Rightarrow>
              if valid_target_path path then []
              else err (at_model @ ''.path'') ''must be an absolute path without a fragment'')
       @ (if lmt_port t = 0 then err (at_model @ ''.port'') ''port 0 is not a usable origin'' else []))"

definition check_llm_router :: "string \<Rightarrow> llm_router_config option \<Rightarrow> diagnostic list" where
  "check_llm_router loc spec =
    (case spec of
       None \<Rightarrow> []
     | Some r \<Rightarrow>
         (if lrc_listen r = []
          then err loc (''`listen` is empty '' @ dash @ '' name at least one dialect and host the client CONNECTs to'')
          else [])
         @ check_listens loc 0 (lrc_listen r) Map.empty
         @ (if lrc_models r = []
            then err (loc @ ''.models'') (''empty '' @ dash @ '' map at least one inbound model name to an origin'')
            else [])
         @ concat (map (check_target loc) (lrc_models r))
         @ (if lrc_max_request_bytes r = 0
            then err (loc @ ''.max_request_bytes'') (''must be greater than zero '' @ dash
                   @ '' the router buffers the JSON body up to this cap'')
            else [])
         @ (if lrc_max_response_bytes r = 0
            then err (loc @ ''.max_response_bytes'') (''must be greater than zero '' @ dash
                   @ '' non-streaming JSON responses are buffered up to this cap for dialect translation'')
            else []))"

section \<open>Profiles\<close>

definition show_decision :: "decision \<Rightarrow> string" where
  "show_decision d = (case d of DecDeny \<Rightarrow> ''Deny'' | DecAllow \<Rightarrow> ''Allow'')"

definition show_cost :: "cost_class \<Rightarrow> string" where
  "show_cost c =
    (case c of Trivial \<Rightarrow> ''Trivial'' | Cheap \<Rightarrow> ''Cheap'' | Moderate \<Rightarrow> ''Moderate'' | Expensive \<Rightarrow> ''Expensive'')"

fun confidence_ok :: "layer_config \<Rightarrow> bool" where
  "confidence_ok (LJudge jc) \<longleftrightarrow>
     (case jc_provider jc of ProvSystemOne _ _ _ c \<Rightarrow> 0 \<le> c \<and> c \<le> 1 | _ \<Rightarrow> True)"
| "confidence_ok _ \<longleftrightarrow> True"

fun check_costs ::
  "string \<Rightarrow> nat \<Rightarrow> (cost_class \<times> string) option \<Rightarrow> layer_config list \<Rightarrow> diagnostic list" where
  "check_costs loc i highest [] = []"
| "check_costs loc i highest (layer # layers) =
    (let cost = layer_cost layer; place = loc @ ''.policy'' @ idx i in
     (if confidence_ok layer then []
      else err (place @ ''.provider.min_confidence'') ''must be a finite number between 0 and 1'')
     @ (case highest of
          Some (prev, prev_name) \<Rightarrow>
            if cost < prev
            then warn place (''`'' @ layer_name layer @ ''` ('' @ show_cost cost @ '') is placed after `'' @ prev_name
                   @ ''` ('' @ show_cost prev @ ''); ''
                   @ ''ordering layers cheapest-first avoids paying for the expensive one ''
                   @ ''on requests the cheap one could have decided'')
            else []
        | None \<Rightarrow> [])
     @ check_costs loc (Suc i)
         (case highest of
            Some (prev, _) \<Rightarrow> if prev < cost then Some (cost, layer_name layer) else highest
          | None \<Rightarrow> Some (cost, layer_name layer)) layers)"

fun allows_on_match :: "layer_config \<Rightarrow> bool" where
  "allows_on_match (LAllowlist _ on_match _) \<longleftrightarrow> on_match = OutAllow"
| "allows_on_match _ \<longleftrightarrow> False"

fun check_reachable :: "string \<Rightarrow> nat \<Rightarrow> layer_config list \<Rightarrow> diagnostic list" where
  "check_reachable loc i (a # b # rest) =
    (if allows_on_match a
     then warn (loc @ ''.policy'' @ idx (Suc i))
            (''`'' @ layer_name b @ ''` is unreachable for allowed requests: `'' @ layer_name a @ ''` at policy''
             @ idx i @ '' returns a terminal ALLOW on match, which stops the chain. Set that ''
             @ ''layer's `on_match` to `pass` if later layers should still run.'')
     else check_reachable loc (Suc i) (b # rest))"
| "check_reachable loc i _ = []"

definition check_body :: "string \<Rightarrow> nat \<Rightarrow> body_transform \<Rightarrow> diagnostic list" where
  "check_body loc i t =
    (let place = loc @ ''.response_transforms.body'' @ idx i in
     (case t of
        BtLimit m (OsReplace body) \<Rightarrow>
          if m < length body
          then err (place @ ''.on_oversize.body'')
                 (''replacement is '' @ show_nat (length body) @ '' bytes but max_bytes is '' @ show_nat m
                  @ ''; the replacement must fit the limit it enforces'')
          else []
      | _ \<Rightarrow> [])
     @ (if \<not> is_limit t
        then warn place (''`'' @ body_transform_name t @ ''` is not implemented; serve refuses this profile. ''
               @ ''Remove the transform to make the profile runnable'')
        else warn place (''`'' @ body_transform_name t @ ''` buffers the response body (up to ''
               @ show_nat (body_transform_max t) @ '' bytes), so responses it ''
               @ ''applies to cannot stream; scope it away from SSE and WebSocket endpoints'')))"

fun layer_bundles :: "layer_config \<Rightarrow> string list" where
  "layer_bundles (LAllowlist hs _ _) = hs_bundles hs"
| "layer_bundles (LDenylist hs) = hs_bundles hs"
| "layer_bundles _ = []"

definition check_bundles :: "config \<Rightarrow> string \<Rightarrow> nat \<Rightarrow> layer_config \<Rightarrow> diagnostic list" where
  "check_bundles cfg loc i layer =
     concat (map (\<lambda>b. if map_of (cf_bundles cfg) b \<noteq> None then []
       else err (loc @ ''.policy'' @ idx i) (''references unknown bundle `'' @ b @ ''`'')) (layer_bundles layer))"

text \<open>At most one bundle of the list may set a thing; the first to do so is remembered.\<close>

definition single ::
  "string \<Rightarrow> string \<Rightarrow> string \<Rightarrow> bool \<Rightarrow> string option \<Rightarrow> string \<Rightarrow> diagnostic list \<times> string option" where
  "single loc what why sets first name =
    (if \<not> sets then ([], first)
     else
       ((case first of
           None \<Rightarrow> []
         | Some f \<Rightarrow> err loc (''both `'' @ f @ ''` and `'' @ name @ ''` set '' @ what @ '' '' @ dash @ '' at ''
             @ ''most one bundle in the list may'' @ why)),
        (case first of None \<Rightarrow> Some name | Some f \<Rightarrow> Some f)))"

fun check_transforms ::
  "config \<Rightarrow> string \<Rightarrow> string option \<Rightarrow> string option \<Rightarrow> string option \<Rightarrow> string list \<Rightarrow> diagnostic list" where
  "check_transforms cfg loc rq rs rt [] = []"
| "check_transforms cfg loc rq rs rt (name # names) =
    (case map_of (cf_transforms cfg) name of
       None \<Rightarrow>
         err loc (''references unknown transform bundle `'' @ name @ ''`'') @ check_transforms cfg loc rq rs rt names
     | Some b \<Rightarrow>
         (let lists = '', since combining two allowlists silently would be a guess, not a decision'';
              (d1, rq') = single loc ''request_transforms.headers'' lists (rqt_headers (tb_request b) \<noteq> None) rq name;
              (d2, rs') = single loc ''response_transforms.headers'' lists (rst_headers (tb_response b) \<noteq> None) rs name;
              (d3, rt') = single loc ''request_transforms.llm_router''
                ''; combining two mapping tables silently would be a guess, not a decision''
                (rqt_llm_router (tb_request b) \<noteq> None) rt name in
          d1 @ d2 @ d3 @ check_transforms cfg loc rq' rs' rt' names))"

definition has_inline :: "profile \<Rightarrow> bool" where
  "has_inline pf \<longleftrightarrow>
     rqt_headers (pf_request_transforms pf) \<noteq> None \<or> rqt_set_headers (pf_request_transforms pf) \<noteq> [] \<or>
     rqt_secrets (pf_request_transforms pf) \<noteq> [] \<or> rqt_llm_router (pf_request_transforms pf) \<noteq> None \<or>
     rst_headers (pf_response_transforms pf) \<noteq> None \<or> rst_body (pf_response_transforms pf) \<noteq> []"

definition check_profile ::
  "(string \<Rightarrow> string option) \<Rightarrow> config \<Rightarrow> string \<Rightarrow> profile \<Rightarrow> diagnostic list" where
  "check_profile parse cfg loc pf =
     check_request_headers parse loc (pf_request_transforms pf)
     @ check_llm_router (loc @ ''.request_transforms.llm_router'') (rqt_llm_router (pf_request_transforms pf))
     @ check_header_filter (loc @ ''.request_transforms.headers'') (rqt_headers (pf_request_transforms pf))
     @ check_header_filter (loc @ ''.response_transforms.headers'') (rst_headers (pf_response_transforms pf))
     @ (if pf_default_action pf = DecAllow \<and> \<not> pf_i_understand pf
        then err (loc @ ''.default_action'')
               (''default_action is `allow`, which disables default-deny for every ''
                @ ''request that reaches the end of the chain. Set ''
                @ ''`i_understand_this_is_allow_by_default: true` to confirm this is deliberate.'')
        else [])
     @ (if pf_mode pf = Warn
        then warn (loc @ ''.mode'')
               (''this profile is in WARN mode: refusals are recorded but every ''
                @ ''request is forwarded. Audit records carry `would_deny: true`; use ''
                @ ''them to build the allowlist, then set `mode: enforce`.'')
        else [])
     @ (if pf_policy pf = []
        then warn (loc @ ''.policy'') (''empty policy chain; every request falls through to default_action (`''
               @ show_decision (pf_default_action pf) @ ''`)'')
        else [])
     @ check_costs loc 0 None (pf_policy pf)
     @ check_reachable loc 0 (pf_policy pf)
     @ each (check_body loc) (rst_body (pf_response_transforms pf))
     @ each (check_bundles cfg loc) (pf_policy pf)
     @ concat (map (\<lambda>b. if map_of (cf_bind_groups cfg) b \<noteq> None then []
          else err (loc @ ''.sandbox.bind_groups'') (''references unknown bind group `'' @ b @ ''`''))
          (sb_bind_groups (pf_sandbox pf)))
     @ (if pf_transforms pf = [] then []
        else
          (if has_inline pf
           then err (loc @ ''.transforms'') (''set alongside request_transforms/response_transforms '' @ dash
                  @ '' use one or the other, not both'')
           else [])
          @ check_transforms cfg (loc @ ''.transforms'') None None None (pf_transforms pf))"

section \<open>Identities\<close>

definition bound_ports :: "config \<Rightarrow> nat list" where
  "bound_ports cfg =
     (case ls_explicit (cf_listeners cfg) of
        None \<Rightarrow> []
      | Some e \<Rightarrow> List.map_filter (\<lambda>addr. parse_uint 65535 (last (split_on (CHR '':'') addr))) (el_listen e))"

definition check_peer :: "string \<Rightarrow> nat \<Rightarrow> peer_cred_entry \<Rightarrow> diagnostic list" where
  "check_peer loc i e =
    (let place = loc @ ''.map'' @ idx i in
     (if pc_uid e \<noteq> None \<and> pc_username e \<noteq> None
      then err place (''`uid` and `username` both set '' @ dash @ '' they resolve to the same thing, so name only one'')
      else [])
     @ (if pc_gid e \<noteq> None \<and> pc_groupname e \<noteq> None
        then err place (''`gid` and `groupname` both set '' @ dash @ '' they resolve to the same thing, so name only one'')
        else [])
     @ (if pc_uid e = None \<and> pc_username e = None \<and> pc_gid e = None \<and> pc_groupname e = None \<and> pc_cgroup e = None
        then err place (''none of `uid`, `username`, `gid`, `groupname`, `cgroup` is set '' @ dash
               @ '' this entry can never match anything'')
        else []))"

fun resolver_profiles :: "resolver_config \<Rightarrow> string list" where
  "resolver_profiles (RcProxyAuth es) = map pa_profile es"
| "resolver_profiles (RcSourceIp es) = map si_profile es"
| "resolver_profiles (RcPeerCred _ es) = map pc_profile es"
| "resolver_profiles RcRun = []"
| "resolver_profiles (RcListenerPort es) = map lp_profile es"

fun check_entries :: "config \<Rightarrow> string \<Rightarrow> resolver_config \<Rightarrow> diagnostic list" where
  "check_entries cfg loc (RcPeerCred enrich es) =
     (if \<not> enrich \<and> list_ex (\<lambda>e. pc_cgroup e \<noteq> None) es
      then err (loc @ ''.enrich'') (''this resolver matches on `cgroup` but has `enrich: false`, ''
             @ ''so the cgroup is never read and those entries can never match'')
      else [])
     @ (if \<not> enrich \<and> list_ex (\<lambda>e. pc_gid e \<noteq> None \<or> pc_groupname e \<noteq> None) es
        then warn (loc @ ''.enrich'') (''this resolver matches on `gid`/`groupname` with ''
               @ ''`enrich: false`: the kernel supplies gid directly for a Unix ''
               @ ''socket connection, but a TCP connection's gid can only be ''
               @ ''read via `enrich: true` '' @ dash @ '' without it, these entries only ''
               @ ''ever match over the Unix listener'')
        else [])
     @ each (check_peer loc) es"
| "check_entries cfg loc (RcListenerPort es) =
     each (\<lambda>i e. if unat (lp_port e) \<in> set (bound_ports cfg) then []
       else warn (loc @ ''.map'' @ idx i @ ''.port'')
              (''port '' @ show_nat (unat (lp_port e)) @ '' is not one of listeners.explicit.listen's addresses (['' @
               join '', '' (map show_nat (bound_ports cfg)) @ '']); this entry can never match'')) es"
| "check_entries cfg loc _ = []"

definition check_resolver :: "config \<Rightarrow> nat \<Rightarrow> resolver_config \<Rightarrow> diagnostic list" where
  "check_resolver cfg i r =
    (let loc = ''identities.resolvers'' @ idx i in
     check_entries cfg loc r
     @ concat (map (\<lambda>p. if map_of (cf_profiles cfg) p \<noteq> None then []
          else err loc (''names unknown profile `'' @ p @ ''`'')) (resolver_profiles r)))"

definition check_bundle :: "(string \<Rightarrow> string option) \<Rightarrow> string \<times> transform_bundle \<Rightarrow> diagnostic list" where
  "check_bundle parse nb =
    (case nb of (name, b) \<Rightarrow>
       let loc = ''transforms.'' @ name in
       check_request_headers parse loc (tb_request b)
       @ check_llm_router (loc @ ''.request_transforms.llm_router'') (rqt_llm_router (tb_request b))
       @ check_header_filter (loc @ ''.request_transforms.headers'') (rqt_headers (tb_request b))
       @ check_header_filter (loc @ ''.response_transforms.headers'') (rst_headers (tb_response b)))"

definition validate :: "(string \<Rightarrow> string option) \<Rightarrow> config \<Rightarrow> diagnostic list" where
  "validate parse cfg =
     check_profile parse cfg ''profile'' (cf_profile cfg)
     @ concat (map (\<lambda>(name, pf). check_profile parse cfg (''profiles.'' @ name) pf) (cf_profiles cfg))
     @ concat (map (check_bundle parse) (cf_transforms cfg))
     @ (case ls_explicit (cf_listeners cfg) of
          Some e \<Rightarrow>
            if el_listen e = []
            then err ''listeners.explicit.listen'' (''empty '' @ dash @ '' at least one address is needed, or omit `explicit:` entirely ''
                   @ ''to use its default'')
            else []
        | None \<Rightarrow> [])
     @ each (check_resolver cfg) (id_resolvers (cf_identities cfg))
     @ (case id_unidentified (cf_identities cfg) of
          None \<Rightarrow> []
        | Some u \<Rightarrow>
            (case un_profile u of
               None \<Rightarrow> []
             | Some name \<Rightarrow>
                 if map_of (cf_profiles cfg) name \<noteq> None then []
                 else err ''identities.unidentified.profile'' (''unknown profile `'' @ name @ ''`'')))"

definition has_errors :: "diagnostic list \<Rightarrow> bool" where
  "has_errors ds \<longleftrightarrow> list_ex (\<lambda>d. dg_severity d = SevError) ds"

section \<open>What a configuration without errors is\<close>

definition filter_ok :: "header_filter_spec option \<Rightarrow> bool" where
  "filter_ok spec \<longleftrightarrow> (case spec of None \<Rightarrow> True | Some s \<Rightarrow> (hf_allow s = []) \<noteq> (hf_deny s = []))"

definition settable :: "(string \<Rightarrow> string option) \<Rightarrow> string \<times> string \<Rightarrow> bool" where
  "settable parse nv \<longleftrightarrow>
     (case parse (fst nv) of None \<Rightarrow> False | Some n \<Rightarrow> \<not> request_header_is_managed n \<and> header_value_ok (snd nv))"

definition target_ok :: "string \<times> llm_model_target \<Rightarrow> bool" where
  "target_ok nt \<longleftrightarrow> trim (fst nt) \<noteq> [] \<and> fst nt = trim (fst nt) \<and>
     trim (lmt_model (snd nt)) \<noteq> [] \<and> lmt_model (snd nt) = trim (lmt_model (snd nt)) \<and> valid_host (lmt_host (snd nt)) \<and>
     (case lmt_path (snd nt) of None \<Rightarrow> True | Some path \<Rightarrow> valid_target_path path) \<and> lmt_port (snd nt) \<noteq> 0"

definition listen_ok :: "llm_listen \<Rightarrow> bool" where
  "listen_ok l \<longleftrightarrow> ll_hosts l \<noteq> [] \<and> list_all valid_host (ll_hosts l) \<and> list_all valid_listen_path (ll_paths l)"

definition router_ok :: "llm_router_config option \<Rightarrow> bool" where
  "router_ok spec \<longleftrightarrow>
    (case spec of
       None \<Rightarrow> True
     | Some r \<Rightarrow>
         lrc_listen r \<noteq> [] \<and> lrc_models r \<noteq> [] \<and> 0 < lrc_max_request_bytes r \<and> 0 < lrc_max_response_bytes r \<and>
         list_all target_ok (lrc_models r) \<and>
         list_all listen_ok (lrc_listen r) \<and>
         distinct (concat (map listen_keys (lrc_listen r))))"

text \<open>Each thing is set by at most one bundle of the list, and all of them exist.\<close>

definition bundles_ok :: "config \<Rightarrow> string list \<Rightarrow> bool" where
  "bundles_ok cfg names \<longleftrightarrow>
     list_all (\<lambda>n. map_of (cf_transforms cfg) n \<noteq> None) names \<and>
     (\<forall>sets \<in> {\<lambda>b. rqt_headers (tb_request b) \<noteq> None, \<lambda>b. rst_headers (tb_response b) \<noteq> None,
                \<lambda>b. rqt_llm_router (tb_request b) \<noteq> None}.
        length (filter (\<lambda>n. \<exists>b. map_of (cf_transforms cfg) n = Some b \<and> sets b) names) \<le> 1)"

fun replacement_fits :: "body_transform \<Rightarrow> bool" where
  "replacement_fits (BtLimit m (OsReplace body)) \<longleftrightarrow> length body \<le> m"
| "replacement_fits _ \<longleftrightarrow> True"

definition profile_ok :: "(string \<Rightarrow> string option) \<Rightarrow> config \<Rightarrow> profile \<Rightarrow> bool" where
  "profile_ok parse cfg pf \<longleftrightarrow>
     (pf_default_action pf = DecAllow \<longrightarrow> pf_i_understand pf) \<and>
     list_all (settable parse) (rqt_set_headers (pf_request_transforms pf)) \<and>
     router_ok (rqt_llm_router (pf_request_transforms pf)) \<and>
     filter_ok (rqt_headers (pf_request_transforms pf)) \<and> filter_ok (rst_headers (pf_response_transforms pf)) \<and>
     list_all replacement_fits (rst_body (pf_response_transforms pf)) \<and>
     list_all (\<lambda>l. confidence_ok l \<and> list_all (\<lambda>b. map_of (cf_bundles cfg) b \<noteq> None) (layer_bundles l)) (pf_policy pf) \<and>
     list_all (\<lambda>b. map_of (cf_bind_groups cfg) b \<noteq> None) (sb_bind_groups (pf_sandbox pf)) \<and>
     (pf_transforms pf \<noteq> [] \<longrightarrow> \<not> has_inline pf \<and> bundles_ok cfg (pf_transforms pf))"

definition transform_bundle_ok :: "(string \<Rightarrow> string option) \<Rightarrow> transform_bundle \<Rightarrow> bool" where
  "transform_bundle_ok parse b \<longleftrightarrow>
     list_all (settable parse) (rqt_set_headers (tb_request b)) \<and> router_ok (rqt_llm_router (tb_request b)) \<and>
     filter_ok (rqt_headers (tb_request b)) \<and> filter_ok (rst_headers (tb_response b))"

definition peer_ok :: "peer_cred_entry \<Rightarrow> bool" where
  "peer_ok e \<longleftrightarrow> \<not> (pc_uid e \<noteq> None \<and> pc_username e \<noteq> None) \<and> \<not> (pc_gid e \<noteq> None \<and> pc_groupname e \<noteq> None) \<and>
     (pc_uid e \<noteq> None \<or> pc_username e \<noteq> None \<or> pc_gid e \<noteq> None \<or> pc_groupname e \<noteq> None \<or> pc_cgroup e \<noteq> None)"

fun resolver_ok :: "resolver_config \<Rightarrow> bool" where
  "resolver_ok (RcPeerCred enrich es) \<longleftrightarrow>
     (enrich \<or> list_all (\<lambda>e. pc_cgroup e = None) es) \<and> list_all peer_ok es"
| "resolver_ok _ \<longleftrightarrow> True"

definition config_ok :: "(string \<Rightarrow> string option) \<Rightarrow> config \<Rightarrow> bool" where
  "config_ok parse cfg \<longleftrightarrow>
     list_all (profile_ok parse cfg) (cf_profile cfg # map snd (cf_profiles cfg)) \<and>
     list_all (transform_bundle_ok parse) (map snd (cf_transforms cfg)) \<and>
     (\<forall>e. ls_explicit (cf_listeners cfg) = Some e \<longrightarrow> el_listen e \<noteq> []) \<and>
     list_all (\<lambda>r. resolver_ok r \<and> list_all (\<lambda>p. map_of (cf_profiles cfg) p \<noteq> None) (resolver_profiles r))
       (id_resolvers (cf_identities cfg)) \<and>
     (\<forall>u p. id_unidentified (cf_identities cfg) = Some u \<and> un_profile u = Some p \<longrightarrow> map_of (cf_profiles cfg) p \<noteq> None)"

section \<open>Validation finds exactly that\<close>

named_theorems errs \<open>when a check reports an error\<close>

lemma has_errors_append [errs]: "has_errors (a @ b) \<longleftrightarrow> has_errors a \<or> has_errors b"
  by (simp add: has_errors_def)

lemma has_errors_Nil [errs]: "\<not> has_errors []"
  by (simp add: has_errors_def)

lemma has_errors_err [errs]: "has_errors (err loc msg)"
  by (simp add: has_errors_def err_def)

lemma has_errors_warn [errs]: "\<not> has_errors (warn loc msg)"
  by (simp add: has_errors_def warn_def)

lemma missing_errors [errs]:
  "has_errors (concat (map (\<lambda>b. if P b then [] else err (a b) (m b)) xs)) \<longleftrightarrow> \<not> list_all P xs"
  by (induction xs) (auto simp: errs)

lemma has_errors_concat: "has_errors (concat dss) \<longleftrightarrow> (\<exists>ds \<in> set dss. has_errors ds)"
  by (auto simp: has_errors_def list_ex_iff)

lemma has_errors_if [errs]: "has_errors (if b then x else y) \<longleftrightarrow> (if b then has_errors x else has_errors y)"
  by simp

lemma has_errors_each: "has_errors (each f xs) \<longleftrightarrow> (\<exists>i < length xs. has_errors (f i (xs ! i)))"
  by (simp add: each_def has_errors_concat Bex_def in_set_enumerate_eq)

lemma each_uniform: "(\<And>i x. has_errors (f i x) \<longleftrightarrow> P x) \<Longrightarrow> has_errors (each f xs) \<longleftrightarrow> (\<exists>x \<in> set xs. P x)"
  by (auto simp: has_errors_each Bex_def in_set_conv_nth)

lemma header_filter_errors [errs]: "has_errors (check_header_filter loc spec) \<longleftrightarrow> \<not> filter_ok spec"
  by (auto simp: check_header_filter_def filter_ok_def errs split: option.splits)

lemma request_headers_errors [errs]:
  "has_errors (check_request_headers parse loc t) \<longleftrightarrow> \<not> list_all (settable parse) (rqt_set_headers t)"
proof -
  have "has_errors (case nv of (name, v) \<Rightarrow>
       let loc = loc @ ''.request_transforms.set_headers.'' @ name in
       case parse name of
         None \<Rightarrow> err loc ''invalid header name''
       | Some n \<Rightarrow>
           if request_header_is_managed n
           then err loc (''`'' @ name @ ''` is managed by the proxy and cannot be set'')
           else if \<not> header_value_ok v then err loc ''invalid header value'' else []) \<longleftrightarrow> \<not> settable parse nv" for nv
    by (cases nv; cases "parse (fst nv)") (simp_all add: settable_def errs Let_def)
  then show ?thesis
    by (simp add: check_request_headers_def has_errors_concat list_all_iff)
qed

lemma claim_errors:
  assumes "claim_endpoints loc i ks claimed = (ds, claimed')"
  shows "(has_errors ds \<longleftrightarrow> \<not> (distinct ks \<and> set ks \<inter> dom claimed = {})) \<and> dom claimed' = dom claimed \<union> set ks"
  using assms
proof (induction ks arbitrary: claimed ds)
  case (Cons k ks)
  obtain ds0 where rest: "claim_endpoints loc i ks (claimed(k \<mapsto> i)) = (ds0, claimed')"
    using Cons.prems by (auto split: prod.splits)
  have ih: "has_errors ds0 \<longleftrightarrow> \<not> (distinct ks \<and> set ks \<inter> insert k (dom claimed) = {})"
      "dom claimed' = insert k (dom claimed) \<union> set ks"
    using Cons.IH [OF rest] by (simp_all del: fun_upd_apply)
  have "has_errors ds \<longleftrightarrow> claimed k \<noteq> None \<or> has_errors ds0"
    using Cons.prems rest by (cases "claimed k") (auto simp: errs)
  with ih show ?case
    by auto
qed (simp add: errs)

lemma listens_errors:
  "has_errors (check_listens loc i ls claimed) \<longleftrightarrow>
     \<not> (list_all listen_ok ls \<and> distinct (concat (map listen_keys ls)) \<and>
        set (concat (map listen_keys ls)) \<inter> dom claimed = {})"
proof (induction ls arbitrary: i claimed)
  case (Cons l ls)
  obtain ds claimed' where claim: "claim_endpoints loc i (listen_keys l) claimed = (ds, claimed')"
    by fastforce
  have hosts: "has_errors (each (\<lambda>j host. if valid_host host then [] else err (a j) (b j)) xs) \<longleftrightarrow> \<not> list_all valid_host xs"
    for a b xs
    by (subst each_uniform [where P = "\<lambda>x. \<not> valid_host x"]) (auto simp: errs list_all_iff)
  have paths: "has_errors (each (\<lambda>j path. if valid_listen_path path then [] else err (a j) (b j)) xs) \<longleftrightarrow>
      \<not> list_all valid_listen_path xs" for a b xs
    by (subst each_uniform [where P = "\<lambda>x. \<not> valid_listen_path x"]) (auto simp: errs list_all_iff)
  show ?case
    using claim_errors [OF claim]
    by (auto simp: claim Cons.IH errs hosts paths listen_ok_def Let_def)
qed (simp add: errs)

lemma target_errors [errs]: "has_errors (check_target loc nt) \<longleftrightarrow> \<not> target_ok nt"
  by (cases nt) (auto simp: check_target_def target_ok_def errs Let_def split: option.splits)

lemma router_errors [errs]: "has_errors (check_llm_router loc spec) \<longleftrightarrow> \<not> router_ok spec"
proof (cases spec)
  case (Some r)
  then show ?thesis
    by (auto simp: check_llm_router_def router_ok_def errs has_errors_concat listens_errors list_all_iff)
qed (simp add: check_llm_router_def router_ok_def errs)

lemma costs_errors [errs]: "has_errors (check_costs loc i highest layers) \<longleftrightarrow> \<not> list_all confidence_ok layers"
  by (induction layers arbitrary: i highest) (auto simp: errs Let_def split: option.splits)

lemma reachable_errors [errs]: "\<not> has_errors (check_reachable loc i layers)"
  by (induction loc i layers rule: check_reachable.induct) (auto simp: errs)

lemma body_errors: "has_errors (check_body loc i t) \<longleftrightarrow> \<not> replacement_fits t"
  by (cases t rule: replacement_fits.cases) (auto simp: check_body_def errs Let_def)

lemma bundles_errors:
  "has_errors (check_bundles cfg loc i l) \<longleftrightarrow> \<not> list_all (\<lambda>b. map_of (cf_bundles cfg) b \<noteq> None) (layer_bundles l)"
  by (simp add: check_bundles_def errs)

lemma each_body_errors [errs]: "has_errors (each (check_body loc) ts) \<longleftrightarrow> \<not> list_all replacement_fits ts"
  by (subst each_uniform [OF body_errors]) (simp add: list_all_iff)

lemma each_bundles_errors [errs]:
  "has_errors (each (check_bundles cfg loc) ls) \<longleftrightarrow>
     \<not> list_all (\<lambda>l. list_all (\<lambda>b. map_of (cf_bundles cfg) b \<noteq> None) (layer_bundles l)) ls"
  by (subst each_uniform [OF bundles_errors]) (simp add: list_all_iff)

lemma peer_errors: "has_errors (check_peer loc i e) \<longleftrightarrow> \<not> peer_ok e"
  by (auto simp: check_peer_def peer_ok_def errs Let_def)

lemma each_peer_errors [errs]: "has_errors (each (check_peer loc) es) \<longleftrightarrow> \<not> list_all peer_ok es"
  by (subst each_uniform [OF peer_errors]) (simp add: list_all_iff)

lemma each_ports_errors [errs]:
  "\<not> has_errors (each (\<lambda>i e. if P e then [] else warn (a i e) (b i e)) es)"
  by (simp add: has_errors_each errs)

lemma entries_errors [errs]: "has_errors (check_entries cfg loc r) \<longleftrightarrow> \<not> resolver_ok r"
  by (cases r) (auto simp: errs list_ex_iff list_all_iff)

definition resolver_fine :: "config \<Rightarrow> resolver_config \<Rightarrow> bool" where
  "resolver_fine cfg r \<longleftrightarrow> resolver_ok r \<and> list_all (\<lambda>p. map_of (cf_profiles cfg) p \<noteq> None) (resolver_profiles r)"

lemma resolver_errors: "has_errors (check_resolver cfg i r) \<longleftrightarrow> \<not> resolver_fine cfg r"
  by (simp add: check_resolver_def resolver_fine_def errs Let_def)

text \<open>The count of those that set a thing, with the one found before.\<close>

definition setters :: "config \<Rightarrow> (transform_bundle \<Rightarrow> bool) \<Rightarrow> string option \<Rightarrow> string list \<Rightarrow> nat" where
  "setters cfg sets first names = (if first = None then 0 else 1) +
     length (filter (\<lambda>n. \<exists>b. map_of (cf_transforms cfg) n = Some b \<and> sets b) names)"

lemma setters_step:
  assumes "map_of (cf_transforms cfg) n = Some b" and "single loc what why (sets b) first n = (ds, first')"
  shows "1 < setters cfg sets first (n # names) \<longleftrightarrow> has_errors ds \<or> 1 < setters cfg sets first' names"
  using assms by (cases "sets b"; cases first) (auto simp: single_def setters_def errs)

lemma transforms_errors:
  "has_errors (check_transforms cfg loc rq rs rt names) \<longleftrightarrow>
     \<not> (list_all (\<lambda>n. map_of (cf_transforms cfg) n \<noteq> None) names) \<or>
     1 < setters cfg (\<lambda>b. rqt_headers (tb_request b) \<noteq> None) rq names \<or>
     1 < setters cfg (\<lambda>b. rst_headers (tb_response b) \<noteq> None) rs names \<or>
     1 < setters cfg (\<lambda>b. rqt_llm_router (tb_request b) \<noteq> None) rt names"
proof (induction names arbitrary: rq rs rt)
  case (Cons n names)
  show ?case
  proof (cases "map_of (cf_transforms cfg) n")
    case None
    then show ?thesis
      by (simp add: errs)
  next
    case (Some b)
    let ?lists = "'', since combining two allowlists silently would be a guess, not a decision''"
    let ?tables = "''; combining two mapping tables silently would be a guess, not a decision''"
    obtain d1 rq' where d1: "single loc ''request_transforms.headers'' ?lists (rqt_headers (tb_request b) \<noteq> None) rq n
        = (d1, rq')"
      by fastforce
    obtain d2 rs' where d2: "single loc ''response_transforms.headers'' ?lists (rst_headers (tb_response b) \<noteq> None) rs n
        = (d2, rs')"
      by fastforce
    obtain d3 rt' where d3: "single loc ''request_transforms.llm_router'' ?tables (rqt_llm_router (tb_request b) \<noteq> None) rt n
        = (d3, rt')"
      by fastforce
    have "has_errors (check_transforms cfg loc rq rs rt (n # names)) \<longleftrightarrow>
        has_errors d1 \<or> has_errors d2 \<or> has_errors d3 \<or> has_errors (check_transforms cfg loc rq' rs' rt' names)"
      by (simp only: check_transforms.simps Some option.case Let_def d1 d2 d3 prod.case has_errors_append)
    with Some show ?thesis
      unfolding Cons.IH
        setters_step [where sets = "\<lambda>b. rqt_headers (tb_request b) \<noteq> None", OF Some d1]
        setters_step [where sets = "\<lambda>b. rst_headers (tb_response b) \<noteq> None", OF Some d2]
        setters_step [where sets = "\<lambda>b. rqt_llm_router (tb_request b) \<noteq> None", OF Some d3]
      by auto
  qed
qed (simp add: errs setters_def)

lemma bundle_list_errors [errs]:
  "has_errors (check_transforms cfg loc None None None names) \<longleftrightarrow> \<not> bundles_ok cfg names"
  by (auto simp: transforms_errors bundles_ok_def setters_def)

lemma profile_errors: "has_errors (check_profile parse cfg loc pf) \<longleftrightarrow> \<not> profile_ok parse cfg pf"
proof -
  have "list_all (\<lambda>l. confidence_ok l \<and> list_all (\<lambda>b. map_of (cf_bundles cfg) b \<noteq> None) (layer_bundles l)) ls \<longleftrightarrow>
      list_all confidence_ok ls \<and>
      list_all (\<lambda>l. list_all (\<lambda>b. map_of (cf_bundles cfg) b \<noteq> None) (layer_bundles l)) ls" for ls
    by (auto simp: list_all_iff)
  then show ?thesis
    unfolding check_profile_def profile_ok_def errs
    by (simp add: errs) blast
qed

lemma bundle_errors: "has_errors (check_bundle parse nb) \<longleftrightarrow> \<not> transform_bundle_ok parse (snd nb)"
  by (cases nb) (auto simp: check_bundle_def transform_bundle_ok_def errs Let_def)

lemma validation_is_exact_core: "\<not> has_errors (validate parse cfg) \<longleftrightarrow> config_ok parse cfg"
proof -
  have resolvers: "has_errors (each (check_resolver cfg) rs) \<longleftrightarrow> \<not> list_all (resolver_fine cfg) rs" for rs
    by (subst each_uniform [OF resolver_errors]) (simp add: list_all_iff)
  have fine: "list_all (\<lambda>r. resolver_ok r \<and> list_all (\<lambda>p. map_of (cf_profiles cfg) p \<noteq> None) (resolver_profiles r)) rs
      \<longleftrightarrow> list_all (resolver_fine cfg) rs" for rs
    by (simp add: resolver_fine_def [abs_def])
  have profiles: "has_errors (concat (map (\<lambda>(name, pf). check_profile parse cfg (''profiles.'' @ name) pf) ps)) \<longleftrightarrow>
      \<not> list_all (profile_ok parse cfg) (map snd ps)" for ps
    by (induction ps) (auto simp: errs profile_errors)
  have bundles: "has_errors (concat (map (check_bundle parse) bs)) \<longleftrightarrow> \<not> list_all (transform_bundle_ok parse) (map snd bs)" for bs
    by (induction bs) (auto simp: errs bundle_errors)
  have listener: "has_errors (case ls_explicit (cf_listeners cfg) of
          Some e \<Rightarrow> if el_listen e = [] then err a b else []
        | None \<Rightarrow> []) \<longleftrightarrow> \<not> (\<forall>e. ls_explicit (cf_listeners cfg) = Some e \<longrightarrow> el_listen e \<noteq> [])" for a b
    by (auto simp: errs split: option.splits)
  have unidentified: "has_errors (case id_unidentified (cf_identities cfg) of
          None \<Rightarrow> []
        | Some u \<Rightarrow> (case un_profile u of None \<Rightarrow> []
            | Some name \<Rightarrow> if map_of (cf_profiles cfg) name \<noteq> None then [] else err (a name) (b name))) \<longleftrightarrow>
      \<not> (\<forall>u p. id_unidentified (cf_identities cfg) = Some u \<and> un_profile u = Some p \<longrightarrow> map_of (cf_profiles cfg) p \<noteq> None)"
    for a b
    by (auto simp: errs split: option.splits)
  show ?thesis
    unfolding validate_def config_ok_def has_errors_append resolvers fine profiles bundles listener unidentified profile_errors
    by auto
qed

text \<open>
  C20 (type). A configuration is reported to have no error exactly when it is well formed: no profile
  defaults to allow without saying that this is meant, every name (of a bundle, a bind group, a transform
  bundle, a profile) exists, every header to be set can be set, every filter is one of the two kinds, every
  router has unambiguous endpoints and usable origins, nothing is set by two bundles at once, and no entry
  of a resolver contradicts itself. Warnings never decide it.
\<close>

theorem validation_is_exact: "\<not> has_errors (validate parse cfg) \<longleftrightarrow> config_ok parse cfg"
  by (rule validation_is_exact_core)

section \<open>A valid configuration builds\<close>

lemma valid_filter_builds: "filter_ok spec \<Longrightarrow> \<exists>ms. opt_filter spec name side = Inr ms"
  by (auto simp: filter_ok_def opt_filter_def header_filter_mode_of_def split: option.splits)

lemma settable_headers_parse: "list_all (settable parse) hs \<Longrightarrow> \<exists>parsed. parse_set_headers parse name hs = Inr parsed"
  by (induction hs) (auto simp: settable_def split: option.splits)

lemma settable_merged:
  "list_all (settable parse) m \<Longrightarrow> list_all (settable parse) hs \<Longrightarrow>
     list_all (settable parse) (foldl (\<lambda>m (k, v). map_insert k v m) m hs)"
proof (induction hs arbitrary: m)
  case (Cons kv hs)
  obtain k v where kv: "kv = (k, v)"
    by fastforce
  have "list_all (settable parse) (map_insert k v m)"
    using Cons.prems kv set_map_insert [of k v m] by (auto simp: list_all_iff)
  with Cons kv show ?case
    by simp
qed simp

definition merged_ok :: "(string \<Rightarrow> string option) \<Rightarrow> request_transforms \<times> response_transforms \<Rightarrow> bool" where
  "merged_ok parse acc \<longleftrightarrow> list_all (settable parse) (rqt_set_headers (fst acc)) \<and>
     filter_ok (rqt_headers (fst acc)) \<and> filter_ok (rst_headers (snd acc))"

lemma absorb_bundle_ok: "transform_bundle_ok parse b \<Longrightarrow> merged_ok parse acc \<Longrightarrow> merged_ok parse (absorb_bundle b acc)"
  by (cases acc) (auto simp: merged_ok_def absorb_bundle_def transform_bundle_ok_def settable_merged)

lemma absorb_bundles_ok:
  "list_all (\<lambda>n. map_of (cf_transforms cfg) n \<noteq> None) names \<Longrightarrow>
     list_all (transform_bundle_ok parse) (map snd (cf_transforms cfg)) \<Longrightarrow> merged_ok parse acc \<Longrightarrow>
     \<exists>acc'. absorb_bundles cfg names acc = Inr acc' \<and> merged_ok parse acc'"
proof (induction names arbitrary: acc)
  case (Cons n names)
  then obtain b where b: "map_of (cf_transforms cfg) n = Some b"
    by auto
  then have "transform_bundle_ok parse b"
    using Cons.prems(2) map_of_SomeD [OF b] by (force simp: list_all_iff)
  from Cons.IH [OF _ Cons.prems(2) absorb_bundle_ok [OF this Cons.prems(3)]] Cons.prems(1) b show ?case
    by simp
qed simp

lemma valid_profile_resolves:
  assumes "profile_ok parse cfg pf" and "list_all (transform_bundle_ok parse) (map snd (cf_transforms cfg))"
  shows "\<exists>pf'. resolve_profile cfg pf = Inr pf' \<and> pf_policy pf' = pf_policy pf \<and>
    merged_ok parse (pf_request_transforms pf', pf_response_transforms pf')"
proof (cases "pf_transforms pf = []")
  case True
  with assms(1) show ?thesis
    by (simp add: resolve_profile_def profile_ok_def merged_ok_def)
next
  case False
  with assms(1) have known: "list_all (\<lambda>n. map_of (cf_transforms cfg) n \<noteq> None) (pf_transforms pf)"
    by (simp add: profile_ok_def bundles_ok_def)
  have "merged_ok parse (default_request_transforms, default_response_transforms)"
    by (simp add: merged_ok_def default_request_transforms_def default_response_transforms_def filter_ok_def)
  from absorb_bundles_ok [OF known assms(2) this] False show ?thesis
    by (auto simp: resolve_profile_def)
qed

lemma known_bundles_expand:
  "list_all (\<lambda>b. map_of (cf_bundles cfg) b \<noteq> None) bs \<Longrightarrow> \<exists>r. expand_bundles cfg name bs ds cs = Inr r"
  by (induction bs arbitrary: ds cs) auto

text \<open>
  C21 (type). What validation passed does not go wrong for the reasons it looks at: for the embedded
  and every named profile of a configuration without errors the transforms of requests are built, every
  host set of its chain expands, and the transforms of responses can only fail in compiling the patterns
  of an MCP policy.
\<close>

theorem valid_configuration_builds:
  assumes "\<not> has_errors (validate (be_header_name be) cfg)"
    and "pf \<in> set (cf_profile cfg # map snd (cf_profiles cfg))"
  shows "(\<exists>ts. build_request_transforms be cfg name pf = Inr ts) \<and>
    (\<forall>l \<in> set (pf_policy pf). \<exists>r. expand_bundles cfg name (layer_bundles l) ds cs = Inr r) \<and>
    (case build_response_transforms be cfg name pf of Inr _ \<Rightarrow> True | Inl e \<Rightarrow> \<exists>me. e = BuildMcp name me)"
proof -
  let ?parse = "be_header_name be"
  have ok: "config_ok ?parse cfg"
    using assms(1) validation_is_exact_core by blast
  then have pf: "profile_ok ?parse cfg pf" and bundles: "list_all (transform_bundle_ok ?parse) (map snd (cf_transforms cfg))"
    using assms(2) by (auto simp: config_ok_def list_all_iff)
  obtain pf' where pf': "resolve_profile cfg pf = Inr pf'" "pf_policy pf' = pf_policy pf"
      "merged_ok ?parse (pf_request_transforms pf', pf_response_transforms pf')"
    using valid_profile_resolves [OF pf bundles] by blast
  obtain ms where ms: "opt_filter (rqt_headers (pf_request_transforms pf')) name ''request'' = Inr ms"
    using pf'(3) valid_filter_builds unfolding merged_ok_def by (metis fst_conv)
  obtain rs where rs: "opt_filter (rst_headers (pf_response_transforms pf')) name ''response'' = Inr rs"
    using pf'(3) valid_filter_builds unfolding merged_ok_def by (metis snd_conv)
  obtain hs where hs: "parse_set_headers ?parse name (rqt_set_headers (pf_request_transforms pf')) = Inr hs"
    using pf'(3) settable_headers_parse unfolding merged_ok_def by (metis fst_conv)
  have Inl_map: "map_sum f g x = Inl y \<longleftrightarrow> (\<exists>z. x = Inl z \<and> y = f z)" for f :: "build_error \<Rightarrow> build_error" and g x y
    by (cases x) auto
  have "\<exists>me. e = BuildMcp name me" if "build_tool_filters L name lcs = Inl e" for L e and lcs
    using that by (induction L name lcs rule: build_tool_filters.induct) (auto split: sum.splits simp: Inl_map)
  moreover have "\<forall>l \<in> set (pf_policy pf). \<exists>r. expand_bundles cfg name (layer_bundles l) ds cs = Inr r"
    using pf known_bundles_expand [of cfg] by (auto simp: profile_ok_def list_all_iff)
  ultimately show ?thesis
    using pf' ms rs hs
    by (auto simp: build_request_transforms_def build_response_transforms_def Let_def split: sum.splits)
qed

section \<open>A configuration\<close>

definition valid_profile :: profile where
  "valid_profile = default_profile
     \<lparr>pf_policy := [LDenylist \<lparr>hs_domains = [''bad.test''], hs_cidrs = [], hs_bundles = [''trackers'']\<rparr>],
      pf_request_transforms := default_request_transforms\<lparr>rqt_set_headers := [(''x-team'', ''a'')]\<rparr>\<rparr>"

definition valid_config :: config where
  "valid_config = default_config
     \<lparr>cf_profile := valid_profile, cf_bundles := [(''trackers'', \<lparr>hs_domains = [''t.test''], hs_cidrs = [], hs_bundles = []\<rparr>)]\<rparr>"

lemma valid_config_ok: "config_ok Some valid_config"
proof -
  have "header_value_ok ''a''" "\<not> request_header_is_managed ''x-team''"
    by code_simp+
  then show ?thesis
    by (simp add: config_ok_def valid_config_def default_config_def valid_profile_def default_profile_def profile_ok_def
        router_ok_def filter_ok_def settable_def default_request_transforms_def default_response_transforms_def)
qed

lemma valid_config_passes: "\<not> has_errors (validate Some valid_config)"
  using valid_config_ok validation_is_exact_core by blast

theorem valid_configuration_builds_witness:
  "(\<exists>ts. build_request_transforms (sample_build\<lparr>be_header_name := Some\<rparr>) valid_config ''p'' valid_profile = Inr ts) \<and>
   (\<exists>r. expand_bundles valid_config ''p'' [''trackers''] [] [] = Inr r)"
proof -
  have valid: "\<not> has_errors (validate (be_header_name (sample_build\<lparr>be_header_name := Some\<rparr>)) valid_config)"
    using valid_config_passes by simp
  have "valid_profile \<in> set (cf_profile valid_config # map snd (cf_profiles valid_config))"
    by (simp add: valid_config_def)
  from valid_configuration_builds [OF valid this, of "''p''" "[]" "[]"] show ?thesis
    by (simp add: valid_profile_def)
qed

text \<open>The bodies a transform bundle rewrites are not looked at; a profile's own are.\<close>

lemma bundle_bodies_are_not_checked:
  "check_bundle parse (name, b\<lparr>tb_response := (tb_response b)\<lparr>rst_body := ts\<rparr>\<rparr>) = check_bundle parse (name, b)"
  by (simp add: check_bundle_def Let_def)

lemma inline_replacement_is_checked:
  "has_errors (check_body loc i (BtLimit 3 (OsReplace ''long'')))"
  by (simp add: body_errors)

end
