(* ===== verification/EnvFile.thy ===== *)
theory EnvFile
  imports Providers Config Identity Oauth
begin

text \<open>
  \<open>crates/marshal-config/src/env_file.rs\<close> and the part of \<open>load_env_file\<close> of the command line that
  installs the result: which file is asked for, its small dialect, and what reaches a variable. Files are
  read by an operation of the environment; the lines are those of \<open>str::lines\<close>.
\<close>

section \<open>Paths\<close>

text \<open>\<open>Path::join\<close> and \<open>Path::parent\<close>, the latter up to equality of paths.\<close>

definition joined :: "string \<Rightarrow> string \<Rightarrow> string" where
  "joined base p = (if prefix ''/'' p then p else path_join base p)"

definition path_components :: "string \<Rightarrow> string list" where
  "path_components p =
    (let cs = split_on (CHR ''/'') p;
         named = filter (\<lambda>c. c \<noteq> [] \<and> c \<noteq> ''.'') cs in
     if hd cs = ''.'' then ''.'' # named else named)"

definition path_parent :: "string \<Rightarrow> string option" where
  "path_parent p =
    (if path_components p = [] then None
     else Some ((if prefix ''/'' p then ''/'' else []) @ join ''/'' (butlast (path_components p))))"

definition expand_tilde :: "string \<Rightarrow> string option \<Rightarrow> string" where
  "expand_tilde p home =
    (case strip_prefix ''~/'' p of
       None \<Rightarrow> p
     | Some rest \<Rightarrow> (case home of None \<Rightarrow> p | Some h \<Rightarrow> joined h rest))"

definition resolve_dir :: "string option \<Rightarrow> string \<Rightarrow> string \<Rightarrow> string" where
  "resolve_dir home base raw = joined base (expand_tilde raw home)"

definition config_dir :: "string \<Rightarrow> string" where
  "config_dir config_path = (case path_parent config_path of Some d \<Rightarrow> d | None \<Rightarrow> ''.'')"

section \<open>Which file\<close>

datatype env_file_error =
    EnvIo string string
  | EnvMissing (em_path: string) (em_named: string)
  | EnvSyntax string nat string

datatype requested_file =
    IfPresent string
  | Required string string
  | NoEnvFile

definition default_env_file :: string where "default_env_file = ''.env''"

fun requested :: "string option \<Rightarrow> string \<Rightarrow> env_file_setting option \<Rightarrow> requested_file" where
  "requested home config_path None = IfPresent (resolve_dir home (config_dir config_path) default_env_file)"
| "requested home config_path (Some (EnvEnabled True)) =
     IfPresent (resolve_dir home (config_dir config_path) default_env_file)"
| "requested home config_path (Some (EnvEnabled False)) = NoEnvFile"
| "requested home config_path (Some (EnvPath p)) = Required (resolve_dir home (config_dir config_path) p) p"

text \<open>Reading a text: \<open>FileAbsent\<close> is the error kind \<open>NotFound\<close>, any other carries its message.\<close>

datatype read_failure = FileAbsent | FileUnreadable string

record env_files =
  ef_read :: "string \<Rightarrow> read_failure + string"
  ef_home :: "string option"
  ef_setting :: "string \<Rightarrow> env_file_setting option option"

text \<open>\<open>ef_setting\<close> is the YAML parser at the one key: \<open>None\<close> is a document it refuses.\<close>

definition requested_for :: "env_files \<Rightarrow> string \<Rightarrow> requested_file" where
  "requested_for ef config_path =
    (case ef_read ef config_path of
       Inl _ \<Rightarrow> NoEnvFile
     | Inr doc \<Rightarrow> (case ef_setting ef doc of
         None \<Rightarrow> NoEnvFile
       | Some setting \<Rightarrow> requested (ef_home ef) config_path setting))"

section \<open>The dialect\<close>

definition alphabetic :: "char \<Rightarrow> bool" where
  "alphabetic c \<longleftrightarrow> is_ascii_upper c \<or> is_ascii_lower c"

definition name_start :: "char \<Rightarrow> bool" where
  "name_start c \<longleftrightarrow> alphabetic c \<or> c = CHR ''_''"

definition name_char :: "char \<Rightarrow> bool" where
  "name_char c \<longleftrightarrow> alphabetic c \<or> is_ascii_digit c \<or> c = CHR ''_''"

definition usable_name :: "string \<Rightarrow> bool" where
  "usable_name key \<longleftrightarrow> key \<noteq> [] \<and> name_start (hd key) \<and> list_all name_char key"

text \<open>The character a text begins with, which may be several bytes.\<close>

definition first_char :: "string \<Rightarrow> string" where
  "first_char s = (case utf8_width (bytes_of s) of Some w \<Rightarrow> take w s | None \<Rightarrow> take 1 s)"

definition escaped :: "char \<Rightarrow> char option" where
  "escaped c =
    (if c = CHR ''n'' then Some (CHR 0x0A) else if c = CHR ''r'' then Some (CHR 0x0D)
     else if c = CHR ''t'' then Some (CHR 0x09) else if c = CHR 0x5C then Some (CHR 0x5C)
     else if c = CHR 0x22 then Some (CHR 0x22) else None)"

text \<open>The text up to the closing quote and what follows it.\<close>

fun quoted :: "char \<Rightarrow> string \<Rightarrow> string \<Rightarrow> string + string \<times> string" where
  "quoted q out [] = Inl (''unterminated '' @ [q] @ '' quote'')"
| "quoted q out (c # t) =
    (if c = q then Inr (out, t)
     else if c = CHR 0x5C \<and> q = CHR 0x22
     then (case t of
             [] \<Rightarrow> Inl ''value ends in a trailing backslash''
           | e # t' \<Rightarrow> (case escaped e of
               Some x \<Rightarrow> quoted q (out @ [x]) t'
             | None \<Rightarrow> Inl (''unknown escape `'' @ [CHR 0x5C] @ first_char t @ ''` '' @ [CHR 0xE2, CHR 0x80, CHR 0x94]
                 @ '' only '' @ [CHR 0x5C] @ ''n '' @ [CHR 0x5C] @ ''r '' @ [CHR 0x5C] @ ''t ''
                 @ [CHR 0x5C, CHR 0x5C] @ '' '' @ [CHR 0x5C, CHR 0x22] @ '' are understood'')))
     else quoted q (out @ [c]) t)"

definition parse_value :: "string \<Rightarrow> string + string" where
  "parse_value v =
    (case v of
       [] \<Rightarrow> Inr v
     | q # t \<Rightarrow>
         if q \<noteq> CHR 0x22 \<and> q \<noteq> CHR 0x27 then Inr v
         else (case quoted q [] t of
                 Inl e \<Rightarrow> Inl e
               | Inr (out, rest) \<Rightarrow>
                   if trim rest \<noteq> [] then Inl ''unexpected text after the closing quote'' else Inr out))"

text \<open>The last assignment wins in the place of the first.\<close>

fun assign :: "string \<Rightarrow> string \<Rightarrow> (string \<times> string) list \<Rightarrow> (string \<times> string) list" where
  "assign k v [] = [(k, v)]"
| "assign k v ((k', v') # out) = (if k' = k then (k, v) # out else (k', v') # assign k v out)"

text \<open>One line: nothing, an assignment, or what is wrong with it.\<close>

definition parse_line :: "string \<Rightarrow> string + (string \<times> string) option" where
  "parse_line raw =
    (let trimmed = trim raw in
     if trimmed = [] \<or> prefix ''#'' trimmed then Inr None
     else
       let assignment = trim_start (case strip_prefix ''export '' trimmed of Some a \<Rightarrow> a | None \<Rightarrow> trimmed) in
       (case split_once (CHR ''='') assignment of
          None \<Rightarrow> Inl ''expected KEY=value''
        | Some (key, v) \<Rightarrow>
            let key = trim_end key in
            if key = [] then Inl ''empty variable name''
            else if \<not> usable_name key
            then Inl (''`'' @ key @ ''` is not a usable variable name '' @ [CHR 0xE2, CHR 0x80, CHR 0x94]
                   @ '' expected letters, digits and underscores, not starting with a digit'')
            else (case parse_value (trim v) of Inl e \<Rightarrow> Inl e | Inr x \<Rightarrow> Inr (Some (key, x)))))"

fun env_lines :: "string \<Rightarrow> nat \<Rightarrow> (string \<times> string) list \<Rightarrow> string list \<Rightarrow> env_file_error + (string \<times> string) list" where
  "env_lines path n out [] = Inr out"
| "env_lines path n out (l # ls) =
    (case parse_line l of
       Inl e \<Rightarrow> Inl (EnvSyntax path n e)
     | Inr None \<Rightarrow> env_lines path (Suc n) out ls
     | Inr (Some (k, v)) \<Rightarrow> env_lines path (Suc n) (assign k v out) ls)"

definition env_parse :: "string \<Rightarrow> string \<Rightarrow> env_file_error + (string \<times> string) list" where
  "env_parse path doc = env_lines path 1 [] (str_lines doc)"

definition env_read :: "env_files \<Rightarrow> requested_file \<Rightarrow> env_file_error + (string \<times> (string \<times> string) list) option" where
  "env_read ef r =
    (let go = (\<lambda>path named.
       case ef_read ef path of
         Inl FileAbsent \<Rightarrow> (case named of Some n \<Rightarrow> Inl (EnvMissing path n) | None \<Rightarrow> Inr None)
       | Inl (FileUnreadable e) \<Rightarrow> Inl (EnvIo path e)
       | Inr doc \<Rightarrow> (case env_parse path doc of Inl e \<Rightarrow> Inl e | Inr vars \<Rightarrow> Inr (Some (path, vars)))) in
     case r of
       NoEnvFile \<Rightarrow> Inr None
     | IfPresent p \<Rightarrow> go p None
     | Required p named \<Rightarrow> go p (Some named))"

section \<open>Installing it\<close>

record applied_env =
  ae_path :: string
  ae_applied :: nat
  ae_shadowed :: nat

definition load_env_file ::
  "env_files \<Rightarrow> string \<Rightarrow> environment \<Rightarrow> env_file_error + applied_env option \<times> environment" where
  "load_env_file ef config_path en =
    (case env_read ef (requested_for ef config_path) of
       Inl e \<Rightarrow> Inl e
     | Inr None \<Rightarrow> Inr (None, en)
     | Inr (Some (path, vars)) \<Rightarrow>
         let shadowed = length (filter (\<lambda>(k, _). en_process en k \<noteq> EnvNotPresent) vars) in
         Inr (Some \<lparr>ae_path = path, ae_applied = length vars - shadowed, ae_shadowed = shadowed\<rparr>,
              snd (install_overlay vars en)))"

section \<open>Properties\<close>

lemma map_of_assign: "map_of (assign k v out) = (map_of out)(k \<mapsto> v)"
  by (induction k v out rule: assign.induct) (auto simp: fun_eq_iff)

lemma keys_assign: "fst ` set (assign k v out) = insert k (fst ` set out)"
  by (induction k v out rule: assign.induct) auto

lemma distinct_assign: "distinct (map fst out) \<Longrightarrow> distinct (map fst (assign k v out))"
proof (induction k v out rule: assign.induct)
  case (2 k v k' v' out)
  then show ?case
    using keys_assign [of k v out] by auto
qed simp

lemma assign_new: "k \<notin> fst ` set out \<Longrightarrow> assign k v out = out @ [(k, v)]"
  by (induction k v out rule: assign.induct) auto

lemma parse_line_name: "parse_line l = Inr (Some (k, v)) \<Longrightarrow> usable_name k"
  by (auto simp: parse_line_def Let_def split: if_splits option.splits sum.splits prod.splits)

lemma env_lines_names:
  "env_lines path n out ls = Inr vars \<Longrightarrow> distinct (map fst out) \<Longrightarrow> \<forall>k \<in> fst ` set out. usable_name k \<Longrightarrow>
     distinct (map fst vars) \<and> (\<forall>k \<in> fst ` set vars. usable_name k)"
proof (induction path n out ls rule: env_lines.induct)
  case (2 path n out l ls)
  show ?case
  proof (cases "parse_line l")
    case (Inr r)
    show ?thesis
    proof (cases r)
      case (Some kv)
      obtain k v where "kv = (k, v)"
        by fastforce
      with Inr Some have line: "parse_line l = Inr (Some (k, v))"
        by simp
      have "env_lines path (Suc n) (assign k v out) ls = Inr vars"
        using "2.prems"(1) line by simp
      moreover have "\<forall>j \<in> fst ` set (assign k v out). usable_name j"
        using "2.prems"(3) parse_line_name [OF line] by (simp add: keys_assign)
      ultimately show ?thesis
        using "2.IH"(2) [OF line refl refl] distinct_assign [OF "2.prems"(2)] by blast
    qed (use 2 Inr in simp)
  qed (use 2 in simp)
qed simp

text \<open>A value between double quotes.\<close>

definition escape_char :: "char \<Rightarrow> string" where
  "escape_char c =
    (if c = CHR 0x0A then [CHR 0x5C, CHR ''n''] else if c = CHR 0x0D then [CHR 0x5C, CHR ''r'']
     else if c = CHR 0x09 then [CHR 0x5C, CHR ''t''] else if c = CHR 0x5C then [CHR 0x5C, CHR 0x5C]
     else if c = CHR 0x22 then [CHR 0x5C, CHR 0x22] else [c])"

definition env_quote :: "string \<Rightarrow> string" where
  "env_quote v = CHR 0x22 # concat (map escape_char v) @ [CHR 0x22]"

definition env_line :: "string \<times> string \<Rightarrow> string" where
  "env_line kv = fst kv @ ''='' @ env_quote (snd kv)"

lemma quoted_escapes: "quoted (CHR 0x22) out (concat (map escape_char v) @ CHR 0x22 # t) = Inr (out @ v, t)"
  by (induction v arbitrary: out) (simp_all add: escape_char_def escaped_def)

lemma strip_any_Nil [simp]: "strip_any ws [] = []"
proof -
  have "find (\<lambda>w. w \<noteq> [] \<and> prefix w []) ws = None"
    by (auto simp: find_None_iff)
  then show ?thesis
    by (subst strip_any.simps) (simp only: option.case)
qed

lemma trim_Nil: "trim [] = []"
  by (simp add: trim_def trim_start_def trim_end_def)

lemma parse_quoted_value: "parse_value (env_quote v) = Inr v"
  using quoted_escapes [of "[]" v "[]"] by (simp add: parse_value_def env_quote_def trim_Nil)

lemma plain_not_stripped:
  assumes "plain_char c" and "ws = white_space \<or> ws = map rev white_space"
  shows "strip_any ws (c # t) = c # t"
proof -
  have "list_all (\<lambda>x. x \<noteq> [] \<longrightarrow> \<not> plain_char (hd x)) (white_space @ map rev white_space)"
    by code_simp
  then have heads: "\<forall>x \<in> set ws. x \<noteq> [] \<longrightarrow> \<not> plain_char (hd x)"
    using assms(2) by (auto simp: list_all_iff)
  have "\<not> (w \<noteq> [] \<and> prefix w (c # t))" if "w \<in> set ws" for w
    using heads that assms(1) by (cases w) auto
  then have "find (\<lambda>w. w \<noteq> [] \<and> prefix w (c # t)) ws = None"
    by (simp add: find_None_iff)
  then show ?thesis
    by (subst strip_any.simps) (simp only: option.case)
qed

lemma trim_start_plain: "plain_char c \<Longrightarrow> trim_start (c # t) = c # t"
  by (simp add: trim_start_def plain_not_stripped)

lemma trim_end_plain: "plain_char c \<Longrightarrow> trim_end (t @ [c]) = t @ [c]"
  by (simp add: trim_end_def plain_not_stripped)

lemma trim_plain:
  assumes "plain_char (hd s)" and "plain_char (last s)" and "s \<noteq> []"
  shows "trim s = s"
proof -
  have "trim_start s = s"
    using trim_start_plain [OF assms(1), of "tl s"] assms(3) by simp
  moreover have "trim_end s = s"
    using trim_end_plain [OF assms(2), of "butlast s"] assms(3) by simp
  ultimately show ?thesis
    by (simp add: trim_def)
qed

lemma name_char_facts: "name_char c \<Longrightarrow> plain_char c \<and> c \<noteq> CHR ''='' \<and> c \<noteq> CHR ''#'' \<and> c \<noteq> CHR '' ''"
  by (auto simp: name_char_def alphabetic_def is_ascii_upper_def is_ascii_lower_def is_ascii_digit_def
      plain_char_def less_eq_char_def)

lemma name_start_char: "name_start c \<Longrightarrow> name_char c"
  by (auto simp: name_start_def name_char_def)

lemma parse_env_line:
  assumes "usable_name k"
  shows "parse_line (env_line (k, v)) = Inr (Some (k, v))"
proof -
  let ?l = "k @ CHR ''='' # env_quote v"
  have chars: "name_char c" if "c \<in> set k" for c
    using assms that by (simp add: usable_name_def list_all_iff)
  have k: "k \<noteq> []" "name_char (hd k)" "name_char (last k)"
    using assms chars by (auto simp: usable_name_def)
  have quote: "plain_char (CHR 0x22)"
    by (simp add: plain_char_def)
  have "trim ?l = ?l"
    by (rule trim_plain) (use k name_char_facts quote in \<open>auto simp: env_quote_def\<close>)
  moreover have "strip_prefix ''export '' ?l = None"
  proof -
    have "\<not> prefix ''export '' ?l"
    proof
      assume "prefix ''export '' ?l"
      then obtain a where "?l = ''export '' @ a"
        by (auto simp: prefix_def)
      then obtain us where "(k = ''export '' @ us) \<or> (k @ us = ''export '' \<and> CHR ''='' # env_quote v = us @ a)"
        unfolding append_eq_append_conv2 [of k] by metis
      then show False
      proof
        assume "k = ''export '' @ us"
        then have "CHR '' '' \<in> set k"
          by simp
        with chars name_char_facts show False
          by blast
      next
        assume us: "k @ us = ''export '' \<and> CHR ''='' # env_quote v = us @ a"
        show False
        proof (cases us)
          case Nil
          with us have "CHR '' '' \<in> set k"
            by simp
          with chars name_char_facts show False
            by blast
        next
          case (Cons u us')
          from us have eq: "k @ us = ''export ''"
            by blast
          have "CHR ''='' \<in> set us"
            using us Cons by simp
          then have "CHR ''='' \<in> set (k @ us)"
            by (simp del: set_append add: set_append [of k us])
          then have "CHR ''='' \<in> set ''export ''"
            unfolding eq .
          then show False
            by simp
        qed
      qed
    qed
    then show ?thesis
      by (simp add: strip_prefix_None_iff)
  qed
  moreover have "trim_start ?l = ?l"
    using k name_char_facts trim_start_plain [of "hd k"] by (cases k) auto
  moreover have "split_once (CHR ''='') ?l = Some (k, env_quote v)"
    using chars name_char_facts by (auto simp: split_once_Some)
  moreover have "trim_end k = k"
    using k name_char_facts trim_end_plain [of "last k" "butlast k"] by simp
  moreover have "trim (env_quote v) = env_quote v"
    by (rule trim_plain) (auto simp: env_quote_def quote)
  moreover have "\<not> prefix ''#'' ?l"
    using k name_char_facts by (cases k) auto
  ultimately show ?thesis
    using k(1) assms by (simp add: parse_line_def env_line_def Let_def parse_quoted_value)
qed

lemma env_line_breaks: "usable_name k \<Longrightarrow> CHR 0x0A \<notin> set (env_line (k, v)) \<and> CHR 0x0D \<notin> set (env_line (k, v))"
proof -
  have "CHR 0x0A \<notin> set (escape_char c) \<and> CHR 0x0D \<notin> set (escape_char c)" for c
    by (auto simp: escape_char_def)
  moreover assume "usable_name k"
  then have "c \<in> set k \<Longrightarrow> plain_char c" for c
    using name_char_facts by (auto simp: usable_name_def list_all_iff)
  from this [of "CHR 0x0A"] this [of "CHR 0x0D"] have "CHR 0x0A \<notin> set k" "CHR 0x0D \<notin> set k"
    by (simp_all add: plain_char_def) blast+
  ultimately show ?thesis
    by (auto simp: env_line_def env_quote_def)
qed

lemma env_lines_of_pairs:
  "distinct (map fst (out @ kvs)) \<Longrightarrow> \<forall>kv \<in> set kvs. usable_name (fst kv) \<Longrightarrow>
     env_lines path n out (map env_line kvs) = Inr (out @ kvs)"
proof (induction kvs arbitrary: n out)
  case (Cons kv kvs)
  obtain k v where kv: "kv = (k, v)"
    by fastforce
  from Cons.prems kv have "k \<notin> fst ` set out"
    by auto
  with Cons kv show ?case
    by (simp add: parse_env_line assign_new)
qed simp

text \<open>
  C19 (roundtrip). A credential survives the file: whatever bytes the values have (quotes, backslashes, line
  breaks, number signs, white space at either end), writing each assignment with its value between double
  quotes, one to a line, and reading the file back gives the same variables in the same order.
\<close>

theorem env_file_roundtrip:
  assumes "distinct (map fst kvs)" and "\<forall>kv \<in> set kvs. usable_name (fst kv)"
  shows "env_parse path (terminated (map env_line kvs)) = Inr kvs"
proof -
  have "str_lines (terminated (map env_line kvs)) = map env_line kvs"
    by (rule str_lines_terminated) (use assms(2) env_line_breaks in auto)
  then show ?thesis
    using env_lines_of_pairs [of "[]" kvs] assms by (simp add: env_parse_def)
qed

theorem env_file_roundtrip_witness:
  "env_parse ''p'' (terminated (map env_line [(''TOKEN'', '' a#b''), (''K_2'', [CHR 0x22, CHR 0x5C, CHR 0x0A])])) =
     Inr [(''TOKEN'', '' a#b''), (''K_2'', [CHR 0x22, CHR 0x5C, CHR 0x0A])]"
proof (rule env_file_roundtrip)
  show "\<forall>kv \<in> set [(''TOKEN'', '' a#b''), (''K_2'', [CHR 0x22, CHR 0x5C, CHR 0x0A])]. usable_name (fst kv)"
    by code_simp
qed simp

text \<open>The keys of a file are usable names, each once.\<close>

lemma env_parse_names:
  "env_parse path doc = Inr vars \<Longrightarrow> distinct (map fst vars) \<and> (\<forall>k \<in> fst ` set vars. usable_name k)"
  unfolding env_parse_def by (drule env_lines_names) simp_all

text \<open>
  The file never shadows the process environment: a variable has its own value where it has one, the one of
  the file otherwise, and the environment children inherit is not touched. What is reported adds up.
\<close>

lemma env_file_only_fills_gaps:
  assumes "load_env_file ef config_path en = Inr (Some ae, en')" and "en_overlay en = None"
  shows "en_process en' = en_process en"
    and "\<exists>vars. env_read ef (requested_for ef config_path) = Inr (Some (ae_path ae, vars)) \<and>
      ae_applied ae + ae_shadowed ae = length vars \<and>
      (\<forall>k. env_var en' k = (case en_process en k of EnvSet v \<Rightarrow> Some v | EnvNotUnicode \<Rightarrow> None
                              | EnvNotPresent \<Rightarrow> map_of vars k))"
proof -
  obtain path vars where r: "env_read ef (requested_for ef config_path) = Inr (Some (path, vars))"
      "ae_path ae = path" "en' = snd (install_overlay vars en)"
      "ae_shadowed ae = length (filter (\<lambda>(k, _). en_process en k \<noteq> EnvNotPresent) vars)"
      "ae_applied ae = length vars - ae_shadowed ae"
    using assms(1) by (auto simp: load_env_file_def Let_def split: sum.splits option.splits)
  have "\<exists>doc. env_parse path doc = Inr vars"
    using r(1) by (auto simp: env_read_def Let_def split: requested_file.splits sum.splits read_failure.splits option.splits)
  then have "distinct (map fst vars)"
    using env_parse_names by blast
  then have "map_of (foldl (\<lambda>m (k, v). map_insert k v m) m vars) k =
      (case map_of vars k of None \<Rightarrow> map_of m k | Some v \<Rightarrow> Some v)" for m k
    by (induction vars arbitrary: m) (auto split: option.splits simp: image_iff dest: map_of_SomeD)
  then show "\<exists>vars. env_read ef (requested_for ef config_path) = Inr (Some (ae_path ae, vars)) \<and>
      ae_applied ae + ae_shadowed ae = length vars \<and>
      (\<forall>k. env_var en' k = (case en_process en k of EnvSet v \<Rightarrow> Some v | EnvNotUnicode \<Rightarrow> None
                              | EnvNotPresent \<Rightarrow> map_of vars k))"
    using r assms(2) by (auto simp: install_overlay_def env_var_def split: env_value.splits option.splits)
  show "en_process en' = en_process en"
    using r assms(2) by (simp add: install_overlay_def)
qed

text \<open>A file named in the configuration must exist; the default one need not.\<close>

lemma named_file_must_exist:
  "ef_read ef p = Inl FileAbsent \<Longrightarrow> env_read ef (Required p n) = Inl (EnvMissing p n)"
  "ef_read ef p = Inl FileAbsent \<Longrightarrow> env_read ef (IfPresent p) = Inr None"
  by (simp_all add: env_read_def)

text \<open>An unquoted value is taken as it stands, a number sign included.\<close>

lemma unquoted_value_is_verbatim:
  "parse_value v = Inr v" if "v = [] \<or> hd v \<noteq> CHR 0x22 \<and> hd v \<noteq> CHR 0x27"
  using that by (cases v) (simp_all add: parse_value_def)

end
