(* ===== verification/Loading.thy ===== *)
theory Loading
  imports EnvFile Validate
begin

text \<open>
  \<open>crates/marshal-config/src/load.rs\<close>: the base file and the files of the four directories beside it, one
  per profile, bundle, bind group and transform bundle. YAML documents are read by parameters, one for each
  type; the file system does not change while it is read. Maps are the sorted lists of \<open>map_insert\<close>.
\<close>

section \<open>Files\<close>

record dir_entry =
  de_name :: string
  de_is_file :: bool

record load_files =
  lf_read :: "string \<Rightarrow> string + string"
  lf_list :: "string \<Rightarrow> dir_entry list option"
  lf_home :: "string option"
  lf_config :: "string \<Rightarrow> string + config"
  lf_profile :: "string \<Rightarrow> string + profile"
  lf_host_set :: "string \<Rightarrow> string + host_set"
  lf_bind_group :: "string \<Rightarrow> string + bind_group"
  lf_transforms :: "string \<Rightarrow> string + transform_bundle"

datatype load_error =
    LoadIo string string
  | LoadParse string string
  | DuplicateBundle string string
  | DuplicateBindGroup string string

definition read_one :: "load_files \<Rightarrow> (string \<Rightarrow> string + 'a) \<Rightarrow> string \<Rightarrow> load_error + 'a" where
  "read_one lf parse path =
    (case lf_read lf path of
       Inl e \<Rightarrow> Inl (LoadIo path e)
     | Inr doc \<Rightarrow> (case parse doc of Inl e \<Rightarrow> Inl (LoadParse path e) | Inr x \<Rightarrow> Inr x))"

text \<open>
  \<open>Path::file_stem\<close> and \<open>Path::extension\<close> of the name of an entry: split at the last dot, unless it is the
  first character. A name that is not UTF-8 has no text.
\<close>

definition stem_and_extension :: "string \<Rightarrow> string \<times> string option" where
  "stem_and_extension name =
    (case rsplit_once (CHR ''.'') name of
       None \<Rightarrow> (name, None)
     | Some (a, b) \<Rightarrow> if a = [] then (name, None) else (a, Some b))"

definition utf8_text :: "string \<Rightarrow> string option" where
  "utf8_text s = (if utf8_ok (bytes_of s) then Some s else None)"

definition is_yaml :: "string \<Rightarrow> bool" where
  "is_yaml name \<longleftrightarrow>
    (case Option.bind (snd (stem_and_extension name)) utf8_text of
       None \<Rightarrow> False
     | Some e \<Rightarrow> e = ''yaml'' \<or> e = ''yml'')"

definition file_key :: "string \<Rightarrow> string" where
  "file_key name = (case utf8_text (fst (stem_and_extension name)) of None \<Rightarrow> [] | Some s \<Rightarrow> s)"

definition yaml_files :: "dir_entry list \<Rightarrow> string list" where
  "yaml_files es = sort (map de_name (filter (\<lambda>e. de_is_file e \<and> is_yaml (de_name e)) es))"

definition load_dir ::
  "load_files \<Rightarrow> (string \<Rightarrow> string + 'a) \<Rightarrow> string \<Rightarrow> load_error + (string \<times> string \<times> 'a) list" where
  "load_dir lf parse dir =
    (case lf_list lf dir of
       None \<Rightarrow> Inr []
     | Some es \<Rightarrow> traverse (\<lambda>name. let path = path_join dir name in
         case read_one lf parse path of Inl e \<Rightarrow> Inl e | Inr x \<Rightarrow> Inr (file_key name, path, x)) (yaml_files es))"

section \<open>Loading\<close>

text \<open>What is found goes into a map; a name that is taken is an error where an error is given.\<close>

fun add_found ::
  "(string \<Rightarrow> string \<Rightarrow> load_error) option \<Rightarrow> (string \<times> 'a) list \<Rightarrow> (string \<times> string \<times> 'a) list
     \<Rightarrow> load_error + (string \<times> 'a) list" where
  "add_found taken m [] = Inr m"
| "add_found taken m ((name, path, x) # found) =
    (case taken of
       Some e \<Rightarrow>
         if map_of m name \<noteq> None then Inl (e name path) else add_found taken (map_insert name x m) found
     | None \<Rightarrow> add_found taken (map_insert name x m) found)"

definition load_into ::
  "load_files \<Rightarrow> (string \<Rightarrow> string + 'a) \<Rightarrow> (string \<Rightarrow> string \<Rightarrow> load_error) option \<Rightarrow> string
     \<Rightarrow> (string \<times> 'a) list \<Rightarrow> load_error + (string \<times> 'a) list" where
  "load_into lf parse taken dir m =
    (case load_dir lf parse dir of Inl e \<Rightarrow> Inl e | Inr found \<Rightarrow> add_found taken m found)"

definition load_config :: "load_files \<Rightarrow> string \<Rightarrow> load_error + config" where
  "load_config lf path =
    (case read_one lf (lf_config lf) path of
       Inl e \<Rightarrow> Inl e
     | Inr cfg \<Rightarrow>
         let dir = (\<lambda>raw. resolve_dir (lf_home lf) (config_dir path) raw) in
         (case load_into lf (lf_profile lf) None (dir (cf_profiles_path cfg)) (cf_profiles cfg) of
            Inl e \<Rightarrow> Inl e
          | Inr profiles \<Rightarrow>
            (case load_into lf (lf_host_set lf) (Some DuplicateBundle) (dir (cf_bundles_path cfg)) (cf_bundles cfg) of
               Inl e \<Rightarrow> Inl e
             | Inr bundles \<Rightarrow>
               (case load_into lf (lf_bind_group lf) (Some DuplicateBindGroup) (dir (cf_bind_groups_path cfg))
                       (cf_bind_groups cfg) of
                  Inl e \<Rightarrow> Inl e
                | Inr groups \<Rightarrow>
                  (case load_into lf (lf_transforms lf) None (dir (cf_transforms_path cfg)) (cf_transforms cfg) of
                     Inl e \<Rightarrow> Inl e
                   | Inr transforms \<Rightarrow>
                       Inr (cfg\<lparr>cf_profiles := profiles, cf_bundles := bundles, cf_bind_groups := groups,
                                cf_transforms := transforms\<rparr>))))))"

section \<open>Checking a configuration\<close>

text \<open>
  \<open>config_check\<close> of the command line, without its output: the building of the secret swaps is a parameter.
\<close>

definition config_check :: "load_files \<Rightarrow> (string \<Rightarrow> string option) \<Rightarrow> (config \<Rightarrow> bool) \<Rightarrow> string \<Rightarrow> bool" where
  "config_check lf parse secrets path =
    (case load_config lf path of
       Inl _ \<Rightarrow> False
     | Inr cfg \<Rightarrow>
         let errors = length (filter (\<lambda>d. dg_severity d = SevError) (validate parse cfg)) in
         if 0 < errors then False else secrets cfg)"

section \<open>Properties\<close>

lemma add_found_map_of:
  "add_found taken m found = Inr m' \<Longrightarrow>
     map_of m' k = (case map_of (rev (map (\<lambda>(n, p, x). (n, x)) found)) k of None \<Rightarrow> map_of m k | Some x \<Rightarrow> Some x)"
  by (induction taken m found rule: add_found.induct)
    (auto simp: map_add_def split: option.splits if_splits)

lemma add_found_distinct:
  "add_found (Some e) m found = Inr m' \<Longrightarrow>
     distinct (map fst found) \<and> fst ` set found \<inter> fst ` set m = {}"
proof (induction "Some e" m found rule: add_found.induct)
  case (2 m name path x found)
  then have "map_of m name = None" "add_found (Some e) (map_insert name x m) found = Inr m'"
    by (auto split: if_splits)
  with 2 show ?case
    by (auto simp: map_of_eq_None_iff)
qed simp

lemma load_dir_found:
  assumes "load_dir lf parse dir = Inr found" and "lf_list lf dir = Some es"
  shows "map fst found = map file_key (yaml_files es)"
    and "\<forall>name \<in> set (yaml_files es). \<exists>x. read_one lf parse (path_join dir name) = Inr x \<and>
      (file_key name, path_join dir name, x) \<in> set found"
proof -
  have rel: "list_all2 (\<lambda>name y. (let path = path_join dir name in
      case read_one lf parse path of Inl e \<Rightarrow> Inl e | Inr x \<Rightarrow> Inr (file_key name, path, x)) = Inr y) (yaml_files es) found"
    using assms by (simp add: load_dir_def traverse_Inr)
  then show "map fst found = map file_key (yaml_files es)"
    by (induction rule: list_all2_induct) (auto simp: Let_def split: sum.splits)
  from rel show "\<forall>name \<in> set (yaml_files es). \<exists>x. read_one lf parse (path_join dir name) = Inr x \<and>
      (file_key name, path_join dir name, x) \<in> set found"
    by (induction rule: list_all2_induct) (auto simp: Let_def split: sum.splits)
qed

lemma add_found_taken:
  assumes "add_found (Some e) m found = Inr m'"
  shows "map_of m k = Some x \<Longrightarrow> map_of m' k = Some x"
    and "(k, path, y) \<in> set found \<Longrightarrow> map_of m' k = Some y"
proof -
  let ?fs = "map (\<lambda>(n, p, x). (n, x)) found"
  have fst: "map fst ?fs = map fst found"
    by (induction found) auto
  have d: "distinct (map fst ?fs)"
    unfolding fst using add_found_distinct [OF assms] by blast
  have "set (map fst ?fs) = set (map fst found)"
    unfolding fst ..
  then have keys: "fst ` set ?fs = fst ` set found"
    by (simp only: set_map)
  have rev: "map_of (rev ?fs) = map_of ?fs"
  proof
    fix k
    show "map_of (rev ?fs) k = map_of ?fs k"
    proof (cases "map_of ?fs k")
      case None
      then have "map_of (rev ?fs) k = None"
        unfolding map_of_eq_None_iff set_rev .
      with None show ?thesis
        by (simp only:)
    next
      case (Some x)
      then have "(k, x) \<in> set (rev ?fs)"
        using d by (simp only: map_of_eq_Some_iff set_rev)
      moreover have "distinct (map fst (rev ?fs))"
        using d by (simp only: rev_map [symmetric] distinct_rev)
      ultimately show ?thesis
        using Some by (simp only: map_of_eq_Some_iff)
    qed
  qed
  note of = add_found_map_of [OF assms, unfolded rev]
  show "map_of m' k = Some x" if "map_of m k = Some x"
  proof -
    from that have "k \<in> fst ` set m"
      by (metis map_of_eq_None_iff option.distinct(1))
    then have "k \<notin> fst ` set ?fs"
      using add_found_distinct [OF assms] unfolding keys by blast
    then have "map_of ?fs k = None"
      by (simp add: map_of_eq_None_iff)
    with that show ?thesis
      by (simp add: of)
  qed
  show "map_of m' k = Some y" if "(k, path, y) \<in> set found"
  proof -
    have "(k, y) \<in> set ?fs"
      using that by force
    then have "map_of ?fs k = Some y"
      using d by simp
    then show ?thesis
      by (simp add: of)
  qed
qed

lemma load_into_taken:
  assumes "load_into lf parse (Some e) dir m = Inr m'"
  shows "map_of m k = Some x \<Longrightarrow> map_of m' k = Some x"
    and "lf_list lf dir = Some es \<Longrightarrow> name \<in> set (yaml_files es) \<Longrightarrow>
      \<exists>x. read_one lf parse (path_join dir name) = Inr x \<and> map_of m' (file_key name) = Some x"
proof -
  obtain found where found: "load_dir lf parse dir = Inr found" "add_found (Some e) m found = Inr m'"
    using assms by (auto simp: load_into_def split: sum.splits)
  show "map_of m k = Some x \<Longrightarrow> map_of m' k = Some x"
    by (rule add_found_taken(1) [OF found(2)])
  show "\<exists>x. read_one lf parse (path_join dir name) = Inr x \<and> map_of m' (file_key name) = Some x"
    if "lf_list lf dir = Some es" "name \<in> set (yaml_files es)"
    using load_dir_found(2) [OF found(1) that(1)] that(2) add_found_taken(2) [OF found(2)] by blast
qed

text \<open>Where a name may be taken the last file with it counts, and a name of the base goes.\<close>

lemma load_into_named:
  assumes "load_into lf parse taken dir m = Inr m'" and "lf_list lf dir = Some es" and "name \<in> set (yaml_files es)"
  shows "(\<exists>x. read_one lf parse (path_join dir name) = Inr x) \<and> map_of m' (file_key name) \<noteq> None"
proof -
  obtain found where found: "load_dir lf parse dir = Inr found" "add_found taken m found = Inr m'"
    using assms(1) by (auto simp: load_into_def split: sum.splits)
  obtain x where x: "read_one lf parse (path_join dir name) = Inr x" "(file_key name, path_join dir name, x) \<in> set found"
    using load_dir_found(2) [OF found(1) assms(2)] assms(3) by blast
  then have "file_key name \<in> fst ` set (rev (map (\<lambda>(n, p, x). (n, x)) found))"
    by force
  then have "map_of (rev (map (\<lambda>(n, p, x). (n, x)) found)) (file_key name) \<noteq> None"
    by (simp only: map_of_eq_None_iff not_not)
  then show ?thesis
    using x add_found_map_of [OF found(2), of "file_key name"] by (auto split: option.splits)
qed

lemma bind_Inr: "(case r of Inl e \<Rightarrow> Inl e | Inr x \<Rightarrow> f x) = Inr y \<Longrightarrow> (\<And>x. r = Inr x \<Longrightarrow> f x = Inr y \<Longrightarrow> P) \<Longrightarrow> P"
  by (cases r) simp_all

lemma load_config_parts:
  assumes "load_config lf path = Inr cfg"
  obtains base profiles bundles groups transforms where
    "read_one lf (lf_config lf) path = Inr base"
    "load_into lf (lf_profile lf) None (resolve_dir (lf_home lf) (config_dir path) (cf_profiles_path base)) (cf_profiles base)
       = Inr profiles"
    "load_into lf (lf_host_set lf) (Some DuplicateBundle)
       (resolve_dir (lf_home lf) (config_dir path) (cf_bundles_path base)) (cf_bundles base) = Inr bundles"
    "load_into lf (lf_bind_group lf) (Some DuplicateBindGroup)
       (resolve_dir (lf_home lf) (config_dir path) (cf_bind_groups_path base)) (cf_bind_groups base) = Inr groups"
    "load_into lf (lf_transforms lf) None
       (resolve_dir (lf_home lf) (config_dir path) (cf_transforms_path base)) (cf_transforms base) = Inr transforms"
    "cfg = base\<lparr>cf_profiles := profiles, cf_bundles := bundles, cf_bind_groups := groups, cf_transforms := transforms\<rparr>"
  using assms unfolding load_config_def Let_def
  by (elim bind_Inr) (drule Inr_inject, rule that, assumption+, rule sym)


text \<open>A base file with one bundle, a second one beside it.\<close>

definition sample_files :: "(string \<times> string) list \<Rightarrow> load_files" where
  "sample_files files =
     \<lparr>lf_read = (\<lambda>p. case map_of files p of None \<Rightarrow> Inl ''absent'' | Some doc \<Rightarrow> Inr doc),
      lf_list = (\<lambda>d. if d = ''/m/b'' then Some (map (\<lambda>(p, _). \<lparr>de_name = drop 5 p, de_is_file = True\<rparr>) (tl files)) else None),
      lf_home = None,
      lf_config = (\<lambda>_. Inr (default_config\<lparr>cf_bundles := [(''own'', \<lparr>hs_domains = [''a''], hs_cidrs = [], hs_bundles = []\<rparr>)],
        cf_bundles_path := ''b'', cf_profiles_path := ''p'', cf_bind_groups_path := ''g'', cf_transforms_path := ''t''\<rparr>)),
      lf_profile = (\<lambda>_. Inr default_profile),
      lf_host_set = (\<lambda>doc. Inr \<lparr>hs_domains = [doc], hs_cidrs = [], hs_bundles = []\<rparr>),
      lf_bind_group = (\<lambda>_. Inl ''none''), lf_transforms = (\<lambda>_. Inl ''none'')\<rparr>"

lemma sample_dir: "resolve_dir None (config_dir ''/m/c.yaml'') ''b'' = ''/m/b''"
  by code_simp

lemma sample_loads:
  "\<exists>cfg. load_config (sample_files [(''/m/c.yaml'', []), (''/m/b/x.yaml'', ''x.test'')]) ''/m/c.yaml'' = Inr cfg"
proof -
  have "isl (load_config (sample_files [(''/m/c.yaml'', []), (''/m/b/x.yaml'', ''x.test'')]) ''/m/c.yaml'') = False"
    by code_simp
  then show ?thesis
    by (cases "load_config (sample_files [(''/m/c.yaml'', []), (''/m/b/x.yaml'', ''x.test'')]) ''/m/c.yaml''") auto
qed


text \<open>A bundle of the base file cannot be defined again beside it.\<close>

lemma second_definition_is_refused:
  "map_of m name \<noteq> None \<Longrightarrow> add_found (Some DuplicateBundle) m ((name, path, x) # found) = Inl (DuplicateBundle name path)"
  by auto

text \<open>
  Two files of one directory can have one name: the extension is not part of it. The profile that sorts
  first is then dropped without a word; of bundles the second is an error that blames the base file.
\<close>

lemma two_extensions_share_a_name:
  assumes "lf_list lf dir = Some [\<lparr>de_name = ''a.yaml'', de_is_file = True\<rparr>, \<lparr>de_name = ''a.yml'', de_is_file = True\<rparr>]"
    and "read_one lf parse (path_join dir ''a.yaml'') = Inr x" and "read_one lf parse (path_join dir ''a.yml'') = Inr y"
  shows "load_into lf parse None dir [] = Inr [(''a'', y)]"
    and "load_into lf parse (Some DuplicateBundle) dir [] = Inl (DuplicateBundle ''a'' (path_join dir ''a.yml''))"
proof -
  have names: "yaml_files [\<lparr>de_name = ''a.yaml'', de_is_file = True\<rparr>, \<lparr>de_name = ''a.yml'', de_is_file = True\<rparr>] = [''a.yaml'', ''a.yml'']"
      "file_key ''a.yaml'' = ''a''" "file_key ''a.yml'' = ''a''"
    by code_simp+
  show "load_into lf parse None dir [] = Inr [(''a'', y)]"
    and "load_into lf parse (Some DuplicateBundle) dir [] = Inl (DuplicateBundle ''a'' (path_join dir ''a.yml''))"
    using assms by (simp_all add: load_into_def load_dir_def names Let_def)
qed

text \<open>What \<open>config check\<close> passes is a well-formed configuration whose files were all read.\<close>

lemma config_check_is_exact:
  "config_check lf parse secrets path \<longleftrightarrow> (\<exists>cfg. load_config lf path = Inr cfg \<and> config_ok parse cfg \<and> secrets cfg)"
proof -
  have "0 < length (filter (\<lambda>d. dg_severity d = SevError) ds) \<longleftrightarrow> has_errors ds" for ds
    by (auto simp: has_errors_def list_ex_iff filter_empty_conv)
  then show ?thesis
    using validation_is_exact_core [of parse] by (auto simp: config_check_def Let_def split: sum.splits)
qed

end
