(* ===== verification/Spec2Isabelle.thy ===== *)
theory Spec2Isabelle
  imports Encoding Form Hosts Chain Layers Mcp Transforms Judge Guard Client Providers Config Build Redact AuditLog Server Inject OauthSource Broker Validate Loading
begin

text \<open>
  Verification development for bot-marshal.
\<close>

end
